theory Spec2Isabelle
  imports Main "HOL-Library.Word"
begin

section \<open>The in-memory Pub/Sub fake (package pstest)\<close>

text \<open>
  A shallow embedding of the broker simulator of \<^verbatim>\<open>src/unnamed/part_005\<close>
  (package \<^verbatim>\<open>pstest\<close>): the server \<^verbatim>\<open>GServer\<close>, its topics, subscriptions,
  pending messages and streams, and the operations on them.

  Conventions of the embedding.
  \<^item> Every operation runs under the one server mutex, so an operation is a function from
    the state before to a reply and the state after.
  \<^item> Go structs are records. Several structs of the source share field names
    (\<^verbatim>\<open>proto\<close>, \<^verbatim>\<open>msgs\<close>, \<^verbatim>\<open>ackTimeout\<close>, \<^verbatim>\<open>Name\<close>, ...); a field keeps the
    source's name behind a prefix for its struct: \<open>tp_\<close> for \<^verbatim>\<open>pb.Topic\<close>,
    \<open>sp_\<close> for \<^verbatim>\<open>pb.Subscription\<close>, \<open>pm_\<close> for \<^verbatim>\<open>pb.PubsubMessage\<close>, \<open>rm_\<close> for
    \<^verbatim>\<open>pb.ReceivedMessage\<close>, \<open>m_\<close> for \<^verbatim>\<open>message\<close>, \<open>M_\<close> for \<^verbatim>\<open>Message\<close>,
    \<open>t_\<close> for \<^verbatim>\<open>topic\<close>, \<open>sub_\<close> for \<^verbatim>\<open>subscription\<close>, \<open>st_\<close> for \<^verbatim>\<open>stream\<close>.
    The fields of \<^verbatim>\<open>GServer\<close> keep their names.
  \<^item> A Go pointer that may be nil is an \<open>option\<close>; reading a field through a nil
    pointer is the reply \<open>Panic\<close>.
  \<^item> A Go map is a partial function. A \<^verbatim>\<open>range\<close> over a map visits the keys in an
    order the runtime chooses anew each time: every loop over a map takes that order as
    an argument (a list of keys), and skips a key that is not in the map.
  \<^item> A clock reading is an argument of the operation that reads the clock.
\<close>

subsection \<open>Time\<close>

text \<open>
  \<^verbatim>\<open>time.Time\<close> is an instant, counted here in nanoseconds since Go's zero time
  (January 1, year 1, 00:00:00 UTC), so that \<^verbatim>\<open>IsZero\<close> is equality with 0.
  \<^verbatim>\<open>time.Duration\<close> is a count of nanoseconds; it is a 64-bit integer in Go, and the
  one operation of the source that can leave that range, \<^verbatim>\<open>Time.Sub\<close>, saturates.
\<close>

type_synonym time = int
type_synonym Duration = int
type_synonym int32 = "32 word"

definition Second :: Duration where
  "Second = 1000000000"

definition Minute :: Duration where
  "Minute = 60 * Second"

definition Hour :: Duration where
  "Hour = 60 * Minute"

definition maxDuration :: Duration where
  "maxDuration = 2 ^ 63 - 1"

definition minDuration :: Duration where
  "minDuration = - (2 ^ 63)"

definition IsZero :: "time \<Rightarrow> bool" where
  "IsZero t = (t = 0)"

definition Before :: "time \<Rightarrow> time \<Rightarrow> bool" where
  "Before t u = (t < u)"

definition After :: "time \<Rightarrow> time \<Rightarrow> bool" where
  "After t u = (u < t)"

definition Add :: "time \<Rightarrow> Duration \<Rightarrow> time" where
  "Add t d = t + d"

definition Sub :: "time \<Rightarrow> time \<Rightarrow> Duration" where
  "Sub t u = (if t - u > maxDuration then maxDuration
              else if t - u < minDuration then minDuration else t - u)"

text \<open>
  \<^verbatim>\<open>timestamppb.Timestamp.AsTime\<close> reads through nil-safe getters: a nil timestamp
  is the Unix epoch, 62135596800 seconds after the zero time.
\<close>

definition unixEpoch :: time where
  "unixEpoch = 62135596800 * Second"

definition AsTime :: "time option \<Rightarrow> time" where
  "AsTime ts = (case ts of None \<Rightarrow> unixEpoch | Some t \<Rightarrow> t)"

text \<open>\<^verbatim>\<open>durpb.Duration.AsDuration\<close>, nil-safe as well: a nil duration is 0.\<close>

definition AsDuration :: "Duration option \<Rightarrow> Duration" where
  "AsDuration pd = (case pd of None \<Rightarrow> 0 | Some d \<Rightarrow> d)"

definition secsToDur :: "int32 \<Rightarrow> Duration" where
  "secsToDur secs = sint secs * Second"

subsection \<open>Status codes\<close>

datatype code = InvalidArgument | AlreadyExists | NotFound | Unknown | Unimplemented | Canceled

text \<open>
  \<^verbatim>\<open>status.Errorf(c, format, args)\<close>: the code, the format string and the arguments.
\<close>

datatype status = Status code string "string list"

fun status_code :: "status \<Rightarrow> code" where
  "status_code (Status c f args) = c"

subsection \<open>Formatting a message identifier\<close>

text \<open>\<^verbatim>\<open>fmt.Sprintf("m%d", n)\<close>: the letter m and the decimal digits of \<open>n\<close>.\<close>

definition digit_char :: "nat \<Rightarrow> char" where
  "digit_char d = char_of (48 + d)"

fun digits :: "nat \<Rightarrow> string" where
  "digits n = (if n < 10 then [digit_char n] else digits (n div 10) @ [digit_char (n mod 10)])"

definition fmt_d :: "int \<Rightarrow> string" where
  "fmt_d i = (if i < 0 then CHR ''-'' # digits (nat (- i)) else digits (nat i))"

definition msgID :: "int \<Rightarrow> string" where
  "msgID n = CHR ''m'' # fmt_d n"

subsection \<open>Protocol messages\<close>

record PushConfig =
  pc_PushEndpoint :: string
  pc_Attributes :: "(string \<times> string) list"

definition emptyPushConfig :: PushConfig where
  "emptyPushConfig = \<lparr>pc_PushEndpoint = [], pc_Attributes = []\<rparr>"

type_synonym Labels = "(string \<times> string) list"
type_synonym MessageStoragePolicy = "string list"
type_synonym ExpirationPolicy = "Duration option"
type_synonym DeadLetterPolicy = "string \<times> int32"
type_synonym RetryPolicy = "Duration option \<times> Duration option"

record Topic_pb =
  tp_Name :: string
  tp_Labels :: Labels
  tp_MessageStoragePolicy :: "MessageStoragePolicy option"

record Subscription_pb =
  sp_Name :: string
  sp_Topic :: string
  sp_PushConfig :: "PushConfig option"
  sp_AckDeadlineSeconds :: int32
  sp_RetainAckedMessages :: bool
  sp_MessageRetentionDuration :: "Duration option"
  sp_Labels :: Labels
  sp_ExpirationPolicy :: "ExpirationPolicy option"
  sp_DeadLetterPolicy :: "DeadLetterPolicy option"
  sp_RetryPolicy :: "RetryPolicy option"
  sp_Filter :: string

record PubsubMessage =
  pm_Data :: string
  pm_Attributes :: "(string \<times> string) list"
  pm_MessageId :: string
  pm_PublishTime :: "time option"
  pm_OrderingKey :: string

record ReceivedMessage =
  rm_AckId :: string
  rm_Message :: "PubsubMessage option"

subsection \<open>Requests, responses and replies\<close>

record UpdateTopicRequest =
  ut_Topic :: "Topic_pb option"
  ut_UpdateMask :: "string list option"

record UpdateSubscriptionRequest =
  us_Subscription :: "Subscription_pb option"
  us_UpdateMask :: "string list option"

record PublishRequest =
  pr_Topic :: string
  pr_Messages :: "PubsubMessage list"

record AcknowledgeRequest =
  ar_Subscription :: string
  ar_AckIds :: "string list"

record ModifyAckDeadlineRequest =
  mr_Subscription :: string
  mr_AckIds :: "string list"
  mr_AckDeadlineSeconds :: int32

record PullRequest =
  pl_Subscription :: string
  pl_ReturnImmediately :: bool
  pl_MaxMessages :: int32

datatype SeekTarget = NoTarget | SeekRequest_Time "time option" | SeekRequest_Snapshot string

record SeekRequest =
  sk_Subscription :: string
  sk_Target :: SeekTarget

record StreamingPullRequest =
  sr_AckIds :: "string list"
  sr_ModifyDeadlineSeconds :: "int32 list"
  sr_ModifyDeadlineAckIds :: "string list"
  sr_StreamAckDeadlineSeconds :: int32

datatype request =
    CreateTopicReq Topic_pb
  | GetTopicReq string
  | UpdateTopicReq UpdateTopicRequest
  | DeleteTopicReq string
  | CreateSubscriptionReq Subscription_pb
  | GetSubscriptionReq string
  | UpdateSubscriptionReq UpdateSubscriptionRequest
  | DeleteSubscriptionReq string
  | DetachSubscriptionReq string
  | PublishReq PublishRequest
  | AcknowledgeReq AcknowledgeRequest
  | ModifyAckDeadlineReq ModifyAckDeadlineRequest
  | PullReq PullRequest
  | SeekReq SeekRequest

datatype response =
    TopicResponse Topic_pb
  | SubscriptionResponse Subscription_pb
  | Empty
  | DetachSubscriptionResponse
  | PublishResponse "string list"
  | PullResponse "ReceivedMessage list"
  | SeekResponse
  | Delivered "ReceivedMessage list"

text \<open>
  What a call gives back: a response, an error status, or a panic of the Go runtime
  (a nil dereference, an index out of range, a failed type assertion). Nothing is said
  about the state after a panic: a run stops there.
\<close>

datatype reply = OK response | Error status | Panic

subsection \<open>Reactors\<close>

text \<open>
  A \<^verbatim>\<open>Reactor\<close> is test-supplied code: \<^verbatim>\<open>React(req)\<close> gives \<^verbatim>\<open>handled\<close>, a return
  value (or nil) and an error (or nil).
\<close>

type_synonym Reactor = "request \<Rightarrow> bool \<times> response option \<times> status option"

definition errorInjectionReactor :: "code \<Rightarrow> string \<Rightarrow> Reactor" where
  "errorInjectionReactor c msg = (\<lambda>req. (True, None, Some (Status c msg [])))"

fun runReactors :: "Reactor list \<Rightarrow> request \<Rightarrow> response \<Rightarrow> bool \<times> response option \<times> status option" where
  "runReactors [] req defaultObj = (False, None, None)"
| "runReactors (reactor # rest) req defaultObj =
     (case reactor req of (handled, ret, err) \<Rightarrow>
        if handled \<or> err \<noteq> None
        then (True, (case ret of None \<Rightarrow> Some defaultObj | Some r \<Rightarrow> Some r), err)
        else runReactors rest req defaultObj)"

text \<open>
  The caller's \<^verbatim>\<open>return ret.(*pb.T), err\<close>: the type assertion panics unless the value
  the reactor gave has the response type of the call. An error, when there is one, is
  what the caller of the RPC sees.
\<close>

definition reacted :: "(response \<Rightarrow> bool) \<Rightarrow> response option \<Rightarrow> status option \<Rightarrow> reply" where
  "reacted isT ret err =
     (case ret of
        None \<Rightarrow> Panic
      | Some r \<Rightarrow> if isT r then (case err of None \<Rightarrow> OK r | Some e \<Rightarrow> Error e) else Panic)"

subsection \<open>The server state\<close>

text \<open>
  \<^verbatim>\<open>Message\<close>: a message as the server records it. Its exported fields
  \<^verbatim>\<open>Deliveries\<close>, \<^verbatim>\<open>Acks\<close> and \<^verbatim>\<open>Modacks\<close> are copies that \<^verbatim>\<open>Server.Messages\<close> fills
  for its caller; they are left out.
\<close>

record Modack =
  ma_ReceivedAt :: time
  ma_AckID :: string
  ma_AckDeadline :: int32

record Message =
  M_PublishTime :: time
  M_Attributes :: "(string \<times> string) list"
  M_ID :: string
  M_OrderingKey :: string
  M_modacks :: "Modack list"
  M_Data :: string
  M_deliveries :: int
  M_acks :: int

text \<open>
  \<^verbatim>\<open>message\<close>: a pending message of one subscription. Its fields \<^verbatim>\<open>deliveries\<close> and
  \<^verbatim>\<open>acks\<close> are pointers into a \<^verbatim>\<open>Message\<close>: here, the address of that \<^verbatim>\<open>Message\<close>
  in the store \<open>heap\<close> of the server state.
\<close>

type_synonym addr = nat

record message =
  m_proto :: ReceivedMessage
  m_publishTime :: time
  m_ackDeadline :: time
  m_deliveries :: addr
  m_acks :: addr
  m_streamIndex :: int

text \<open>
  \<^verbatim>\<open>stream\<close>: \<open>st_addr\<close> is the identity of the stream object (\<^verbatim>\<open>deleteStream\<close> compares
  pointers), \<open>st_done\<close> says that the channel \<^verbatim>\<open>done\<close> is closed. The unbuffered channel
  \<^verbatim>\<open>msgc\<close> holds no data: whether a send on it succeeds depends on the receiving goroutine
  and is an argument of \<open>tryDeliverMessage\<close>.
\<close>

record stream =
  st_addr :: addr
  st_done :: bool
  st_ackTimeout :: Duration
  st_timeout :: Duration

text \<open>
  \<^verbatim>\<open>subscription\<close> and \<^verbatim>\<open>topic\<close>. The two point at each other in the source: a
  subscription at its topic, a topic at its attached subscriptions (by name). Here a
  subscription object is the entry of \<open>subs\<close> under its name, and a topic's \<open>t_subs\<close>
  is the set of names of its attached subscriptions: the source adds a subscription to
  \<^verbatim>\<open>s.subs\<close> and to its topic's map together, under the same name, and
  \<^verbatim>\<open>DeleteSubscription\<close> removes it from both. \<open>sub_topic\<close> is the name of the topic
  object the subscription points at.
\<close>

record subscription =
  sub_topic :: string
  sub_proto :: Subscription_pb
  sub_msgs :: "string \<rightharpoonup> message"
  sub_done :: bool
  sub_streams :: "stream list"
  sub_ackTimeout :: Duration

record topic =
  t_proto :: Topic_pb
  t_subs :: "string set"

text \<open>
  \<^verbatim>\<open>GServer\<close>. \<^verbatim>\<open>msgs\<close> and \<^verbatim>\<open>msgsByID\<close> hold pointers to \<^verbatim>\<open>Message\<close> objects:
  addresses in \<open>heap\<close>; \<open>nextAddr\<close> is the next address the allocator hands out.
  \<^verbatim>\<open>nextID\<close> is a Go \<^verbatim>\<open>int\<close>, a signed integer of 64 bits: it starts at 0, grows
  by one for each published message, and wraps from \<open>2\<^sup>6\<^sup>3 - 1\<close> to \<open>- 2\<^sup>6\<^sup>3\<close>.
  \<open>minAckDeadlineSecs\<close> is the package variable of that name.
\<close>

record GServer =
  topics :: "string \<rightharpoonup> topic"
  subs :: "string \<rightharpoonup> subscription"
  reactorOptions :: "string \<Rightarrow> Reactor list"
  msgsByID :: "string \<rightharpoonup> addr"
  msgs :: "addr list"
  nextID :: "64 word"
  streamTimeout :: Duration
  heap :: "addr \<Rightarrow> Message"
  nextAddr :: addr
  minAckDeadlineSecs :: int32

definition emptyMessage :: Message where
  "emptyMessage = \<lparr>M_PublishTime = 0, M_Attributes = [], M_ID = [], M_OrderingKey = [],
     M_modacks = [], M_Data = [], M_deliveries = 0, M_acks = 0\<rparr>"

text \<open>\<^verbatim>\<open>NewServer(opts...)\<close>, after \<^verbatim>\<open>init\<close> has set the minimum ack deadline to 10.\<close>

fun addReactors :: "(string \<times> Reactor) list \<Rightarrow> (string \<Rightarrow> Reactor list) \<Rightarrow> (string \<Rightarrow> Reactor list)" where
  "addReactors [] ro = ro"
| "addReactors ((funcName, r) # opts) ro = addReactors opts (ro(funcName := ro funcName @ [r]))"

definition NewServer :: "(string \<times> Reactor) list \<Rightarrow> GServer" where
  "NewServer opts = \<lparr>topics = Map.empty, subs = Map.empty,
     reactorOptions = addReactors opts (\<lambda>funcName. []),
     msgsByID = Map.empty, msgs = [], nextID = 0, streamTimeout = 0,
     heap = (\<lambda>a. emptyMessage), nextAddr = 0, minAckDeadlineSecs = 10\<rparr>"

definition runReactor :: "GServer \<Rightarrow> request \<Rightarrow> string \<Rightarrow> response \<Rightarrow> bool \<times> response option \<times> status option" where
  "runReactor s req funcName defaultObj = runReactors (reactorOptions s funcName) req defaultObj"

subsection \<open>Topics\<close>

definition is_TopicResponse :: "response \<Rightarrow> bool" where
  "is_TopicResponse r = (case r of TopicResponse t \<Rightarrow> True | _ \<Rightarrow> False)"

definition is_SubscriptionResponse :: "response \<Rightarrow> bool" where
  "is_SubscriptionResponse r = (case r of SubscriptionResponse t \<Rightarrow> True | _ \<Rightarrow> False)"

definition is_Empty :: "response \<Rightarrow> bool" where
  "is_Empty r = (case r of Empty \<Rightarrow> True | _ \<Rightarrow> False)"

definition is_DetachSubscriptionResponse :: "response \<Rightarrow> bool" where
  "is_DetachSubscriptionResponse r = (case r of DetachSubscriptionResponse \<Rightarrow> True | _ \<Rightarrow> False)"

definition is_PublishResponse :: "response \<Rightarrow> bool" where
  "is_PublishResponse r = (case r of PublishResponse ids \<Rightarrow> True | _ \<Rightarrow> False)"

definition is_PullResponse :: "response \<Rightarrow> bool" where
  "is_PullResponse r = (case r of PullResponse ms \<Rightarrow> True | _ \<Rightarrow> False)"

definition is_SeekResponse :: "response \<Rightarrow> bool" where
  "is_SeekResponse r = (case r of SeekResponse \<Rightarrow> True | _ \<Rightarrow> False)"

definition emptyTopic_pb :: Topic_pb where
  "emptyTopic_pb = \<lparr>tp_Name = [], tp_Labels = [], tp_MessageStoragePolicy = None\<rparr>"

definition emptySubscription_pb :: Subscription_pb where
  "emptySubscription_pb = \<lparr>sp_Name = [], sp_Topic = [], sp_PushConfig = None,
     sp_AckDeadlineSeconds = 0, sp_RetainAckedMessages = False,
     sp_MessageRetentionDuration = None, sp_Labels = [], sp_ExpirationPolicy = None,
     sp_DeadLetterPolicy = None, sp_RetryPolicy = None, sp_Filter = []\<rparr>"

definition newTopic :: "Topic_pb \<Rightarrow> topic" where
  "newTopic pt = \<lparr>t_proto = pt, t_subs = {}\<rparr>"

definition CreateTopic :: "GServer \<Rightarrow> Topic_pb \<Rightarrow> reply \<times> GServer" where
  "CreateTopic s t =
     (case runReactor s (CreateTopicReq t) ''CreateTopic'' (TopicResponse emptyTopic_pb) of
        (handled, ret, err) \<Rightarrow>
          if handled \<or> err \<noteq> None then (reacted is_TopicResponse ret err, s)
          else if topics s (tp_Name t) \<noteq> None
          then (Error (Status AlreadyExists ''topic %q'' [tp_Name t]), s)
          else (OK (TopicResponse t), s\<lparr>topics := (topics s)(tp_Name t \<mapsto> newTopic t)\<rparr>))"

definition GetTopic :: "GServer \<Rightarrow> string \<Rightarrow> reply \<times> GServer" where
  "GetTopic s name =
     (case runReactor s (GetTopicReq name) ''GetTopic'' (TopicResponse emptyTopic_pb) of
        (handled, ret, err) \<Rightarrow>
          if handled \<or> err \<noteq> None then (reacted is_TopicResponse ret err, s)
          else (case topics s name of
                  Some t \<Rightarrow> (OK (TopicResponse (t_proto t)), s)
                | None \<Rightarrow> (Error (Status NotFound ''topic %q'' [name]), s)))"

text \<open>
  The \<^verbatim>\<open>switch\<close> in the loop of \<^verbatim>\<open>UpdateTopic\<close>: one path of the mask applied to
  the stored topic \<open>p\<close>, from the topic \<open>rt\<close> of the request.
\<close>

definition updateTopicPath :: "Topic_pb \<Rightarrow> string \<Rightarrow> Topic_pb \<Rightarrow> status + Topic_pb" where
  "updateTopicPath rt maskPath p =
     (if maskPath = ''labels'' then Inr (p\<lparr>tp_Labels := tp_Labels rt\<rparr>)
      else if maskPath = ''message_storage_policy''
      then Inr (p\<lparr>tp_MessageStoragePolicy := tp_MessageStoragePolicy rt\<rparr>)
      else Inl (Status InvalidArgument ''unknown field name %q'' [maskPath]))"

text \<open>
  The loop of \<^verbatim>\<open>UpdateTopic\<close> over the paths of the mask. It writes into the stored
  topic as it goes, and returns at the first path it does not know: the result is the
  error, if any, and the topic as the loop left it.
\<close>

fun updateTopicPaths :: "Topic_pb \<Rightarrow> string list \<Rightarrow> Topic_pb \<Rightarrow> status option \<times> Topic_pb" where
  "updateTopicPaths rt [] p = (None, p)"
| "updateTopicPaths rt (maskPath # rest) p =
     (case updateTopicPath rt maskPath p of
        Inl e \<Rightarrow> (Some e, p)
      | Inr p' \<Rightarrow> updateTopicPaths rt rest p')"

definition UpdateTopic :: "GServer \<Rightarrow> UpdateTopicRequest \<Rightarrow> reply \<times> GServer" where
  "UpdateTopic s req =
     (case runReactor s (UpdateTopicReq req) ''UpdateTopic'' (TopicResponse emptyTopic_pb) of
        (handled, ret, err) \<Rightarrow>
          if handled \<or> err \<noteq> None then (reacted is_TopicResponse ret err, s)
          else (case ut_Topic req of
                  None \<Rightarrow> (Panic, s)
                | Some rt \<Rightarrow>
                   (case topics s (tp_Name rt) of
                      None \<Rightarrow> (Error (Status NotFound ''topic %q'' [tp_Name rt]), s)
                    | Some t \<Rightarrow>
                       (case ut_UpdateMask req of
                          None \<Rightarrow> (Panic, s)
                        | Some paths \<Rightarrow>
                           (case updateTopicPaths rt paths (t_proto t) of
                              (e, p) \<Rightarrow>
                                ((case e of Some st \<Rightarrow> Error st | None \<Rightarrow> OK (TopicResponse p)),
                                 s\<lparr>topics := (topics s)(tp_Name rt \<mapsto> t\<lparr>t_proto := p\<rparr>)\<rparr>))))))"

text \<open>\<^verbatim>\<open>topic.stop\<close>: every attached subscription is told that its topic is gone.\<close>

definition topic_stop :: "topic \<Rightarrow> (string \<rightharpoonup> subscription) \<Rightarrow> (string \<rightharpoonup> subscription)" where
  "topic_stop t ss =
     (\<lambda>n. if n \<in> t_subs t
          then map_option (\<lambda>sub. sub\<lparr>sub_proto := (sub_proto sub)\<lparr>sp_Topic := ''_deleted-topic_''\<rparr>\<rparr>) (ss n)
          else ss n)"

definition DeleteTopic :: "GServer \<Rightarrow> string \<Rightarrow> reply \<times> GServer" where
  "DeleteTopic s name =
     (case runReactor s (DeleteTopicReq name) ''DeleteTopic'' Empty of
        (handled, ret, err) \<Rightarrow>
          if handled \<or> err \<noteq> None then (reacted is_Empty ret err, s)
          else (case topics s name of
                  None \<Rightarrow> (Error (Status NotFound ''topic %q'' [name]), s)
                | Some t \<Rightarrow>
                    (OK Empty, s\<lparr>subs := topic_stop t (subs s), topics := (topics s)(name := None)\<rparr>)))"

text \<open>\<^verbatim>\<open>topic.deleteSub\<close>, on the topic object that the subscription points at.\<close>

definition deleteSub :: "subscription \<Rightarrow> (string \<rightharpoonup> topic) \<Rightarrow> (string \<rightharpoonup> topic)" where
  "deleteSub sub ts =
     (case ts (sub_topic sub) of
        None \<Rightarrow> ts
      | Some t \<Rightarrow> ts(sub_topic sub \<mapsto> t\<lparr>t_subs := t_subs t - {sp_Name (sub_proto sub)}\<rparr>))"

subsection \<open>Subscriptions: create, update, delete\<close>

definition checkAckDeadline :: "int32 \<Rightarrow> int32 \<Rightarrow> status option" where
  "checkAckDeadline minSecs ads =
     (if ads <s minSecs \<or> 600 <s ads
      then Some (Status Unknown ''bad ack_deadline_seconds: %d'' [fmt_d (sint ads)])
      else None)"

definition minMessageRetentionDuration :: Duration where
  "minMessageRetentionDuration = 10 * Minute"

definition maxMessageRetentionDuration :: Duration where
  "maxMessageRetentionDuration = 168 * Hour"

definition defaultMessageRetentionDuration :: "Duration option" where
  "defaultMessageRetentionDuration = Some maxMessageRetentionDuration"

definition checkMRD :: "Duration option \<Rightarrow> status option" where
  "checkMRD pmrd =
     (let mrd = AsDuration pmrd in
      if mrd < minMessageRetentionDuration \<or> mrd > maxMessageRetentionDuration
      then Some (Status InvalidArgument ''bad message_retention_duration %+v'' [])
      else None)"

definition findSubscription :: "GServer \<Rightarrow> string \<Rightarrow> status + subscription" where
  "findSubscription s name =
     (if name = [] then Inl (Status InvalidArgument ''missing subscription'' [])
      else (case subs s name of
              None \<Rightarrow> Inl (Status NotFound ''subscription %s'' [name])
            | Some sub \<Rightarrow> Inr sub))"

definition newSubscription :: "string \<Rightarrow> Subscription_pb \<Rightarrow> subscription" where
  "newSubscription t ps =
     (let at = sint (sp_AckDeadlineSeconds ps) * Second in
      \<lparr>sub_topic = t, sub_proto = ps, sub_msgs = Map.empty, sub_done = False,
       sub_streams = [], sub_ackTimeout = (if at = 0 then 10 * Second else at)\<rparr>)"

definition CreateSubscription :: "GServer \<Rightarrow> Subscription_pb \<Rightarrow> reply \<times> GServer" where
  "CreateSubscription s ps =
     (case runReactor s (CreateSubscriptionReq ps) ''CreateSubscription''
             (SubscriptionResponse emptySubscription_pb) of
        (handled, ret, err) \<Rightarrow>
          if handled \<or> err \<noteq> None then (reacted is_SubscriptionResponse ret err, s)
          else if sp_Name ps = [] then (Error (Status InvalidArgument ''missing name'' []), s)
          else if subs s (sp_Name ps) \<noteq> None
          then (Error (Status AlreadyExists ''subscription %q'' [sp_Name ps]), s)
          else if sp_Topic ps = [] then (Error (Status InvalidArgument ''missing topic'' []), s)
          else (case topics s (sp_Topic ps) of
                  None \<Rightarrow> (Error (Status NotFound ''topic %q'' [sp_Topic ps]), s)
                | Some top' \<Rightarrow>
                   (case checkAckDeadline (minAckDeadlineSecs s) (sp_AckDeadlineSeconds ps) of
                      Some e \<Rightarrow> (Error e, s)
                    | None \<Rightarrow>
                       (let ps1 = (if sp_MessageRetentionDuration ps = None
                                   then ps\<lparr>sp_MessageRetentionDuration := defaultMessageRetentionDuration\<rparr>
                                   else ps)
                        in case checkMRD (sp_MessageRetentionDuration ps1) of
                             Some e \<Rightarrow> (Error e, s)
                           | None \<Rightarrow>
                              (let ps2 = (if sp_PushConfig ps1 = None
                                          then ps1\<lparr>sp_PushConfig := Some emptyPushConfig\<rparr>
                                          else ps1);
                                   sub = newSubscription (sp_Topic ps) ps2
                               in (OK (SubscriptionResponse ps2),
                                   s\<lparr>topics := (topics s)(sp_Topic ps \<mapsto>
                                                   top'\<lparr>t_subs := insert (sp_Name ps) (t_subs top')\<rparr>),
                                     subs := (subs s)(sp_Name ps \<mapsto> sub)\<rparr>))))))"

definition GetSubscription :: "GServer \<Rightarrow> string \<Rightarrow> reply \<times> GServer" where
  "GetSubscription s name =
     (case runReactor s (GetSubscriptionReq name) ''GetSubscription''
             (SubscriptionResponse emptySubscription_pb) of
        (handled, ret, err) \<Rightarrow>
          if handled \<or> err \<noteq> None then (reacted is_SubscriptionResponse ret err, s)
          else (case findSubscription s name of
                  Inl e \<Rightarrow> (Error e, s)
                | Inr sub \<Rightarrow> (OK (SubscriptionResponse (sub_proto sub)), s)))"

text \<open>
  The \<^verbatim>\<open>switch\<close> in the loop of \<^verbatim>\<open>UpdateSubscription\<close>: one path of the mask
  applied to the stored subscription \<open>p\<close>, from the subscription \<open>rs\<close> of the request.
\<close>

definition updateSubscriptionPath ::
  "int32 \<Rightarrow> Subscription_pb \<Rightarrow> string \<Rightarrow> Subscription_pb \<Rightarrow> status + Subscription_pb" where
  "updateSubscriptionPath minSecs rs maskPath p =
     (if maskPath = ''push_config'' then Inr (p\<lparr>sp_PushConfig := sp_PushConfig rs\<rparr>)
      else if maskPath = ''ack_deadline_seconds''
      then (case checkAckDeadline minSecs (sp_AckDeadlineSeconds rs) of
              Some e \<Rightarrow> Inl e
            | None \<Rightarrow> Inr (p\<lparr>sp_AckDeadlineSeconds := sp_AckDeadlineSeconds rs\<rparr>))
      else if maskPath = ''retain_acked_messages''
      then Inr (p\<lparr>sp_RetainAckedMessages := sp_RetainAckedMessages rs\<rparr>)
      else if maskPath = ''message_retention_duration''
      then (case checkMRD (sp_MessageRetentionDuration rs) of
              Some e \<Rightarrow> Inl e
            | None \<Rightarrow> Inr (p\<lparr>sp_MessageRetentionDuration := sp_MessageRetentionDuration rs\<rparr>))
      else if maskPath = ''labels'' then Inr (p\<lparr>sp_Labels := sp_Labels rs\<rparr>)
      else if maskPath = ''expiration_policy''
      then Inr (p\<lparr>sp_ExpirationPolicy := sp_ExpirationPolicy rs\<rparr>)
      else if maskPath = ''dead_letter_policy''
      then Inr (p\<lparr>sp_DeadLetterPolicy := sp_DeadLetterPolicy rs\<rparr>)
      else if maskPath = ''retry_policy'' then Inr (p\<lparr>sp_RetryPolicy := sp_RetryPolicy rs\<rparr>)
      else if maskPath = ''filter'' then Inr (p\<lparr>sp_Filter := sp_Filter rs\<rparr>)
      else Inl (Status InvalidArgument ''unknown field name %q'' [maskPath]))"

text \<open>
  The loop of \<^verbatim>\<open>UpdateSubscription\<close> over the paths of the mask, with the same shape
  as the loop of \<^verbatim>\<open>UpdateTopic\<close>: it writes into the stored subscription as it goes
  and returns at the first path that fails.
\<close>

fun updateSubscriptionPaths ::
  "int32 \<Rightarrow> Subscription_pb \<Rightarrow> string list \<Rightarrow> Subscription_pb \<Rightarrow> status option \<times> Subscription_pb" where
  "updateSubscriptionPaths minSecs rs [] p = (None, p)"
| "updateSubscriptionPaths minSecs rs (maskPath # rest) p =
     (case updateSubscriptionPath minSecs rs maskPath p of
        Inl e \<Rightarrow> (Some e, p)
      | Inr p' \<Rightarrow> updateSubscriptionPaths minSecs rs rest p')"

definition UpdateSubscription :: "GServer \<Rightarrow> UpdateSubscriptionRequest \<Rightarrow> reply \<times> GServer" where
  "UpdateSubscription s req =
     (case us_Subscription req of
        None \<Rightarrow> (Error (Status InvalidArgument ''missing subscription'' []), s)
      | Some rs \<Rightarrow>
         (case runReactor s (UpdateSubscriptionReq req) ''UpdateSubscription''
                 (SubscriptionResponse emptySubscription_pb) of
            (handled, ret, err) \<Rightarrow>
              if handled \<or> err \<noteq> None then (reacted is_SubscriptionResponse ret err, s)
              else (case findSubscription s (sp_Name rs) of
                      Inl e \<Rightarrow> (Error e, s)
                    | Inr sub \<Rightarrow>
                       (case us_UpdateMask req of
                          None \<Rightarrow> (Panic, s)
                        | Some paths \<Rightarrow>
                           (case updateSubscriptionPaths (minAckDeadlineSecs s) rs paths (sub_proto sub) of
                              (e, p) \<Rightarrow>
                                ((case e of Some st \<Rightarrow> Error st | None \<Rightarrow> OK (SubscriptionResponse p)),
                                 s\<lparr>subs := (subs s)(sp_Name rs \<mapsto> sub\<lparr>sub_proto := p\<rparr>)\<rparr>))))))"

definition DeleteSubscription :: "GServer \<Rightarrow> string \<Rightarrow> reply \<times> GServer" where
  "DeleteSubscription s name =
     (case runReactor s (DeleteSubscriptionReq name) ''DeleteSubscription'' Empty of
        (handled, ret, err) \<Rightarrow>
          if handled \<or> err \<noteq> None then (reacted is_Empty ret err, s)
          else (case findSubscription s name of
                  Inl e \<Rightarrow> (Error e, s)
                | Inr sub \<Rightarrow>
                    (OK Empty, s\<lparr>subs := (subs s)(name := None), topics := deleteSub sub (topics s)\<rparr>)))"

definition DetachSubscription :: "GServer \<Rightarrow> string \<Rightarrow> reply \<times> GServer" where
  "DetachSubscription s name =
     (case runReactor s (DetachSubscriptionReq name) ''DetachSubscription''
             DetachSubscriptionResponse of
        (handled, ret, err) \<Rightarrow>
          if handled \<or> err \<noteq> None then (reacted is_DetachSubscriptionResponse ret err, s)
          else (case findSubscription s name of
                  Inl e \<Rightarrow> (Error e, s)
                | Inr sub \<Rightarrow> (OK DetachSubscriptionResponse, s\<lparr>topics := deleteSub sub (topics s)\<rparr>)))"

subsection \<open>Publish\<close>

text \<open>
  The pending entry that \<^verbatim>\<open>topic.publish(pm, m)\<close> builds, with \<open>a\<close> the address of
  \<open>m\<close>: its \<^verbatim>\<open>proto.Message\<close> is \<open>pm\<close>.
\<close>

definition publishedMessage :: "PubsubMessage \<Rightarrow> Message \<Rightarrow> addr \<Rightarrow> message" where
  "publishedMessage pm m a =
     \<lparr>m_proto = \<lparr>rm_AckId = pm_MessageId pm, rm_Message = Some pm\<rparr>,
      m_publishTime = M_PublishTime m, m_ackDeadline = 0,
      m_deliveries = a, m_acks = a, m_streamIndex = - 1\<rparr>"

text \<open>
  \<^verbatim>\<open>topic.publish(pm, m)\<close>: every attached subscription gets that entry under the
  message identifier.
\<close>

definition topic_publish ::
  "topic \<Rightarrow> PubsubMessage \<Rightarrow> Message \<Rightarrow> addr \<Rightarrow> (string \<rightharpoonup> subscription) \<Rightarrow> (string \<rightharpoonup> subscription)" where
  "topic_publish t pm m a ss =
     (\<lambda>n. if n \<in> t_subs t
          then map_option (\<lambda>sub. sub\<lparr>sub_msgs := (sub_msgs sub)(pm_MessageId pm \<mapsto>
                  publishedMessage pm m a)\<rparr>) (ss n)
          else ss n)"

text \<open>
  The body of the loop of \<^verbatim>\<open>Publish\<close>, for the message \<open>pm\<close> of the request;
  \<open>pubTime\<close> is what \<^verbatim>\<open>s.timeNowFunc()\<close> gives. The result is the identifier and the
  state.
\<close>

definition publishOne :: "topic \<Rightarrow> time \<Rightarrow> PubsubMessage \<Rightarrow> GServer \<Rightarrow> string \<times> GServer" where
  "publishOne t pubTime pm s =
     (let mid = msgID (sint (nextID s));
          pm1 = pm\<lparr>pm_MessageId := mid, pm_PublishTime := Some pubTime\<rparr>;
          m = \<lparr>M_PublishTime = pubTime, M_Attributes = pm_Attributes pm, M_ID = mid,
               M_OrderingKey = pm_OrderingKey pm, M_modacks = [], M_Data = pm_Data pm,
               M_deliveries = 0, M_acks = 0\<rparr>;
          a = nextAddr s
      in (mid,
          s\<lparr>nextID := nextID s + 1, heap := (heap s)(a := m), nextAddr := a + 1,
            subs := topic_publish t pm1 m a (subs s),
            msgs := msgs s @ [a], msgsByID := (msgsByID s)(mid \<mapsto> a)\<rparr>))"

text \<open>
  The loop of \<^verbatim>\<open>Publish\<close> over the messages of the request; \<open>clock i\<close> is what
  \<^verbatim>\<open>s.timeNowFunc()\<close> gives for the message at index \<open>i\<close>.
\<close>

fun publishMessages ::
  "topic \<Rightarrow> (nat \<Rightarrow> time) \<Rightarrow> nat \<Rightarrow> PubsubMessage list \<Rightarrow> GServer \<Rightarrow> string list \<times> GServer" where
  "publishMessages t clock i [] s = ([], s)"
| "publishMessages t clock i (pm # rest) s =
     (case publishOne t (clock i) pm s of
        (mid, s1) \<Rightarrow>
          (case publishMessages t clock (i + 1) rest s1 of (ids, s2) \<Rightarrow> (mid # ids, s2)))"

definition Publish :: "GServer \<Rightarrow> PublishRequest \<Rightarrow> (nat \<Rightarrow> time) \<Rightarrow> reply \<times> GServer" where
  "Publish s req clock =
     (case runReactor s (PublishReq req) ''Publish'' (PublishResponse []) of
        (handled, ret, err) \<Rightarrow>
          if handled \<or> err \<noteq> None then (reacted is_PublishResponse ret err, s)
          else if pr_Topic req = [] then (Error (Status InvalidArgument ''missing topic'' []), s)
          else (case topics s (pr_Topic req) of
                  None \<Rightarrow> (Error (Status NotFound ''topic %q'' [pr_Topic req]), s)
                | Some t \<Rightarrow>
                   (case publishMessages t clock 0 (pr_Messages req) s of
                      (ids, s') \<Rightarrow> (OK (PublishResponse ids), s'))))"

subsection \<open>Pending messages: leases, acknowledgement, maintenance\<close>

definition outstanding :: "message \<Rightarrow> bool" where
  "outstanding m = (\<not> IsZero (m_ackDeadline m))"

definition makeAvailable :: "message \<Rightarrow> message" where
  "makeAvailable m = m\<lparr>m_ackDeadline := 0\<rparr>"

definition incr_acks :: "addr \<Rightarrow> (addr \<Rightarrow> Message) \<Rightarrow> (addr \<Rightarrow> Message)" where
  "incr_acks a h = h(a := (h a)\<lparr>M_acks := M_acks (h a) + 1\<rparr>)"

definition incr_deliveries :: "addr \<Rightarrow> (addr \<Rightarrow> Message) \<Rightarrow> (addr \<Rightarrow> Message)" where
  "incr_deliveries a h = h(a := (h a)\<lparr>M_deliveries := M_deliveries (h a) + 1\<rparr>)"

text \<open>\<^verbatim>\<open>subscription.ack\<close>, on the subscription and the store of \<^verbatim>\<open>Message\<close> objects.\<close>

definition ack :: "string \<Rightarrow> subscription \<times> (addr \<Rightarrow> Message) \<Rightarrow> subscription \<times> (addr \<Rightarrow> Message)" where
  "ack mid sh =
     (case sh of (sub, h) \<Rightarrow>
        (case sub_msgs sub mid of
           None \<Rightarrow> (sub, h)
         | Some m \<Rightarrow> (sub\<lparr>sub_msgs := (sub_msgs sub)(mid := None)\<rparr>, incr_acks (m_acks m) h)))"

text \<open>
  \<^verbatim>\<open>subscription.modifyAckDeadline\<close>; \<open>now\<close> is what \<^verbatim>\<open>s.timeNowFunc()\<close> gives in
  the branch that reads it.
\<close>

definition modifyAckDeadline :: "subscription \<Rightarrow> string \<Rightarrow> Duration \<Rightarrow> time \<Rightarrow> subscription" where
  "modifyAckDeadline sub mid d now =
     (case sub_msgs sub mid of
        None \<Rightarrow> sub
      | Some m \<Rightarrow>
          if d = 0 then sub\<lparr>sub_msgs := (sub_msgs sub)(mid \<mapsto> makeAvailable m)\<rparr>
          else sub\<lparr>sub_msgs := (sub_msgs sub)(mid \<mapsto> m\<lparr>m_ackDeadline := Add now d\<rparr>)\<rparr>)"

definition retentionDuration :: Duration where
  "retentionDuration = 10 * Minute"

text \<open>
  \<^verbatim>\<open>subscription.maintainMessages(now)\<close>, visiting the keys in the order \<open>ids\<close>. The
  publish time is read as \<^verbatim>\<open>m.proto.Message.PublishTime.AsTime()\<close>: when
  \<^verbatim>\<open>m.proto.Message\<close> is nil, the field access panics, and the result is \<open>None\<close>.
\<close>

fun maintainMessages :: "time \<Rightarrow> string list \<Rightarrow> (string \<rightharpoonup> message) \<Rightarrow> (string \<rightharpoonup> message) option" where
  "maintainMessages now [] ms = Some ms"
| "maintainMessages now (mid # ids) ms =
     (case ms mid of
        None \<Rightarrow> maintainMessages now ids ms
      | Some m \<Rightarrow>
         (let m1 = (if outstanding m \<and> After now (m_ackDeadline m) then makeAvailable m else m)
          in case rm_Message (m_proto m1) of
               None \<Rightarrow> None
             | Some pm \<Rightarrow>
                (let pubTime = AsTime (pm_PublishTime pm)
                 in if \<not> outstanding m1 \<and> Sub now pubTime > retentionDuration
                    then maintainMessages now ids (ms(mid := None))
                    else maintainMessages now ids (ms(mid \<mapsto> m1)))))"

subsection \<open>Acknowledge and ModifyAckDeadline\<close>

definition Acknowledge :: "GServer \<Rightarrow> AcknowledgeRequest \<Rightarrow> reply \<times> GServer" where
  "Acknowledge s req =
     (case runReactor s (AcknowledgeReq req) ''Acknowledge'' Empty of
        (handled, ret, err) \<Rightarrow>
          if handled \<or> err \<noteq> None then (reacted is_Empty ret err, s)
          else (case findSubscription s (ar_Subscription req) of
                  Inl e \<Rightarrow> (Error e, s)
                | Inr sub \<Rightarrow>
                   (case fold ack (ar_AckIds req) (sub, heap s) of
                      (sub', h') \<Rightarrow>
                        (OK Empty, s\<lparr>subs := (subs s)(ar_Subscription req \<mapsto> sub'), heap := h'\<rparr>))))"

text \<open>
  The first loop of \<^verbatim>\<open>ModifyAckDeadline\<close> appends to
  \<^verbatim>\<open>s.msgsByID[mid].modacks\<close>. A key that \<^verbatim>\<open>msgsByID\<close> does not hold gives a nil
  \<^verbatim>\<open>*Message\<close>, and reading its field panics: the result is \<open>None\<close>.
\<close>

fun recordModacks ::
  "time \<Rightarrow> int32 \<Rightarrow> string list \<Rightarrow> (string \<rightharpoonup> addr) \<Rightarrow> (addr \<Rightarrow> Message) \<Rightarrow> (addr \<Rightarrow> Message) option" where
  "recordModacks now ads [] byID h = Some h"
| "recordModacks now ads (mid # ids) byID h =
     (case byID mid of
        None \<Rightarrow> None
      | Some a \<Rightarrow>
          recordModacks now ads ids byID
            (h(a := (h a)\<lparr>M_modacks := M_modacks (h a) @
                 [\<lparr>ma_ReceivedAt = now, ma_AckID = mid, ma_AckDeadline = ads\<rparr>]\<rparr>)))"

text \<open>
  The second loop; \<open>clock i\<close> is what \<^verbatim>\<open>s.timeNowFunc()\<close> gives while the id at index
  \<open>i\<close> of the request is handled.
\<close>

fun modifyAckDeadlines ::
  "Duration \<Rightarrow> (nat \<Rightarrow> time) \<Rightarrow> nat \<Rightarrow> string list \<Rightarrow> subscription \<Rightarrow> subscription" where
  "modifyAckDeadlines d clock i [] sub = sub"
| "modifyAckDeadlines d clock i (mid # ids) sub =
     modifyAckDeadlines d clock (i + 1) ids (modifyAckDeadline sub mid d (clock i))"

text \<open>
  \<^verbatim>\<open>GServer.ModifyAckDeadline\<close>; \<open>wall\<close> is \<^verbatim>\<open>time.Now()\<close>, which stamps the
  \<^verbatim>\<open>Modack\<close> records.
\<close>

definition ModifyAckDeadline ::
  "GServer \<Rightarrow> ModifyAckDeadlineRequest \<Rightarrow> time \<Rightarrow> (nat \<Rightarrow> time) \<Rightarrow> reply \<times> GServer" where
  "ModifyAckDeadline s req wall clock =
     (case runReactor s (ModifyAckDeadlineReq req) ''ModifyAckDeadline'' Empty of
        (handled, ret, err) \<Rightarrow>
          if handled \<or> err \<noteq> None then (reacted is_Empty ret err, s)
          else (case findSubscription s (mr_Subscription req) of
                  Inl e \<Rightarrow> (Error e, s)
                | Inr sub \<Rightarrow>
                   (case recordModacks wall (mr_AckDeadlineSeconds req) (mr_AckIds req)
                           (msgsByID s) (heap s) of
                      None \<Rightarrow> (Panic, s)
                    | Some h' \<Rightarrow>
                       (let dur = secsToDur (mr_AckDeadlineSeconds req);
                            sub' = modifyAckDeadlines dur clock 0 (mr_AckIds req) sub
                        in (OK Empty,
                            s\<lparr>subs := (subs s)(mr_Subscription req \<mapsto> sub'), heap := h'\<rparr>)))))"

subsection \<open>Pull\<close>

text \<open>
  The loop of \<^verbatim>\<open>subscription.pull\<close> over the pending messages, in the order \<open>ids\<close>;
  \<open>at\<close> is the subscription's \<^verbatim>\<open>ackTimeout\<close>, \<open>acc\<close> the messages collected so far.
\<close>

fun pullMessages ::
  "time \<Rightarrow> Duration \<Rightarrow> int \<Rightarrow> string list \<Rightarrow> (string \<rightharpoonup> message) \<Rightarrow> (addr \<Rightarrow> Message) \<Rightarrow>
   ReceivedMessage list \<Rightarrow> (string \<rightharpoonup> message) \<times> (addr \<Rightarrow> Message) \<times> ReceivedMessage list" where
  "pullMessages now at mx [] ms h acc = (ms, h, acc)"
| "pullMessages now at mx (mid # ids) ms h acc =
     (case ms mid of
        None \<Rightarrow> pullMessages now at mx ids ms h acc
      | Some m \<Rightarrow>
          if outstanding m then pullMessages now at mx ids ms h acc
          else (let h1 = incr_deliveries (m_deliveries m) h;
                    m1 = m\<lparr>m_ackDeadline := Add now at\<rparr>;
                    acc1 = acc @ [m_proto m1]
                in if int (length acc1) \<ge> mx then (ms(mid \<mapsto> m1), h1, acc1)
                   else pullMessages now at mx ids (ms(mid \<mapsto> m1)) h1 acc1))"

text \<open>
  \<^verbatim>\<open>subscription.pull(max)\<close>: \<open>now\<close> is the clock reading, \<open>ord1\<close> the order of the
  maintenance sweep and \<open>ord2\<close> the order of the loop that collects. \<open>None\<close> is a panic.
\<close>

type_synonym pullEnv = "time \<times> string list \<times> string list"

definition pull ::
  "subscription \<Rightarrow> (addr \<Rightarrow> Message) \<Rightarrow> int \<Rightarrow> pullEnv \<Rightarrow>
   (subscription \<times> (addr \<Rightarrow> Message) \<times> ReceivedMessage list) option" where
  "pull sub h mx env =
     (case env of (now, ord1, ord2) \<Rightarrow>
        (case maintainMessages now ord1 (sub_msgs sub) of
           None \<Rightarrow> None
         | Some ms \<Rightarrow>
            (case pullMessages now (sub_ackTimeout sub) mx ord2 ms h [] of
               (ms', h', got) \<Rightarrow> Some (sub\<lparr>sub_msgs := ms'\<rparr>, h', got))))"

text \<open>
  \<^verbatim>\<open>GServer.Pull\<close>. \<open>env1\<close> is the environment of the first \<^verbatim>\<open>sub.pull\<close>. When that
  finds nothing and the caller did not ask to return immediately, the call waits:
  \<open>ctxErr\<close> is the error of the context if the context ends during the wait, and
  \<open>env2\<close> the environment of the second \<^verbatim>\<open>sub.pull\<close> otherwise. The wait is taken
  without other calls in between.
\<close>

definition Pull ::
  "GServer \<Rightarrow> PullRequest \<Rightarrow> pullEnv \<Rightarrow> status option \<Rightarrow> pullEnv \<Rightarrow> reply \<times> GServer" where
  "Pull s req env1 ctxErr env2 =
     (case runReactor s (PullReq req) ''Pull'' (PullResponse []) of
        (handled, ret, err) \<Rightarrow>
          if handled \<or> err \<noteq> None then (reacted is_PullResponse ret err, s)
          else (case findSubscription s (pl_Subscription req) of
                  Inl e \<Rightarrow> (Error e, s)
                | Inr sub \<Rightarrow>
                   (let max0 = sint (pl_MaxMessages req) in
                    if max0 < 0
                    then (Error (Status InvalidArgument ''MaxMessages cannot be negative'' []), s)
                    else (let mx = (if max0 = 0 then 1000 else max0) in
                      case pull sub (heap s) mx env1 of
                        None \<Rightarrow> (Panic, s)
                      | Some (sub1, h1, got1) \<Rightarrow>
                         (let s1 = s\<lparr>subs := (subs s)(pl_Subscription req \<mapsto> sub1), heap := h1\<rparr> in
                          if length got1 = 0 \<and> \<not> pl_ReturnImmediately req
                          then (case ctxErr of
                                  Some e \<Rightarrow> (Error e, s1)
                                | None \<Rightarrow>
                                   (case pull sub1 h1 mx env2 of
                                      None \<Rightarrow> (Panic, s1)
                                    | Some (sub2, h2, got2) \<Rightarrow>
                                        (OK (PullResponse got2),
                                         s1\<lparr>subs := (subs s1)(pl_Subscription req \<mapsto> sub2),
                                            heap := h2\<rparr>)))
                          else (OK (PullResponse got1), s1))))))"

subsection \<open>Seek\<close>

text \<open>
  The first loop of \<^verbatim>\<open>Seek\<close>, over the pending messages of the subscription in the
  order \<open>ids\<close>: a message published before the target is dropped and counted as
  acknowledged.
\<close>

fun seekDrop ::
  "time \<Rightarrow> string list \<Rightarrow> (string \<rightharpoonup> message) \<times> (addr \<Rightarrow> Message) \<Rightarrow>
   (string \<rightharpoonup> message) \<times> (addr \<Rightarrow> Message)" where
  "seekDrop target [] mh = mh"
| "seekDrop target (mid # ids) mh =
     (case mh of (ms, h) \<Rightarrow>
        (case ms mid of
           None \<Rightarrow> seekDrop target ids (ms, h)
         | Some m \<Rightarrow>
             if Before (m_publishTime m) target
             then seekDrop target ids (ms(mid := None), incr_acks (m_acks m) h)
             else seekDrop target ids (ms, h)))"

text \<open>
  The pending entry that the second loop of \<^verbatim>\<open>Seek\<close> builds for the recorded message
  \<open>m\<close> at the address \<open>a\<close>: its \<^verbatim>\<open>proto.Message\<close> is left nil.
\<close>

definition restoredMessage :: "Message \<Rightarrow> addr \<Rightarrow> message" where
  "restoredMessage m a =
     \<lparr>m_proto = \<lparr>rm_AckId = M_ID m, rm_Message = None\<rparr>,
      m_publishTime = M_PublishTime m, m_ackDeadline = 0,
      m_deliveries = a, m_acks = a, m_streamIndex = - 1\<rparr>"

text \<open>
  The second loop, over \<^verbatim>\<open>s.msgs\<close>: every recorded message that was not published
  before the target gets that entry under its identifier.
\<close>

fun seekRestore ::
  "time \<Rightarrow> (addr \<Rightarrow> Message) \<Rightarrow> addr list \<Rightarrow> (string \<rightharpoonup> message) \<Rightarrow> (string \<rightharpoonup> message)" where
  "seekRestore target h [] ms = ms"
| "seekRestore target h (a # as) ms =
     (if Before (M_PublishTime (h a)) target then seekRestore target h as ms
      else seekRestore target h as (ms(M_ID (h a) \<mapsto> restoredMessage (h a) a)))"

definition Seek :: "GServer \<Rightarrow> SeekRequest \<Rightarrow> string list \<Rightarrow> reply \<times> GServer" where
  "Seek s req ids =
     (case sk_Target req of
        NoTarget \<Rightarrow> (Error (Status InvalidArgument ''missing Seek target type'' []), s)
      | SeekRequest_Snapshot v \<Rightarrow>
          (Error (Status Unimplemented ''unhandled Seek target type %T'' []), s)
      | SeekRequest_Time ts \<Rightarrow>
         (let target = AsTime ts in
          case runReactor s (SeekReq req) ''Seek'' SeekResponse of
            (handled, ret, err) \<Rightarrow>
              if handled \<or> err \<noteq> None then (reacted is_SeekResponse ret err, s)
              else (case findSubscription s (sk_Subscription req) of
                      Inl e \<Rightarrow> (Error e, s)
                    | Inr sub \<Rightarrow>
                       (case seekDrop target ids (sub_msgs sub, heap s) of
                          (ms1, h1) \<Rightarrow>
                            (OK SeekResponse,
                             s\<lparr>subs := (subs s)(sk_Subscription req \<mapsto>
                                  sub\<lparr>sub_msgs := seekRestore target h1 (msgs s) ms1\<rparr>),
                               heap := h1\<rparr>)))))"

subsection \<open>Streams and background delivery\<close>

definition deleteStreamAt :: "stream list \<Rightarrow> nat \<Rightarrow> stream list" where
  "deleteStreamAt ss i = take i ss @ drop (i + 1) ss"

definition newStream :: "subscription \<Rightarrow> addr \<Rightarrow> Duration \<Rightarrow> subscription" where
  "newStream sub a timeout =
     sub\<lparr>sub_streams := sub_streams sub @
            [\<lparr>st_addr = a, st_done = False, st_ackTimeout = sub_ackTimeout sub,
              st_timeout = timeout\<rparr>]\<rparr>"

text \<open>The search loop of \<^verbatim>\<open>deleteStream\<close>: the first index that holds the stream.\<close>

fun streamIndexOf :: "addr \<Rightarrow> stream list \<Rightarrow> nat" where
  "streamIndexOf a [] = 0"
| "streamIndexOf a (st # rest) = (if st_addr st = a then 0 else 1 + streamIndexOf a rest)"

definition deleteStream :: "subscription \<Rightarrow> addr \<Rightarrow> subscription" where
  "deleteStream sub a =
     (let i = streamIndexOf a (sub_streams sub) in
      if i < length (sub_streams sub)
      then sub\<lparr>sub_streams := deleteStreamAt (sub_streams sub) i\<rparr>
      else sub)"

text \<open>\<^verbatim>\<open>close(st.done)\<close> at the end of \<^verbatim>\<open>stream.pull\<close>.\<close>

definition closeStream :: "subscription \<Rightarrow> addr \<Rightarrow> subscription" where
  "closeStream sub a =
     sub\<lparr>sub_streams := map (\<lambda>st. if st_addr st = a then st\<lparr>st_done := True\<rparr> else st) (sub_streams sub)\<rparr>"

text \<open>
  \<^verbatim>\<open>tryDeliverMessage(m, start, now)\<close>. Each turn of its loop runs one \<^verbatim>\<open>select\<close>;
  \<open>accept k\<close> says whether the \<open>k\<close>-th \<^verbatim>\<open>select\<close> of the delivery takes the send on
  \<^verbatim>\<open>st.msgc\<close> (the receiver of the stream is waiting and the runtime picks that case).
  Otherwise it takes \<^verbatim>\<open>st.done\<close> when that is closed, and the default case when not.
  The result is the number of \<^verbatim>\<open>select\<close>s so far, the streams, the message, the store,
  and the two results of the source.
\<close>

function tryDeliverMessage ::
  "(nat \<Rightarrow> bool) \<Rightarrow> time \<Rightarrow> int \<Rightarrow> nat \<Rightarrow> nat \<Rightarrow> stream list \<Rightarrow> message \<Rightarrow> (addr \<Rightarrow> Message) \<Rightarrow>
   nat \<times> stream list \<times> message \<times> (addr \<Rightarrow> Message) \<times> int \<times> bool" where
  "tryDeliverMessage accept now start k i streams m h =
     (if i < length streams
      then (let idx = nat ((int i + start) mod int (length streams)) in
            if accept k
            then (k + 1, streams, m\<lparr>m_ackDeadline := Add now (st_ackTimeout (streams ! idx))\<rparr>,
                  incr_deliveries (m_deliveries m) h, int idx, True)
            else if st_done (streams ! idx)
            then tryDeliverMessage accept now start (k + 1) i (deleteStreamAt streams idx) m h
            else tryDeliverMessage accept now start (k + 1) (i + 1) streams m h)
      else (k, streams, m, h, 0, False))"
  by pat_completeness auto
termination
proof (relation "measure (\<lambda>(accept, now, start, k, i, streams, m, h). length streams - i)")
  show "wf (measure (\<lambda>(accept, now, start, k, i, streams, m, h). length streams - i))"
    by simp
next
  fix accept :: "nat \<Rightarrow> bool" and now :: time and start :: int and k i :: nat
    and streams :: "stream list" and m :: message and h :: "addr \<Rightarrow> Message" and x :: nat
  assume "i < length streams" and x: "x = nat ((int i + start) mod int (length streams))"
  have "0 < int (length streams)"
    using \<open>i < length streams\<close> by linarith
  then have "0 \<le> (int i + start) mod int (length streams)"
    and "(int i + start) mod int (length streams) < int (length streams)"
    by (rule pos_mod_sign, rule pos_mod_bound)
  with x have "x < length streams"
    by linarith
  with \<open>i < length streams\<close>
  show "((accept, now, start, k + 1, i, deleteStreamAt streams x, m, h),
         (accept, now, start, k, i, streams, m, h))
        \<in> measure (\<lambda>(accept, now, start, k, i, streams, m, h). length streams - i)"
    by (simp add: deleteStreamAt_def)
next
  fix accept :: "nat \<Rightarrow> bool" and now :: time and start :: int and k i :: nat
    and streams :: "stream list" and m :: message and h :: "addr \<Rightarrow> Message" and x :: nat
  assume "i < length streams"
  then show "((accept, now, start, k + 1, i + 1, streams, m, h),
         (accept, now, start, k, i, streams, m, h))
        \<in> measure (\<lambda>(accept, now, start, k, i, streams, m, h). length streams - i)"
    by simp
qed

text \<open>
  The loop of \<^verbatim>\<open>subscription.deliver\<close> over the pending messages, in the order
  \<open>ids\<close>; it stops at the first message that no stream takes. \<open>sent\<close> collects the
  messages that went into the channel of a stream, which the send loop of that stream
  forwards to its consumer.
\<close>

fun deliverMessages ::
  "(nat \<Rightarrow> bool) \<Rightarrow> time \<Rightarrow> string list \<Rightarrow> nat \<Rightarrow> int \<Rightarrow> stream list \<Rightarrow> (string \<rightharpoonup> message) \<Rightarrow>
   (addr \<Rightarrow> Message) \<Rightarrow> ReceivedMessage list \<Rightarrow>
   stream list \<times> (string \<rightharpoonup> message) \<times> (addr \<Rightarrow> Message) \<times> ReceivedMessage list" where
  "deliverMessages accept now [] k curIndex streams ms h sent = (streams, ms, h, sent)"
| "deliverMessages accept now (mid # ids) k curIndex streams ms h sent =
     (case ms mid of
        None \<Rightarrow> deliverMessages accept now ids k curIndex streams ms h sent
      | Some m \<Rightarrow>
          if outstanding m then deliverMessages accept now ids k curIndex streams ms h sent
          else if m_streamIndex m < 0
          then (case tryDeliverMessage accept now curIndex k 0 streams m h of
                  (k', streams', m', h', delIndex, ok) \<Rightarrow>
                    if \<not> ok then (streams', ms(mid \<mapsto> m'), h', sent)
                    else deliverMessages accept now ids k' (delIndex + 1) streams'
                           (ms(mid \<mapsto> m'\<lparr>m_streamIndex := delIndex + 1\<rparr>)) h'
                           (sent @ [m_proto m']))
          else (case tryDeliverMessage accept now (m_streamIndex m) k 0 streams m h of
                  (k', streams', m', h', delIndex, ok) \<Rightarrow>
                    if \<not> ok then (streams', ms(mid \<mapsto> m'), h', sent)
                    else deliverMessages accept now ids k' curIndex streams'
                           (ms(mid \<mapsto> m'\<lparr>m_streamIndex := delIndex\<rparr>)) h'
                           (sent @ [m_proto m'])))"

text \<open>
  \<^verbatim>\<open>subscription.deliver\<close>, the body of the background task of a subscription.
  \<open>None\<close> is a panic of the maintenance sweep.
\<close>

definition deliver ::
  "subscription \<Rightarrow> (addr \<Rightarrow> Message) \<Rightarrow> pullEnv \<Rightarrow> (nat \<Rightarrow> bool) \<Rightarrow>
   (subscription \<times> (addr \<Rightarrow> Message) \<times> ReceivedMessage list) option" where
  "deliver sub h env accept =
     (case env of (now, ord1, ord2) \<Rightarrow>
        (case maintainMessages now ord1 (sub_msgs sub) of
           None \<Rightarrow> None
         | Some ms \<Rightarrow>
            (case deliverMessages accept now ord2 0 0 (sub_streams sub) ms h [] of
               (streams', ms', h', sent) \<Rightarrow>
                 Some (sub\<lparr>sub_msgs := ms', sub_streams := streams'\<rparr>, h', sent))))"

text \<open>
  The second loop of \<^verbatim>\<open>handleStreamingPullRequest\<close> reads
  \<^verbatim>\<open>req.ModifyDeadlineSeconds[i]\<close>: an index out of range panics (\<open>None\<close>).
\<close>

fun modifyDeadlines ::
  "(nat \<Rightarrow> time) \<Rightarrow> nat \<Rightarrow> string list \<Rightarrow> int32 list \<Rightarrow> subscription \<Rightarrow> subscription option" where
  "modifyDeadlines clock i [] secs sub = Some sub"
| "modifyDeadlines clock i (mid # ids) secs sub =
     (if i < length secs
      then modifyDeadlines clock (i + 1) ids secs
             (modifyAckDeadline sub mid (secsToDur (secs ! i)) (clock i))
      else None)"

definition handleStreamingPullRequest ::
  "subscription \<Rightarrow> (addr \<Rightarrow> Message) \<Rightarrow> addr \<Rightarrow> StreamingPullRequest \<Rightarrow> (nat \<Rightarrow> time) \<Rightarrow>
   (subscription \<times> (addr \<Rightarrow> Message)) option" where
  "handleStreamingPullRequest sub h a req clock =
     (case fold ack (sr_AckIds req) (sub, h) of
        (sub1, h1) \<Rightarrow>
          (case modifyDeadlines clock 0 (sr_ModifyDeadlineAckIds req)
                  (sr_ModifyDeadlineSeconds req) sub1 of
             None \<Rightarrow> None
           | Some sub2 \<Rightarrow>
               Some (if 0 <s sr_StreamAckDeadlineSeconds req
                     then sub2\<lparr>sub_streams :=
                            map (\<lambda>st. if st_addr st = a
                                      then st\<lparr>st_ackTimeout := secsToDur (sr_StreamAckDeadlineSeconds req)\<rparr>
                                      else st) (sub_streams sub2)\<rparr>
                     else sub2, h1)))"

subsection \<open>Runs of the server\<close>

text \<open>
  One step of the server: a unary call with what it reads from its environment, a step
  of a streaming pull (its opening, a request received on it, the closing of its
  \<^verbatim>\<open>done\<close> channel, its removal from the subscription), a turn of the background task
  of a subscription, or one of the test hooks \<^verbatim>\<open>ClearMessages\<close>,
  \<^verbatim>\<open>SetStreamTimeout\<close>, \<^verbatim>\<open>SetMinAckDeadline\<close> and \<^verbatim>\<open>ResetMinAckDeadline\<close>. A turn
  of the background task replies \<open>Delivered sent\<close>, the messages it gave to streams; any
  other step that has no response of its own replies \<open>Empty\<close>. The list operations read the state
  and are left out. A stream and a background task act on the subscription that
  \<open>subs\<close> holds under their subscription's name.
\<close>

datatype op =
    OpCreateTopic Topic_pb
  | OpGetTopic string
  | OpUpdateTopic UpdateTopicRequest
  | OpDeleteTopic string
  | OpCreateSubscription Subscription_pb
  | OpGetSubscription string
  | OpUpdateSubscription UpdateSubscriptionRequest
  | OpDeleteSubscription string
  | OpDetachSubscription string
  | OpPublish PublishRequest "nat \<Rightarrow> time"
  | OpAcknowledge AcknowledgeRequest
  | OpModifyAckDeadline ModifyAckDeadlineRequest time "nat \<Rightarrow> time"
  | OpPull PullRequest pullEnv "status option" pullEnv
  | OpSeek SeekRequest "string list"
  | OpStreamOpen string
  | OpStreamRecv string addr StreamingPullRequest "nat \<Rightarrow> time"
  | OpStreamClose string addr
  | OpStreamDelete string addr
  | OpDeliver string pullEnv "nat \<Rightarrow> bool"
  | OpClearMessages
  | OpSetStreamTimeout Duration
  | OpSetMinAckDeadline Duration
  | OpResetMinAckDeadline

definition StreamOpen :: "GServer \<Rightarrow> string \<Rightarrow> reply \<times> GServer" where
  "StreamOpen s name =
     (case findSubscription s name of
        Inl e \<Rightarrow> (Error e, s)
      | Inr sub \<Rightarrow>
          (OK Empty, s\<lparr>subs := (subs s)(name \<mapsto> newStream sub (nextAddr s) (streamTimeout s)),
                       nextAddr := nextAddr s + 1\<rparr>))"

definition StreamRecv ::
  "GServer \<Rightarrow> string \<Rightarrow> addr \<Rightarrow> StreamingPullRequest \<Rightarrow> (nat \<Rightarrow> time) \<Rightarrow> reply \<times> GServer" where
  "StreamRecv s name a req clock =
     (case subs s name of
        None \<Rightarrow> (OK Empty, s)
      | Some sub \<Rightarrow>
         (case handleStreamingPullRequest sub (heap s) a req clock of
            None \<Rightarrow> (Panic, s)
          | Some (sub', h') \<Rightarrow> (OK Empty, s\<lparr>subs := (subs s)(name \<mapsto> sub'), heap := h'\<rparr>)))"

definition onSubscription :: "GServer \<Rightarrow> string \<Rightarrow> (subscription \<Rightarrow> subscription) \<Rightarrow> reply \<times> GServer" where
  "onSubscription s name f =
     (case subs s name of
        None \<Rightarrow> (OK Empty, s)
      | Some sub \<Rightarrow> (OK Empty, s\<lparr>subs := (subs s)(name \<mapsto> f sub)\<rparr>))"

definition Deliver :: "GServer \<Rightarrow> string \<Rightarrow> pullEnv \<Rightarrow> (nat \<Rightarrow> bool) \<Rightarrow> reply \<times> GServer" where
  "Deliver s name env accept =
     (case subs s name of
        None \<Rightarrow> (OK Empty, s)
      | Some sub \<Rightarrow>
         (case deliver sub (heap s) env accept of
            None \<Rightarrow> (Panic, s)
          | Some (sub', h', sent) \<Rightarrow>
              (OK (Delivered sent), s\<lparr>subs := (subs s)(name \<mapsto> sub'), heap := h'\<rparr>)))"

definition ClearMessages :: "GServer \<Rightarrow> GServer" where
  "ClearMessages s = s\<lparr>msgs := [], msgsByID := Map.empty\<rparr>"

definition SetMinAckDeadline :: "GServer \<Rightarrow> Duration \<Rightarrow> reply \<times> GServer" where
  "SetMinAckDeadline s n =
     (if n < Second then (Panic, s)
      else (OK Empty, s\<lparr>minAckDeadlineSecs := word_of_int (n div Second)\<rparr>))"

definition ResetMinAckDeadline :: "GServer \<Rightarrow> GServer" where
  "ResetMinAckDeadline s = s\<lparr>minAckDeadlineSecs := 10\<rparr>"

fun step :: "GServer \<Rightarrow> op \<Rightarrow> reply \<times> GServer" where
  "step s (OpCreateTopic t) = CreateTopic s t"
| "step s (OpGetTopic name) = GetTopic s name"
| "step s (OpUpdateTopic req) = UpdateTopic s req"
| "step s (OpDeleteTopic name) = DeleteTopic s name"
| "step s (OpCreateSubscription ps) = CreateSubscription s ps"
| "step s (OpGetSubscription name) = GetSubscription s name"
| "step s (OpUpdateSubscription req) = UpdateSubscription s req"
| "step s (OpDeleteSubscription name) = DeleteSubscription s name"
| "step s (OpDetachSubscription name) = DetachSubscription s name"
| "step s (OpPublish req clock) = Publish s req clock"
| "step s (OpAcknowledge req) = Acknowledge s req"
| "step s (OpModifyAckDeadline req wall clock) = ModifyAckDeadline s req wall clock"
| "step s (OpPull req env1 ctxErr env2) = Pull s req env1 ctxErr env2"
| "step s (OpSeek req ids) = Seek s req ids"
| "step s (OpStreamOpen name) = StreamOpen s name"
| "step s (OpStreamRecv name a req clock) = StreamRecv s name a req clock"
| "step s (OpStreamClose name a) = onSubscription s name (\<lambda>sub. closeStream sub a)"
| "step s (OpStreamDelete name a) = onSubscription s name (\<lambda>sub. deleteStream sub a)"
| "step s (OpDeliver name env accept) = Deliver s name env accept"
| "step s OpClearMessages = (OK Empty, ClearMessages s)"
| "step s (OpSetStreamTimeout d) = (OK Empty, s\<lparr>streamTimeout := d\<rparr>)"
| "step s (OpSetMinAckDeadline n) = SetMinAckDeadline s n"
| "step s OpResetMinAckDeadline = (OK Empty, ResetMinAckDeadline s)"

text \<open>
  A run: the replies of the steps in order, and the state after the last one. A run
  stops at a panic.
\<close>

fun run :: "GServer \<Rightarrow> op list \<Rightarrow> (op \<times> reply) list \<times> GServer" where
  "run s [] = ([], s)"
| "run s (x # xs) =
     (case step s x of
        (r, s') \<Rightarrow>
          if r = Panic then ([(x, r)], s')
          else (case run s' xs of (rs, s'') \<Rightarrow> ((x, r) # rs, s'')))"

subsection \<open>Notions used by the properties\<close>

text \<open>
  No reactor registered under \<open>funcName\<close> takes the call \<open>req\<close>: each leaves it
  unhandled, without an error. A server made by \<^verbatim>\<open>NewServer()\<close> has no reactors, and
  every call is unhandled there.
\<close>

definition unhandled :: "GServer \<Rightarrow> request \<Rightarrow> string \<Rightarrow> bool" where
  "unhandled s req funcName =
     (\<forall>r \<in> set (reactorOptions s funcName).
        case r req of (handled, ret, err) \<Rightarrow> \<not> handled \<and> err = None)"

text \<open>Concrete servers and requests, on which the properties are instantiated.\<close>

definition topic_t :: Topic_pb where
  "topic_t = \<lparr>tp_Name = ''t'', tp_Labels = [], tp_MessageStoragePolicy = None\<rparr>"

definition subscription_s :: Subscription_pb where
  "subscription_s =
     emptySubscription_pb\<lparr>sp_Name := ''s'', sp_Topic := ''t'', sp_AckDeadlineSeconds := 10\<rparr>"

definition server_t :: GServer where
  "server_t = (NewServer [])\<lparr>topics := [''t'' \<mapsto> newTopic topic_t]\<rparr>"

text \<open>
  The subscription of a request with the two defaults of \<^verbatim>\<open>CreateSubscription\<close> filled
  in: a missing message-retention duration becomes 168 hours, a missing push config the
  empty push config.
\<close>

definition withDefaults :: "Subscription_pb \<Rightarrow> Subscription_pb" where
  "withDefaults ps =
     (let ps1 = (if sp_MessageRetentionDuration ps = None
                 then ps\<lparr>sp_MessageRetentionDuration := Some (168 * Hour)\<rparr> else ps)
      in if sp_PushConfig ps1 = None then ps1\<lparr>sp_PushConfig := Some emptyPushConfig\<rparr> else ps1)"

text \<open>
  An update of the topic \<^verbatim>\<open>t\<close> whose mask names \<^verbatim>\<open>labels\<close> and then a field that
  does not exist, and an update of the subscription \<^verbatim>\<open>s\<close> whose mask names
  \<^verbatim>\<open>labels\<close> and then \<^verbatim>\<open>ack_deadline_seconds\<close> with the deadline 700; a server
  that holds the topic \<^verbatim>\<open>t\<close> and the subscription \<^verbatim>\<open>s\<close> on it.
\<close>

definition updateTopic_labels_bogus :: UpdateTopicRequest where
  "updateTopic_labels_bogus =
     \<lparr>ut_Topic = Some (topic_t\<lparr>tp_Labels := [(''k'', ''v'')]\<rparr>),
      ut_UpdateMask = Some [''labels'', ''bogus'']\<rparr>"

definition server_ts :: GServer where
  "server_ts = (NewServer [])
     \<lparr>topics := [''t'' \<mapsto> (newTopic topic_t)\<lparr>t_subs := {''s''}\<rparr>],
      subs := [''s'' \<mapsto> newSubscription ''t'' (withDefaults subscription_s)]\<rparr>"

definition updateSubscription_labels_deadline :: UpdateSubscriptionRequest where
  "updateSubscription_labels_deadline =
     \<lparr>us_Subscription = Some (subscription_s\<lparr>sp_Labels := [(''k'', ''v'')],
                                                sp_AckDeadlineSeconds := 700\<rparr>),
      us_UpdateMask = Some [''labels'', ''ack_deadline_seconds'']\<rparr>"

text \<open>
  The pending entry that \<^verbatim>\<open>Publish\<close> makes for the message \<^verbatim>\<open>m0\<close> published at
  time 1000, here with the lease expiry \<open>dl\<close>, and the subscription \<^verbatim>\<open>s\<close> holding it.
\<close>

definition message_m0 :: PubsubMessage where
  "message_m0 = \<lparr>pm_Data = ''hello'', pm_Attributes = [], pm_MessageId = ''m0'',
     pm_PublishTime = Some 1000, pm_OrderingKey = []\<rparr>"

definition pending_m0 :: "time \<Rightarrow> message" where
  "pending_m0 dl = \<lparr>m_proto = \<lparr>rm_AckId = ''m0'', rm_Message = Some message_m0\<rparr>,
     m_publishTime = 1000, m_ackDeadline = dl, m_deliveries = 0, m_acks = 0,
     m_streamIndex = - 1\<rparr>"

definition sub_pending_m0 :: "time \<Rightarrow> subscription" where
  "sub_pending_m0 dl =
     (newSubscription ''t'' (withDefaults subscription_s))\<lparr>sub_msgs := [''m0'' \<mapsto> pending_m0 dl]\<rparr>"

text \<open>
  The server after \<^verbatim>\<open>CreateTopic t\<close>, \<^verbatim>\<open>CreateSubscription s\<close> on it and the
  \<^verbatim>\<open>Publish\<close> of one message at time 1000, with the lease expiry \<open>dl\<close> on the pending
  entry.
\<close>

definition Message_m0 :: Message where
  "Message_m0 = \<lparr>M_PublishTime = 1000, M_Attributes = [], M_ID = ''m0'', M_OrderingKey = [],
     M_modacks = [], M_Data = ''hello'', M_deliveries = 0, M_acks = 0\<rparr>"

definition server_m0 :: "time \<Rightarrow> GServer" where
  "server_m0 dl = server_ts
     \<lparr>subs := [''s'' \<mapsto> sub_pending_m0 dl], msgsByID := [''m0'' \<mapsto> 0], msgs := [0],
      nextID := 1, heap := (\<lambda>a. emptyMessage)(0 := Message_m0), nextAddr := 1\<rparr>"

text \<open>
  The maintenance sweep in the words of the (amended) claim. \<open>protoPublishTime m\<close> is
  the publish time the sweep reads, through the message proto. \<open>expired now m\<close>: the
  message is leased and its lease has run out. \<open>purged now m\<close>: the message is
  available, or its lease has run out, and its age exceeds ten minutes. \<open>swept now m\<close>
  is what the sweep leaves of the pending message \<open>m\<close>: nothing when it is purged, the
  message without its lease when the lease has run out, the message as it is otherwise.
\<close>

definition protoPublishTime :: "message \<Rightarrow> time" where
  "protoPublishTime m =
     (case rm_Message (m_proto m) of None \<Rightarrow> 0 | Some pm \<Rightarrow> AsTime (pm_PublishTime pm))"

definition expired :: "time \<Rightarrow> message \<Rightarrow> bool" where
  "expired now m = (m_ackDeadline m \<noteq> 0 \<and> m_ackDeadline m < now)"

definition purged :: "time \<Rightarrow> message \<Rightarrow> bool" where
  "purged now m =
     ((m_ackDeadline m = 0 \<or> expired now m) \<and> now - protoPublishTime m > 10 * Minute)"

definition swept :: "time \<Rightarrow> message \<Rightarrow> message option" where
  "swept now m =
     (if purged now m then None
      else if expired now m then Some (m\<lparr>m_ackDeadline := 0\<rparr>) else Some m)"




text \<open>The request that publishes one message with the payload \<^verbatim>\<open>hello\<close> to \<^verbatim>\<open>t\<close>.\<close>

definition publish_hello :: PublishRequest where
  "publish_hello = \<lparr>pr_Topic = ''t'', pr_Messages =
     [\<lparr>pm_Data = ''hello'', pm_Attributes = [], pm_MessageId = [], pm_PublishTime = None,
       pm_OrderingKey = []\<rparr>]\<rparr>"

text \<open>
  The pending messages of the subscription \<open>name\<close>: none when the server holds no
  such subscription.
\<close>

definition pendingOf :: "GServer \<Rightarrow> string \<Rightarrow> (string \<rightharpoonup> message)" where
  "pendingOf s name = (case subs s name of None \<Rightarrow> Map.empty | Some sub \<Rightarrow> sub_msgs sub)"

text \<open>
  \<open>derived ms' ms\<close>: every entry of \<open>ms'\<close> stands under the key of an entry of \<open>ms\<close>
  and has its message proto.
\<close>

definition derived :: "(string \<rightharpoonup> message) \<Rightarrow> (string \<rightharpoonup> message) \<Rightarrow> bool" where
  "derived ms' ms =
     (\<forall>mid e'. ms' mid = Some e' \<longrightarrow> (\<exists>e. ms mid = Some e \<and> m_proto e' = m_proto e))"

text \<open>
  \<open>quiet s s'\<close>: from \<open>s\<close> to \<open>s'\<close> no identifier was issued, the reactors are the same,
  and no subscription got a pending entry that it did not have.
\<close>

definition quiet :: "GServer \<Rightarrow> GServer \<Rightarrow> bool" where
  "quiet s s' =
     (nextID s' = nextID s \<and> reactorOptions s' = reactorOptions s \<and>
      (\<forall>n. derived (pendingOf s' n) (pendingOf s n)))"

text \<open>
  \<open>evolves d s s'\<close>: from \<open>s\<close> to \<open>s'\<close> the counter of identifiers went up by \<open>d\<close>,
  the reactors are the same, and a pending entry of \<open>s'\<close> either has the key and the
  message proto of a pending entry of \<open>s\<close>, or stands under its own ack id and then
  carries no message or has one of the \<open>d\<close> identifiers issued in between.
\<close>

definition evolves :: "nat \<Rightarrow> GServer \<Rightarrow> GServer \<Rightarrow> bool" where
  "evolves d s s' =
     (nextID s' = nextID s + of_nat d \<and> reactorOptions s' = reactorOptions s \<and>
      (\<forall>n mid e'. pendingOf s' n mid = Some e' \<longrightarrow>
         (\<exists>e. pendingOf s n mid = Some e \<and> m_proto e' = m_proto e) \<or>
         (rm_AckId (m_proto e') = mid \<and>
          (rm_Message (m_proto e') = None \<or>
           (\<exists>k < d. mid = msgID (sint (nextID s + of_nat k)))))))"

text \<open>
  The number of messages that a step asks the server to publish, and their number along
  a list of steps.
\<close>

definition opPublishes :: "op \<Rightarrow> nat" where
  "opPublishes x = (case x of OpPublish req clock \<Rightarrow> length (pr_Messages req) | _ \<Rightarrow> 0)"


text \<open>
  The identifiers that a step issued, read off its reply: those of the response of a
  \<^verbatim>\<open>Publish\<close>; and the identifiers issued along a run, in the order of the replies.
\<close>

definition issuedBy :: "op \<Rightarrow> reply \<Rightarrow> string list" where
  "issuedBy x r =
     (case x of
        OpPublish req clock \<Rightarrow> (case r of OK (PublishResponse ids) \<Rightarrow> ids | _ \<Rightarrow> [])
      | _ \<Rightarrow> [])"

definition publishedIDs :: "(op \<times> reply) list \<Rightarrow> string list" where
  "publishedIDs tr = concat (map (\<lambda>(x, r). issuedBy x r) tr)"

text \<open>
  The identifiers that the counter gives from the value \<open>n\<close> on, \<open>c\<close> of them: the
  counter is formatted as the signed integer it holds, and the addition wraps.
\<close>

definition idsFrom :: "64 word \<Rightarrow> nat \<Rightarrow> string list" where
  "idsFrom n c = map (\<lambda>k. msgID (sint (n + of_nat k))) [0..<c]"







text \<open>
  A \<^verbatim>\<open>Pull\<close> of up to ten messages from the subscription \<^verbatim>\<open>s\<close> that returns at
  once, and the \<^verbatim>\<open>Acknowledge\<close> of \<^verbatim>\<open>m0\<close> there.
\<close>

definition pull_s :: PullRequest where
  "pull_s = \<lparr>pl_Subscription = ''s'', pl_ReturnImmediately = True, pl_MaxMessages = 10\<rparr>"


section \<open>Properties\<close>

subsection \<open>Reactors and validation\<close>

lemma runReactors_unhandled:
  "(\<forall>r \<in> set rs. case r req of (handled, ret, err) \<Rightarrow> \<not> handled \<and> err = None) \<Longrightarrow>
   runReactors rs req d = (False, None, None)"
  by (induction rs) (auto split: prod.splits)

lemma runReactor_unhandled:
  "unhandled s req f \<Longrightarrow> runReactor s req f d = (False, None, None)"
  unfolding unhandled_def runReactor_def by (rule runReactors_unhandled)

lemma checkAckDeadline_None:
  "checkAckDeadline mn ads = None \<longleftrightarrow> sint mn \<le> sint ads \<and> sint ads \<le> 600"
  by (auto simp: checkAckDeadline_def word_sless_alt)

lemma checkAckDeadline_Some:
  "checkAckDeadline mn ads = Some e \<Longrightarrow> status_code e = Unknown"
  by (auto simp: checkAckDeadline_def split: if_splits)


lemma updateSubscriptionPaths_append:
  "fst (updateSubscriptionPaths mn rs pre p) = None \<Longrightarrow>
   updateSubscriptionPaths mn rs (pre @ rest) p =
   updateSubscriptionPaths mn rs rest (snd (updateSubscriptionPaths mn rs pre p))"
  by (induction pre arbitrary: p) (auto split: sum.splits)

lemma updateTopicPaths_append:
  "fst (updateTopicPaths rt pre p) = None \<Longrightarrow>
   updateTopicPaths rt (pre @ rest) p =
   updateTopicPaths rt rest (snd (updateTopicPaths rt pre p))"
  by (induction pre arbitrary: p) (auto split: sum.splits)


lemma CreateSubscription_bad_deadline:
  assumes "unhandled s (CreateSubscriptionReq ps) ''CreateSubscription''"
    and "sp_Name ps \<noteq> []" and "subs s (sp_Name ps) = None"
    and "sp_Topic ps \<noteq> []" and "topics s (sp_Topic ps) \<noteq> None"
    and "checkAckDeadline (minAckDeadlineSecs s) (sp_AckDeadlineSeconds ps) = Some e"
  shows "CreateSubscription s ps = (Error e, s)"
  using assms by (auto simp: CreateSubscription_def runReactor_unhandled)

lemma UpdateSubscription_bad_deadline:
  assumes "us_Subscription req = Some rs"
    and "unhandled s (UpdateSubscriptionReq req) ''UpdateSubscription''"
    and "sp_Name rs \<noteq> []" and "subs s (sp_Name rs) = Some sub"
    and "us_UpdateMask req = Some (pre @ ''ack_deadline_seconds'' # rest)"
    and "fst (updateSubscriptionPaths (minAckDeadlineSecs s) rs pre (sub_proto sub)) = None"
    and "checkAckDeadline (minAckDeadlineSecs s) (sp_AckDeadlineSeconds rs) = Some e"
  shows "fst (UpdateSubscription s req) = Error e"
  using assms
  by (simp add: UpdateSubscription_def runReactor_unhandled findSubscription_def
      updateSubscriptionPaths_append updateSubscriptionPath_def split: prod.splits)

lemma CreateSubscription_good_deadline:
  assumes "unhandled s (CreateSubscriptionReq ps) ''CreateSubscription''"
    and "checkAckDeadline (minAckDeadlineSecs s) (sp_AckDeadlineSeconds ps) = None"
    and "fst (CreateSubscription s ps) = Error e"
  shows "status_code e \<noteq> Unknown"
  using assms
  by (auto simp: CreateSubscription_def runReactor_unhandled checkMRD_def Let_def
      split: if_splits option.splits)

text \<open>
  Claim C6. The check of the ack deadline rejects exactly the values below the configured
  minimum or above 600, always with the code \<open>Unknown\<close>; 700 is rejected under every
  minimum. A \<^verbatim>\<open>CreateSubscription\<close> that reaches the check (no reactor takes the call,
  the name is given and free, the topic is given and exists) with a deadline out of
  bounds fails with \<open>Unknown\<close> and changes nothing, and with a deadline within bounds
  it never fails with \<open>Unknown\<close>. An \<^verbatim>\<open>UpdateSubscription\<close> whose mask reaches the path
  \<^verbatim>\<open>ack_deadline_seconds\<close> (the paths before it pass) with a deadline out of bounds
  fails with \<open>Unknown\<close>.
\<close>

theorem ack_deadline_out_of_bounds_is_Unknown:
  "(checkAckDeadline mn ads = None \<longleftrightarrow> sint mn \<le> sint ads \<and> sint ads \<le> 600) \<and>
   (\<forall>e. checkAckDeadline mn ads = Some e \<longrightarrow> status_code e = Unknown) \<and>
   checkAckDeadline mn 700 \<noteq> None \<and>
   (unhandled s (CreateSubscriptionReq ps) ''CreateSubscription'' \<and>
    sp_Name ps \<noteq> [] \<and> subs s (sp_Name ps) = None \<and>
    sp_Topic ps \<noteq> [] \<and> topics s (sp_Topic ps) \<noteq> None \<and>
    (sint (sp_AckDeadlineSeconds ps) < sint (minAckDeadlineSecs s) \<or>
     600 < sint (sp_AckDeadlineSeconds ps)) \<longrightarrow>
    (\<exists>e. CreateSubscription s ps = (Error e, s) \<and> status_code e = Unknown)) \<and>
   (unhandled s (CreateSubscriptionReq ps) ''CreateSubscription'' \<and>
    sint (minAckDeadlineSecs s) \<le> sint (sp_AckDeadlineSeconds ps) \<and>
    sint (sp_AckDeadlineSeconds ps) \<le> 600 \<longrightarrow>
    (\<forall>e. fst (CreateSubscription s ps) = Error e \<longrightarrow> status_code e \<noteq> Unknown)) \<and>
   (us_Subscription req = Some rs \<and>
    unhandled s (UpdateSubscriptionReq req) ''UpdateSubscription'' \<and>
    sp_Name rs \<noteq> [] \<and> subs s (sp_Name rs) = Some sub \<and>
    us_UpdateMask req = Some (pre @ ''ack_deadline_seconds'' # rest) \<and>
    fst (updateSubscriptionPaths (minAckDeadlineSecs s) rs pre (sub_proto sub)) = None \<and>
    (sint (sp_AckDeadlineSeconds rs) < sint (minAckDeadlineSecs s) \<or>
     600 < sint (sp_AckDeadlineSeconds rs)) \<longrightarrow>
    (\<exists>e. fst (UpdateSubscription s req) = Error e \<and> status_code e = Unknown))"
proof (intro conjI allI impI)
  show "checkAckDeadline mn ads = None \<longleftrightarrow> sint mn \<le> sint ads \<and> sint ads \<le> 600"
    by (rule checkAckDeadline_None)
  show "status_code e = Unknown" if "checkAckDeadline mn ads = Some e" for e
    using that by (rule checkAckDeadline_Some)
  show "checkAckDeadline mn 700 \<noteq> None"
    by (simp add: checkAckDeadline_None)
next
  assume a: "unhandled s (CreateSubscriptionReq ps) ''CreateSubscription'' \<and>
    sp_Name ps \<noteq> [] \<and> subs s (sp_Name ps) = None \<and>
    sp_Topic ps \<noteq> [] \<and> topics s (sp_Topic ps) \<noteq> None \<and>
    (sint (sp_AckDeadlineSeconds ps) < sint (minAckDeadlineSecs s) \<or>
     600 < sint (sp_AckDeadlineSeconds ps))"
  then have "checkAckDeadline (minAckDeadlineSecs s) (sp_AckDeadlineSeconds ps) \<noteq> None"
    by (auto simp: checkAckDeadline_None)
  then obtain e where e: "checkAckDeadline (minAckDeadlineSecs s) (sp_AckDeadlineSeconds ps) = Some e"
    by blast
  with a have "CreateSubscription s ps = (Error e, s)"
    by (intro CreateSubscription_bad_deadline) simp_all
  with e show "\<exists>e. CreateSubscription s ps = (Error e, s) \<and> status_code e = Unknown"
    by (blast dest: checkAckDeadline_Some)
next
  fix e
  assume "unhandled s (CreateSubscriptionReq ps) ''CreateSubscription'' \<and>
    sint (minAckDeadlineSecs s) \<le> sint (sp_AckDeadlineSeconds ps) \<and>
    sint (sp_AckDeadlineSeconds ps) \<le> 600"
    and "fst (CreateSubscription s ps) = Error e"
  then show "status_code e \<noteq> Unknown"
    by (intro CreateSubscription_good_deadline[of s ps e]) (simp_all add: checkAckDeadline_None)
next
  assume a: "us_Subscription req = Some rs \<and>
    unhandled s (UpdateSubscriptionReq req) ''UpdateSubscription'' \<and>
    sp_Name rs \<noteq> [] \<and> subs s (sp_Name rs) = Some sub \<and>
    us_UpdateMask req = Some (pre @ ''ack_deadline_seconds'' # rest) \<and>
    fst (updateSubscriptionPaths (minAckDeadlineSecs s) rs pre (sub_proto sub)) = None \<and>
    (sint (sp_AckDeadlineSeconds rs) < sint (minAckDeadlineSecs s) \<or>
     600 < sint (sp_AckDeadlineSeconds rs))"
  then have "checkAckDeadline (minAckDeadlineSecs s) (sp_AckDeadlineSeconds rs) \<noteq> None"
    by (auto simp: checkAckDeadline_None)
  then obtain e where e: "checkAckDeadline (minAckDeadlineSecs s) (sp_AckDeadlineSeconds rs) = Some e"
    by blast
  with a have "fst (UpdateSubscription s req) = Error e"
    by (intro UpdateSubscription_bad_deadline[where pre=pre and rest=rest and sub=sub and rs=rs]) simp_all
  with e show "\<exists>e. fst (UpdateSubscription s req) = Error e \<and> status_code e = Unknown"
    by (blast dest: checkAckDeadline_Some)
qed

theorem ack_deadline_out_of_bounds_is_Unknown_witness:
  "(\<exists>e. CreateSubscription server_t (subscription_s\<lparr>sp_AckDeadlineSeconds := 700\<rparr>) = (Error e, server_t) \<and>
        status_code e = Unknown) \<and>
   (\<exists>e. CreateSubscription server_t (subscription_s\<lparr>sp_AckDeadlineSeconds := 5\<rparr>) = (Error e, server_t) \<and>
        status_code e = Unknown)"
  using ack_deadline_out_of_bounds_is_Unknown
          [of 10 700 server_t "subscription_s\<lparr>sp_AckDeadlineSeconds := 700\<rparr>"]
        ack_deadline_out_of_bounds_is_Unknown
          [of 10 700 server_t "subscription_s\<lparr>sp_AckDeadlineSeconds := 5\<rparr>"]
  by (simp add: unhandled_def server_t_def NewServer_def subscription_s_def emptySubscription_pb_def)

subsection \<open>CreateSubscription\<close>

lemma CreateSubscription_unhandled:
  assumes "unhandled s (CreateSubscriptionReq ps) ''CreateSubscription''"
  shows "CreateSubscription s ps =
     (if sp_Name ps = [] then (Error (Status InvalidArgument ''missing name'' []), s)
      else if subs s (sp_Name ps) \<noteq> None
      then (Error (Status AlreadyExists ''subscription %q'' [sp_Name ps]), s)
      else if sp_Topic ps = [] then (Error (Status InvalidArgument ''missing topic'' []), s)
      else (case topics s (sp_Topic ps) of
              None \<Rightarrow> (Error (Status NotFound ''topic %q'' [sp_Topic ps]), s)
            | Some top' \<Rightarrow>
               (case checkAckDeadline (minAckDeadlineSecs s) (sp_AckDeadlineSeconds ps) of
                  Some e \<Rightarrow> (Error e, s)
                | None \<Rightarrow>
                   (let ps1 = (if sp_MessageRetentionDuration ps = None
                               then ps\<lparr>sp_MessageRetentionDuration := defaultMessageRetentionDuration\<rparr>
                               else ps)
                    in case checkMRD (sp_MessageRetentionDuration ps1) of
                         Some e \<Rightarrow> (Error e, s)
                       | None \<Rightarrow>
                          (let ps2 = (if sp_PushConfig ps1 = None
                                      then ps1\<lparr>sp_PushConfig := Some emptyPushConfig\<rparr>
                                      else ps1);
                               sub = newSubscription (sp_Topic ps) ps2
                           in (OK (SubscriptionResponse ps2),
                               s\<lparr>topics := (topics s)(sp_Topic ps \<mapsto>
                                               top'\<lparr>t_subs := insert (sp_Name ps) (t_subs top')\<rparr>),
                                 subs := (subs s)(sp_Name ps \<mapsto> sub)\<rparr>))))))"
  using assms by (simp add: CreateSubscription_def runReactor_unhandled)

lemma CreateSubscription_OK:
  assumes u: "unhandled s (CreateSubscriptionReq ps) ''CreateSubscription''"
    and ok: "CreateSubscription s ps = (OK r, s')"
  shows "r = SubscriptionResponse (withDefaults ps) \<and>
         subs s (sp_Name ps) = None \<and>
         subs s' = (subs s)(sp_Name ps \<mapsto> newSubscription (sp_Topic ps) (withDefaults ps)) \<and>
         (\<exists>t. topics s (sp_Topic ps) = Some t \<and>
              topics s' = (topics s)(sp_Topic ps \<mapsto> t\<lparr>t_subs := insert (sp_Name ps) (t_subs t)\<rparr>))"
  using ok unfolding CreateSubscription_unhandled[OF u]
  by (auto simp: Let_def withDefaults_def defaultMessageRetentionDuration_def
      maxMessageRetentionDuration_def split: if_splits option.splits)

lemma CreateSubscription_succeeds:
  assumes u: "unhandled s (CreateSubscriptionReq ps) ''CreateSubscription''"
    and "sp_Name ps \<noteq> []" "subs s (sp_Name ps) = None" "sp_Topic ps \<noteq> []"
    "topics s (sp_Topic ps) \<noteq> None"
    "checkAckDeadline (minAckDeadlineSecs s) (sp_AckDeadlineSeconds ps) = None"
    "checkMRD (sp_MessageRetentionDuration (withDefaults ps)) = None"
  shows "fst (CreateSubscription s ps) = OK (SubscriptionResponse (withDefaults ps))"
  using assms(2-) unfolding CreateSubscription_unhandled[OF u]
  by (auto simp: Let_def withDefaults_def defaultMessageRetentionDuration_def
      maxMessageRetentionDuration_def split: if_splits option.splits)

text \<open>
  Claim C8. A \<^verbatim>\<open>CreateSubscription\<close> that no reactor takes fails with
  \<open>InvalidArgument\<close> when the name is missing, with \<open>AlreadyExists\<close> when a subscription
  of that name exists, with \<open>InvalidArgument\<close> when the topic is missing and with
  \<open>NotFound\<close> when the named topic does not exist; the checks run in this order, each
  failure leaves the server unchanged, and whenever one of the four conditions holds the
  call fails with one of these three codes. When the call succeeds, the subscription
  that is returned and registered under the name is the request with a missing
  message-retention duration set to 168 hours and a missing push config set to the empty
  push config; it succeeds whenever the name, the topic, the ack deadline and the
  (defaulted) retention duration pass their checks.
\<close>

theorem CreateSubscription_errors_and_defaults:
  "unhandled s (CreateSubscriptionReq ps) ''CreateSubscription'' \<longrightarrow>
   (sp_Name ps = [] \<longrightarrow>
      (\<exists>e. CreateSubscription s ps = (Error e, s) \<and> status_code e = InvalidArgument)) \<and>
   (sp_Name ps \<noteq> [] \<and> subs s (sp_Name ps) \<noteq> None \<longrightarrow>
      (\<exists>e. CreateSubscription s ps = (Error e, s) \<and> status_code e = AlreadyExists)) \<and>
   (sp_Name ps \<noteq> [] \<and> subs s (sp_Name ps) = None \<and> sp_Topic ps = [] \<longrightarrow>
      (\<exists>e. CreateSubscription s ps = (Error e, s) \<and> status_code e = InvalidArgument)) \<and>
   (sp_Name ps \<noteq> [] \<and> subs s (sp_Name ps) = None \<and> sp_Topic ps \<noteq> [] \<and>
    topics s (sp_Topic ps) = None \<longrightarrow>
      (\<exists>e. CreateSubscription s ps = (Error e, s) \<and> status_code e = NotFound)) \<and>
   (sp_Name ps = [] \<or> subs s (sp_Name ps) \<noteq> None \<or> sp_Topic ps = [] \<or>
    topics s (sp_Topic ps) = None \<longrightarrow>
      (\<exists>e. CreateSubscription s ps = (Error e, s) \<and>
           status_code e \<in> {InvalidArgument, AlreadyExists, NotFound})) \<and>
   (sp_Name ps \<noteq> [] \<and> subs s (sp_Name ps) = None \<and> sp_Topic ps \<noteq> [] \<and>
    topics s (sp_Topic ps) \<noteq> None \<and>
    checkAckDeadline (minAckDeadlineSecs s) (sp_AckDeadlineSeconds ps) = None \<and>
    checkMRD (sp_MessageRetentionDuration (withDefaults ps)) = None \<longrightarrow>
      fst (CreateSubscription s ps) = OK (SubscriptionResponse (withDefaults ps))) \<and>
   (\<forall>r s'. CreateSubscription s ps = (OK r, s') \<longrightarrow>
      r = SubscriptionResponse (withDefaults ps) \<and>
      sp_MessageRetentionDuration (withDefaults ps) =
        (if sp_MessageRetentionDuration ps = None then Some (168 * Hour)
         else sp_MessageRetentionDuration ps) \<and>
      sp_PushConfig (withDefaults ps) =
        (if sp_PushConfig ps = None then Some emptyPushConfig else sp_PushConfig ps) \<and>
      subs s (sp_Name ps) = None \<and>
      (\<exists>sub. subs s' (sp_Name ps) = Some sub \<and> sub_proto sub = withDefaults ps \<and>
             sub_msgs sub = Map.empty))"
proof (intro impI)
  assume u: "unhandled s (CreateSubscriptionReq ps) ''CreateSubscription''"
  note eq = CreateSubscription_unhandled[OF u]
  have 1: "sp_Name ps = [] \<longrightarrow>
      (\<exists>e. CreateSubscription s ps = (Error e, s) \<and> status_code e = InvalidArgument)"
    unfolding eq by simp
  have 2: "sp_Name ps \<noteq> [] \<and> subs s (sp_Name ps) \<noteq> None \<longrightarrow>
      (\<exists>e. CreateSubscription s ps = (Error e, s) \<and> status_code e = AlreadyExists)"
    unfolding eq by auto
  have 3: "sp_Name ps \<noteq> [] \<and> subs s (sp_Name ps) = None \<and> sp_Topic ps = [] \<longrightarrow>
      (\<exists>e. CreateSubscription s ps = (Error e, s) \<and> status_code e = InvalidArgument)"
    unfolding eq by simp
  have 4: "sp_Name ps \<noteq> [] \<and> subs s (sp_Name ps) = None \<and> sp_Topic ps \<noteq> [] \<and>
    topics s (sp_Topic ps) = None \<longrightarrow>
      (\<exists>e. CreateSubscription s ps = (Error e, s) \<and> status_code e = NotFound)"
    unfolding eq by simp
  have 5: "sp_Name ps = [] \<or> subs s (sp_Name ps) \<noteq> None \<or> sp_Topic ps = [] \<or>
    topics s (sp_Topic ps) = None \<longrightarrow>
      (\<exists>e. CreateSubscription s ps = (Error e, s) \<and>
           status_code e \<in> {InvalidArgument, AlreadyExists, NotFound})"
    unfolding eq by auto
  have 6: "sp_Name ps \<noteq> [] \<and> subs s (sp_Name ps) = None \<and> sp_Topic ps \<noteq> [] \<and>
    topics s (sp_Topic ps) \<noteq> None \<and>
    checkAckDeadline (minAckDeadlineSecs s) (sp_AckDeadlineSeconds ps) = None \<and>
    checkMRD (sp_MessageRetentionDuration (withDefaults ps)) = None \<longrightarrow>
      fst (CreateSubscription s ps) = OK (SubscriptionResponse (withDefaults ps))"
    using CreateSubscription_succeeds[OF u] by blast
  have 7: "\<forall>r s'. CreateSubscription s ps = (OK r, s') \<longrightarrow>
      r = SubscriptionResponse (withDefaults ps) \<and>
      sp_MessageRetentionDuration (withDefaults ps) =
        (if sp_MessageRetentionDuration ps = None then Some (168 * Hour)
         else sp_MessageRetentionDuration ps) \<and>
      sp_PushConfig (withDefaults ps) =
        (if sp_PushConfig ps = None then Some emptyPushConfig else sp_PushConfig ps) \<and>
      subs s (sp_Name ps) = None \<and>
      (\<exists>sub. subs s' (sp_Name ps) = Some sub \<and> sub_proto sub = withDefaults ps \<and>
             sub_msgs sub = Map.empty)"
    using CreateSubscription_OK[OF u]
    by (auto simp: withDefaults_def newSubscription_def Let_def)
  from 1 2 3 4 5 6 7 show "(sp_Name ps = [] \<longrightarrow>
      (\<exists>e. CreateSubscription s ps = (Error e, s) \<and> status_code e = InvalidArgument)) \<and>
   (sp_Name ps \<noteq> [] \<and> subs s (sp_Name ps) \<noteq> None \<longrightarrow>
      (\<exists>e. CreateSubscription s ps = (Error e, s) \<and> status_code e = AlreadyExists)) \<and>
   (sp_Name ps \<noteq> [] \<and> subs s (sp_Name ps) = None \<and> sp_Topic ps = [] \<longrightarrow>
      (\<exists>e. CreateSubscription s ps = (Error e, s) \<and> status_code e = InvalidArgument)) \<and>
   (sp_Name ps \<noteq> [] \<and> subs s (sp_Name ps) = None \<and> sp_Topic ps \<noteq> [] \<and>
    topics s (sp_Topic ps) = None \<longrightarrow>
      (\<exists>e. CreateSubscription s ps = (Error e, s) \<and> status_code e = NotFound)) \<and>
   (sp_Name ps = [] \<or> subs s (sp_Name ps) \<noteq> None \<or> sp_Topic ps = [] \<or>
    topics s (sp_Topic ps) = None \<longrightarrow>
      (\<exists>e. CreateSubscription s ps = (Error e, s) \<and>
           status_code e \<in> {InvalidArgument, AlreadyExists, NotFound})) \<and>
   (sp_Name ps \<noteq> [] \<and> subs s (sp_Name ps) = None \<and> sp_Topic ps \<noteq> [] \<and>
    topics s (sp_Topic ps) \<noteq> None \<and>
    checkAckDeadline (minAckDeadlineSecs s) (sp_AckDeadlineSeconds ps) = None \<and>
    checkMRD (sp_MessageRetentionDuration (withDefaults ps)) = None \<longrightarrow>
      fst (CreateSubscription s ps) = OK (SubscriptionResponse (withDefaults ps))) \<and>
   (\<forall>r s'. CreateSubscription s ps = (OK r, s') \<longrightarrow>
      r = SubscriptionResponse (withDefaults ps) \<and>
      sp_MessageRetentionDuration (withDefaults ps) =
        (if sp_MessageRetentionDuration ps = None then Some (168 * Hour)
         else sp_MessageRetentionDuration ps) \<and>
      sp_PushConfig (withDefaults ps) =
        (if sp_PushConfig ps = None then Some emptyPushConfig else sp_PushConfig ps) \<and>
      subs s (sp_Name ps) = None \<and>
      (\<exists>sub. subs s' (sp_Name ps) = Some sub \<and> sub_proto sub = withDefaults ps \<and>
             sub_msgs sub = Map.empty))"
    by blast
qed

theorem CreateSubscription_errors_and_defaults_witness:
  "(\<exists>e. CreateSubscription server_t (subscription_s\<lparr>sp_Topic := ''u''\<rparr>) = (Error e, server_t) \<and>
        status_code e = NotFound) \<and>
   (\<exists>e. CreateSubscription server_t (subscription_s\<lparr>sp_Name := []\<rparr>) = (Error e, server_t) \<and>
        status_code e = InvalidArgument) \<and>
   fst (CreateSubscription server_t subscription_s) =
     OK (SubscriptionResponse (subscription_s\<lparr>sp_MessageRetentionDuration := Some (168 * Hour),
           sp_PushConfig := Some emptyPushConfig\<rparr>))"
  using CreateSubscription_errors_and_defaults[of server_t "subscription_s\<lparr>sp_Topic := ''u''\<rparr>"]
    CreateSubscription_errors_and_defaults[of server_t "subscription_s\<lparr>sp_Name := []\<rparr>"]
    CreateSubscription_errors_and_defaults[of server_t subscription_s]
  by (simp add: unhandled_def server_t_def NewServer_def subscription_s_def
      emptySubscription_pb_def withDefaults_def checkAckDeadline_None checkMRD_def
      AsDuration_def minMessageRetentionDuration_def maxMessageRetentionDuration_def
      Hour_def Minute_def Second_def)

subsection \<open>Field-masked updates\<close>

lemma UpdateTopic_unhandled:
  assumes "unhandled s (UpdateTopicReq req) ''UpdateTopic''"
    and "ut_Topic req = Some rt" and "topics s (tp_Name rt) = Some t"
    and "ut_UpdateMask req = Some paths"
    and "updateTopicPaths rt paths (t_proto t) = (e, p)"
  shows "UpdateTopic s req =
     ((case e of Some st \<Rightarrow> Error st | None \<Rightarrow> OK (TopicResponse p)),
      s\<lparr>topics := (topics s)(tp_Name rt \<mapsto> t\<lparr>t_proto := p\<rparr>)\<rparr>)"
  using assms by (simp add: UpdateTopic_def runReactor_unhandled)

lemma UpdateSubscription_unhandled:
  assumes "unhandled s (UpdateSubscriptionReq req) ''UpdateSubscription''"
    and "us_Subscription req = Some rs" and "sp_Name rs \<noteq> []"
    and "subs s (sp_Name rs) = Some sub" and "us_UpdateMask req = Some paths"
    and "updateSubscriptionPaths (minAckDeadlineSecs s) rs paths (sub_proto sub) = (e, p)"
  shows "UpdateSubscription s req =
     ((case e of Some st \<Rightarrow> Error st | None \<Rightarrow> OK (SubscriptionResponse p)),
      s\<lparr>subs := (subs s)(sp_Name rs \<mapsto> sub\<lparr>sub_proto := p\<rparr>)\<rparr>)"
  using assms
  by (simp add: UpdateSubscription_def runReactor_unhandled findSubscription_def)

lemma updateTopicPath_fields:
  "updateTopicPath rt a p = Inr p' \<Longrightarrow>
   tp_Name p' = tp_Name p \<and>
   tp_Labels p' = (if a = ''labels'' then tp_Labels rt else tp_Labels p) \<and>
   tp_MessageStoragePolicy p' =
     (if a = ''message_storage_policy'' then tp_MessageStoragePolicy rt
      else tp_MessageStoragePolicy p)"
  by (auto simp: updateTopicPath_def split: if_splits)

lemma updateTopicPaths_fields:
  "fst (updateTopicPaths rt pre p) = None \<Longrightarrow>
   tp_Name (snd (updateTopicPaths rt pre p)) = tp_Name p \<and>
   tp_Labels (snd (updateTopicPaths rt pre p)) =
     (if ''labels'' \<in> set pre then tp_Labels rt else tp_Labels p) \<and>
   tp_MessageStoragePolicy (snd (updateTopicPaths rt pre p)) =
     (if ''message_storage_policy'' \<in> set pre then tp_MessageStoragePolicy rt
      else tp_MessageStoragePolicy p)"
proof (induction pre arbitrary: p)
  case Nil
  then show ?case by simp
next
  case (Cons a pre)
  from Cons.prems obtain p' where p': "updateTopicPath rt a p = Inr p'"
    by (cases "updateTopicPath rt a p") auto
  with Cons.prems have "fst (updateTopicPaths rt pre p') = None"
    by simp
  from Cons.IH[OF this] updateTopicPath_fields[OF p'] p' show ?case
    by (simp split: if_splits)
qed

lemma updateTopicPaths_first_invalid:
  assumes "fst (updateTopicPaths rt pre p) = None"
    and "bad \<noteq> ''labels''" and "bad \<noteq> ''message_storage_policy''"
  shows "updateTopicPaths rt (pre @ bad # rest) p =
     (Some (Status InvalidArgument ''unknown field name %q'' [bad]), snd (updateTopicPaths rt pre p))"
  using assms by (simp add: updateTopicPaths_append updateTopicPath_def)

lemma updateSubscriptionPaths_first_invalid:
  assumes "fst (updateSubscriptionPaths mn rs pre p) = None"
    and "updateSubscriptionPath mn rs bad (snd (updateSubscriptionPaths mn rs pre p)) = Inl e"
  shows "updateSubscriptionPaths mn rs (pre @ bad # rest) p =
     (Some e, snd (updateSubscriptionPaths mn rs pre p))"
  using assms by (simp add: updateSubscriptionPaths_append)

lemma updateSubscriptionPath_Inl:
  "updateSubscriptionPath mn rs bad p = Inl e \<Longrightarrow> status_code e \<in> {InvalidArgument, Unknown}"
  by (auto simp: updateSubscriptionPath_def checkMRD_def Let_def
      dest: checkAckDeadline_Some split: if_splits option.splits)

lemma updateSubscriptionPath_fields:
  "updateSubscriptionPath mn rs a p = Inr p' \<Longrightarrow>
   sp_Name p' = sp_Name p \<and> sp_Topic p' = sp_Topic p \<and>
   sp_PushConfig p' = (if a = ''push_config'' then sp_PushConfig rs else sp_PushConfig p) \<and>
   sp_AckDeadlineSeconds p' =
     (if a = ''ack_deadline_seconds'' then sp_AckDeadlineSeconds rs else sp_AckDeadlineSeconds p) \<and>
   sp_RetainAckedMessages p' =
     (if a = ''retain_acked_messages'' then sp_RetainAckedMessages rs else sp_RetainAckedMessages p) \<and>
   sp_MessageRetentionDuration p' =
     (if a = ''message_retention_duration'' then sp_MessageRetentionDuration rs
      else sp_MessageRetentionDuration p) \<and>
   sp_Labels p' = (if a = ''labels'' then sp_Labels rs else sp_Labels p) \<and>
   sp_ExpirationPolicy p' =
     (if a = ''expiration_policy'' then sp_ExpirationPolicy rs else sp_ExpirationPolicy p) \<and>
   sp_DeadLetterPolicy p' =
     (if a = ''dead_letter_policy'' then sp_DeadLetterPolicy rs else sp_DeadLetterPolicy p) \<and>
   sp_RetryPolicy p' = (if a = ''retry_policy'' then sp_RetryPolicy rs else sp_RetryPolicy p) \<and>
   sp_Filter p' = (if a = ''filter'' then sp_Filter rs else sp_Filter p)"
  unfolding updateSubscriptionPath_def
  by (auto split: if_splits option.splits)

lemma updateSubscriptionPaths_field:
  assumes step: "\<And>a p p'. updateSubscriptionPath mn rs a p = Inr p' \<Longrightarrow>
                   f p' = (if a = n then f rs else f p)"
    and "fst (updateSubscriptionPaths mn rs pre p) = None"
  shows "f (snd (updateSubscriptionPaths mn rs pre p)) = (if n \<in> set pre then f rs else f p)"
  using assms(2)
proof (induction pre arbitrary: p)
  case Nil
  then show ?case by simp
next
  case (Cons a pre)
  from Cons.prems obtain p' where p': "updateSubscriptionPath mn rs a p = Inr p'"
    by (cases "updateSubscriptionPath mn rs a p") auto
  with Cons.prems have "fst (updateSubscriptionPaths mn rs pre p') = None"
    by simp
  from Cons.IH[OF this] step[OF p'] p' show ?case
    by auto
qed

lemma updateSubscriptionPaths_fields:
  assumes "fst (updateSubscriptionPaths mn rs pre p) = None"
  shows "sp_PushConfig (snd (updateSubscriptionPaths mn rs pre p)) =
     (if ''push_config'' \<in> set pre then sp_PushConfig rs else sp_PushConfig p)"
  and "sp_AckDeadlineSeconds (snd (updateSubscriptionPaths mn rs pre p)) =
     (if ''ack_deadline_seconds'' \<in> set pre then sp_AckDeadlineSeconds rs
      else sp_AckDeadlineSeconds p)"
  and "sp_RetainAckedMessages (snd (updateSubscriptionPaths mn rs pre p)) =
     (if ''retain_acked_messages'' \<in> set pre then sp_RetainAckedMessages rs
      else sp_RetainAckedMessages p)"
  and "sp_MessageRetentionDuration (snd (updateSubscriptionPaths mn rs pre p)) =
     (if ''message_retention_duration'' \<in> set pre then sp_MessageRetentionDuration rs
      else sp_MessageRetentionDuration p)"
  and "sp_Labels (snd (updateSubscriptionPaths mn rs pre p)) =
     (if ''labels'' \<in> set pre then sp_Labels rs else sp_Labels p)"
  and "sp_ExpirationPolicy (snd (updateSubscriptionPaths mn rs pre p)) =
     (if ''expiration_policy'' \<in> set pre then sp_ExpirationPolicy rs else sp_ExpirationPolicy p)"
  and "sp_DeadLetterPolicy (snd (updateSubscriptionPaths mn rs pre p)) =
     (if ''dead_letter_policy'' \<in> set pre then sp_DeadLetterPolicy rs else sp_DeadLetterPolicy p)"
  and "sp_RetryPolicy (snd (updateSubscriptionPaths mn rs pre p)) =
     (if ''retry_policy'' \<in> set pre then sp_RetryPolicy rs else sp_RetryPolicy p)"
  and "sp_Filter (snd (updateSubscriptionPaths mn rs pre p)) =
     (if ''filter'' \<in> set pre then sp_Filter rs else sp_Filter p)"
  by (rule updateSubscriptionPaths_field[OF _ assms], simp add: updateSubscriptionPath_fields)+

lemma updateTopicPath_Inl_iff:
  "updateTopicPath rt a p = Inl e \<longleftrightarrow>
     a \<noteq> ''labels'' \<and> a \<noteq> ''message_storage_policy'' \<and>
     e = Status InvalidArgument ''unknown field name %q'' [a]"
  by (auto simp: updateTopicPath_def)

lemma updateSubscriptionPath_Inl_iff:
  "updateSubscriptionPath mn rs a p = Inl e \<longleftrightarrow>
     (a = ''ack_deadline_seconds'' \<and>
      (sint (sp_AckDeadlineSeconds rs) < sint mn \<or> 600 < sint (sp_AckDeadlineSeconds rs)) \<and>
      e = Status Unknown ''bad ack_deadline_seconds: %d'' [fmt_d (sint (sp_AckDeadlineSeconds rs))]) \<or>
     (a = ''message_retention_duration'' \<and>
      (AsDuration (sp_MessageRetentionDuration rs) < 10 * Minute \<or>
       168 * Hour < AsDuration (sp_MessageRetentionDuration rs)) \<and>
      e = Status InvalidArgument ''bad message_retention_duration %+v'' []) \<or>
     (a \<notin> {''push_config'', ''ack_deadline_seconds'', ''retain_acked_messages'',
            ''message_retention_duration'', ''labels'', ''expiration_policy'',
            ''dead_letter_policy'', ''retry_policy'', ''filter''} \<and>
      e = Status InvalidArgument ''unknown field name %q'' [a])"
proof -
  have ad: "checkAckDeadline mn (sp_AckDeadlineSeconds rs) =
      (if sint (sp_AckDeadlineSeconds rs) < sint mn \<or> 600 < sint (sp_AckDeadlineSeconds rs)
       then Some (Status Unknown ''bad ack_deadline_seconds: %d'' [fmt_d (sint (sp_AckDeadlineSeconds rs))])
       else None)"
    by (simp add: checkAckDeadline_def word_sless_alt)
  have mrd: "checkMRD (sp_MessageRetentionDuration rs) =
      (if AsDuration (sp_MessageRetentionDuration rs) < 10 * Minute \<or>
          168 * Hour < AsDuration (sp_MessageRetentionDuration rs)
       then Some (Status InvalidArgument ''bad message_retention_duration %+v'' [])
       else None)"
    by (simp add: checkMRD_def Let_def minMessageRetentionDuration_def maxMessageRetentionDuration_def)
  show ?thesis
  proof (cases "a = ''ack_deadline_seconds''")
    case True
    then show ?thesis by (auto simp: updateSubscriptionPath_def ad)
  next
    case False
    note n1 = this
    show ?thesis
    proof (cases "a = ''message_retention_duration''")
      case True
      then show ?thesis by (auto simp: updateSubscriptionPath_def mrd)
    next
      case False
      note n2 = this
      show ?thesis
      proof (cases "a = ''push_config'' \<or> a = ''retain_acked_messages'' \<or> a = ''labels'' \<or>
                    a = ''expiration_policy'' \<or> a = ''dead_letter_policy'' \<or>
                    a = ''retry_policy'' \<or> a = ''filter''")
        case True
        then show ?thesis
          by (elim disjE) (simp_all add: updateSubscriptionPath_def)
      next
        case False
        with n1 n2 show ?thesis
          by (simp add: updateSubscriptionPath_def) blast
      qed
    qed
  qed
qed

text \<open>
  Claim C4, as amended. An \<^verbatim>\<open>UpdateTopic\<close> or \<^verbatim>\<open>UpdateSubscription\<close> whose mask holds
  an invalid path returns an error at the first such path: \<open>InvalidArgument\<close> for an
  unknown field name or a bad retention duration, \<open>Unknown\<close> for a bad ack deadline
  (the last two conjuncts say which path of a mask is invalid, and with which error).
  The paths before it have been applied to the stored topic or subscription and stay
  applied (each field named before the invalid path holds the value of the request, each
  other field its old value); the invalid path and the paths after it are not applied.
  The server is unchanged when no path stands before the invalid one.
\<close>

theorem update_stops_at_first_invalid_path:
  "(unhandled s (UpdateTopicReq treq) ''UpdateTopic'' \<and>
    ut_Topic treq = Some rt \<and> topics s (tp_Name rt) = Some t \<and>
    ut_UpdateMask treq = Some (tpre @ tbad # trest) \<and>
    fst (updateTopicPaths rt tpre (t_proto t)) = None \<and>
    tbad \<noteq> ''labels'' \<and> tbad \<noteq> ''message_storage_policy'' \<longrightarrow>
      UpdateTopic s treq =
        (Error (Status InvalidArgument ''unknown field name %q'' [tbad]),
         s\<lparr>topics := (topics s)(tp_Name rt \<mapsto>
              t\<lparr>t_proto := snd (updateTopicPaths rt tpre (t_proto t))\<rparr>)\<rparr>) \<and>
      tp_Name (snd (updateTopicPaths rt tpre (t_proto t))) = tp_Name (t_proto t) \<and>
      tp_Labels (snd (updateTopicPaths rt tpre (t_proto t))) =
        (if ''labels'' \<in> set tpre then tp_Labels rt else tp_Labels (t_proto t)) \<and>
      tp_MessageStoragePolicy (snd (updateTopicPaths rt tpre (t_proto t))) =
        (if ''message_storage_policy'' \<in> set tpre then tp_MessageStoragePolicy rt
         else tp_MessageStoragePolicy (t_proto t)) \<and>
      (tpre = [] \<longrightarrow> snd (UpdateTopic s treq) = s)) \<and>
   (unhandled s (UpdateSubscriptionReq sreq) ''UpdateSubscription'' \<and>
    us_Subscription sreq = Some rs \<and> sp_Name rs \<noteq> [] \<and> subs s (sp_Name rs) = Some sub \<and>
    us_UpdateMask sreq = Some (spre @ sbad # srest) \<and>
    fst (updateSubscriptionPaths (minAckDeadlineSecs s) rs spre (sub_proto sub)) = None \<and>
    updateSubscriptionPath (minAckDeadlineSecs s) rs sbad
      (snd (updateSubscriptionPaths (minAckDeadlineSecs s) rs spre (sub_proto sub))) = Inl e \<longrightarrow>
      UpdateSubscription s sreq =
        (Error e,
         s\<lparr>subs := (subs s)(sp_Name rs \<mapsto>
              sub\<lparr>sub_proto :=
                snd (updateSubscriptionPaths (minAckDeadlineSecs s) rs spre (sub_proto sub))\<rparr>)\<rparr>) \<and>
      status_code e \<in> {InvalidArgument, Unknown} \<and>
      ((sbad = ''ack_deadline_seconds'' \<and>
        (sint (sp_AckDeadlineSeconds rs) < sint (minAckDeadlineSecs s) \<or>
         600 < sint (sp_AckDeadlineSeconds rs)) \<and>
        e = Status Unknown ''bad ack_deadline_seconds: %d''
              [fmt_d (sint (sp_AckDeadlineSeconds rs))]) \<or>
       (sbad = ''message_retention_duration'' \<and>
        (AsDuration (sp_MessageRetentionDuration rs) < 10 * Minute \<or>
         168 * Hour < AsDuration (sp_MessageRetentionDuration rs)) \<and>
        e = Status InvalidArgument ''bad message_retention_duration %+v'' []) \<or>
       (sbad \<notin> {''push_config'', ''ack_deadline_seconds'', ''retain_acked_messages'',
             ''message_retention_duration'', ''labels'', ''expiration_policy'',
             ''dead_letter_policy'', ''retry_policy'', ''filter''} \<and>
        e = Status InvalidArgument ''unknown field name %q'' [sbad])) \<and>
      sp_PushConfig (snd (updateSubscriptionPaths (minAckDeadlineSecs s) rs spre (sub_proto sub))) =
        (if ''push_config'' \<in> set spre then sp_PushConfig rs else sp_PushConfig (sub_proto sub)) \<and>
      sp_AckDeadlineSeconds (snd (updateSubscriptionPaths (minAckDeadlineSecs s) rs spre (sub_proto sub))) =
        (if ''ack_deadline_seconds'' \<in> set spre then sp_AckDeadlineSeconds rs
         else sp_AckDeadlineSeconds (sub_proto sub)) \<and>
      sp_RetainAckedMessages (snd (updateSubscriptionPaths (minAckDeadlineSecs s) rs spre (sub_proto sub))) =
        (if ''retain_acked_messages'' \<in> set spre then sp_RetainAckedMessages rs
         else sp_RetainAckedMessages (sub_proto sub)) \<and>
      sp_MessageRetentionDuration (snd (updateSubscriptionPaths (minAckDeadlineSecs s) rs spre (sub_proto sub))) =
        (if ''message_retention_duration'' \<in> set spre then sp_MessageRetentionDuration rs
         else sp_MessageRetentionDuration (sub_proto sub)) \<and>
      sp_Labels (snd (updateSubscriptionPaths (minAckDeadlineSecs s) rs spre (sub_proto sub))) =
        (if ''labels'' \<in> set spre then sp_Labels rs else sp_Labels (sub_proto sub)) \<and>
      sp_ExpirationPolicy (snd (updateSubscriptionPaths (minAckDeadlineSecs s) rs spre (sub_proto sub))) =
        (if ''expiration_policy'' \<in> set spre then sp_ExpirationPolicy rs
         else sp_ExpirationPolicy (sub_proto sub)) \<and>
      sp_DeadLetterPolicy (snd (updateSubscriptionPaths (minAckDeadlineSecs s) rs spre (sub_proto sub))) =
        (if ''dead_letter_policy'' \<in> set spre then sp_DeadLetterPolicy rs
         else sp_DeadLetterPolicy (sub_proto sub)) \<and>
      sp_RetryPolicy (snd (updateSubscriptionPaths (minAckDeadlineSecs s) rs spre (sub_proto sub))) =
        (if ''retry_policy'' \<in> set spre then sp_RetryPolicy rs else sp_RetryPolicy (sub_proto sub)) \<and>
      sp_Filter (snd (updateSubscriptionPaths (minAckDeadlineSecs s) rs spre (sub_proto sub))) =
        (if ''filter'' \<in> set spre then sp_Filter rs else sp_Filter (sub_proto sub)) \<and>
      (spre = [] \<longrightarrow> snd (UpdateSubscription s sreq) = s)) \<and>
   (updateTopicPath rt' a tp = Inl te \<longleftrightarrow>
      a \<noteq> ''labels'' \<and> a \<noteq> ''message_storage_policy'' \<and>
      te = Status InvalidArgument ''unknown field name %q'' [a]) \<and>
   (updateSubscriptionPath mn rs' a sp = Inl se \<longleftrightarrow>
      (a = ''ack_deadline_seconds'' \<and>
       (sint (sp_AckDeadlineSeconds rs') < sint mn \<or> 600 < sint (sp_AckDeadlineSeconds rs')) \<and>
       se = Status Unknown ''bad ack_deadline_seconds: %d''
              [fmt_d (sint (sp_AckDeadlineSeconds rs'))]) \<or>
      (a = ''message_retention_duration'' \<and>
       (AsDuration (sp_MessageRetentionDuration rs') < 10 * Minute \<or>
        168 * Hour < AsDuration (sp_MessageRetentionDuration rs')) \<and>
       se = Status InvalidArgument ''bad message_retention_duration %+v'' []) \<or>
      (a \<notin> {''push_config'', ''ack_deadline_seconds'', ''retain_acked_messages'',
             ''message_retention_duration'', ''labels'', ''expiration_policy'',
             ''dead_letter_policy'', ''retry_policy'', ''filter''} \<and>
       se = Status InvalidArgument ''unknown field name %q'' [a]))"
proof (intro conjI impI; (elim conjE)?)
  show "updateTopicPath rt' a tp = Inl te \<longleftrightarrow>
      a \<noteq> ''labels'' \<and> a \<noteq> ''message_storage_policy'' \<and>
      te = Status InvalidArgument ''unknown field name %q'' [a]"
    by (rule updateTopicPath_Inl_iff)
  show "updateSubscriptionPath mn rs' a sp = Inl se \<longleftrightarrow>
      (a = ''ack_deadline_seconds'' \<and>
       (sint (sp_AckDeadlineSeconds rs') < sint mn \<or> 600 < sint (sp_AckDeadlineSeconds rs')) \<and>
       se = Status Unknown ''bad ack_deadline_seconds: %d''
              [fmt_d (sint (sp_AckDeadlineSeconds rs'))]) \<or>
      (a = ''message_retention_duration'' \<and>
       (AsDuration (sp_MessageRetentionDuration rs') < 10 * Minute \<or>
        168 * Hour < AsDuration (sp_MessageRetentionDuration rs')) \<and>
       se = Status InvalidArgument ''bad message_retention_duration %+v'' []) \<or>
      (a \<notin> {''push_config'', ''ack_deadline_seconds'', ''retain_acked_messages'',
             ''message_retention_duration'', ''labels'', ''expiration_policy'',
             ''dead_letter_policy'', ''retry_policy'', ''filter''} \<and>
       se = Status InvalidArgument ''unknown field name %q'' [a])"
    by (rule updateSubscriptionPath_Inl_iff)
next
  assume u: "unhandled s (UpdateTopicReq treq) ''UpdateTopic''"
    and rt: "ut_Topic treq = Some rt" and t: "topics s (tp_Name rt) = Some t"
    and m: "ut_UpdateMask treq = Some (tpre @ tbad # trest)"
    and pre: "fst (updateTopicPaths rt tpre (t_proto t)) = None"
    and bad: "tbad \<noteq> ''labels''" "tbad \<noteq> ''message_storage_policy''"
  show eq: "UpdateTopic s treq =
        (Error (Status InvalidArgument ''unknown field name %q'' [tbad]),
         s\<lparr>topics := (topics s)(tp_Name rt \<mapsto>
              t\<lparr>t_proto := snd (updateTopicPaths rt tpre (t_proto t))\<rparr>)\<rparr>)"
    by (simp add: UpdateTopic_unhandled[OF u rt t m updateTopicPaths_first_invalid[OF pre bad]])
  show "tp_Name (snd (updateTopicPaths rt tpre (t_proto t))) = tp_Name (t_proto t)"
    and "tp_Labels (snd (updateTopicPaths rt tpre (t_proto t))) =
        (if ''labels'' \<in> set tpre then tp_Labels rt else tp_Labels (t_proto t))"
    and "tp_MessageStoragePolicy (snd (updateTopicPaths rt tpre (t_proto t))) =
        (if ''message_storage_policy'' \<in> set tpre then tp_MessageStoragePolicy rt
         else tp_MessageStoragePolicy (t_proto t))"
    using updateTopicPaths_fields[OF pre] by simp_all
  show "snd (UpdateTopic s treq) = s" if "tpre = []"
    using that t by (simp add: eq map_upd_triv)
next
  assume u: "unhandled s (UpdateSubscriptionReq sreq) ''UpdateSubscription''"
    and rs: "us_Subscription sreq = Some rs" "sp_Name rs \<noteq> []"
    and sub: "subs s (sp_Name rs) = Some sub"
    and m: "us_UpdateMask sreq = Some (spre @ sbad # srest)"
    and pre: "fst (updateSubscriptionPaths (minAckDeadlineSecs s) rs spre (sub_proto sub)) = None"
    and bad: "updateSubscriptionPath (minAckDeadlineSecs s) rs sbad
      (snd (updateSubscriptionPaths (minAckDeadlineSecs s) rs spre (sub_proto sub))) = Inl e"
  show eq: "UpdateSubscription s sreq =
        (Error e,
         s\<lparr>subs := (subs s)(sp_Name rs \<mapsto>
              sub\<lparr>sub_proto :=
                snd (updateSubscriptionPaths (minAckDeadlineSecs s) rs spre (sub_proto sub))\<rparr>)\<rparr>)"
    by (simp add: UpdateSubscription_unhandled[OF u rs sub m
          updateSubscriptionPaths_first_invalid[OF pre bad]])
  show "status_code e \<in> {InvalidArgument, Unknown}"
    using bad by (rule updateSubscriptionPath_Inl)
  show "(sbad = ''ack_deadline_seconds'' \<and>
        (sint (sp_AckDeadlineSeconds rs) < sint (minAckDeadlineSecs s) \<or>
         600 < sint (sp_AckDeadlineSeconds rs)) \<and>
        e = Status Unknown ''bad ack_deadline_seconds: %d''
              [fmt_d (sint (sp_AckDeadlineSeconds rs))]) \<or>
       (sbad = ''message_retention_duration'' \<and>
        (AsDuration (sp_MessageRetentionDuration rs) < 10 * Minute \<or>
         168 * Hour < AsDuration (sp_MessageRetentionDuration rs)) \<and>
        e = Status InvalidArgument ''bad message_retention_duration %+v'' []) \<or>
       (sbad \<notin> {''push_config'', ''ack_deadline_seconds'', ''retain_acked_messages'',
             ''message_retention_duration'', ''labels'', ''expiration_policy'',
             ''dead_letter_policy'', ''retry_policy'', ''filter''} \<and>
        e = Status InvalidArgument ''unknown field name %q'' [sbad])"
    using bad by (simp only: updateSubscriptionPath_Inl_iff)
  show "snd (UpdateSubscription s sreq) = s" if "spre = []"
    using that sub by (simp add: eq map_upd_triv)
  note f = updateSubscriptionPaths_fields[OF pre]
  show "sp_PushConfig (snd (updateSubscriptionPaths (minAckDeadlineSecs s) rs spre (sub_proto sub))) =
        (if ''push_config'' \<in> set spre then sp_PushConfig rs else sp_PushConfig (sub_proto sub))"
    using f by simp
  show "sp_AckDeadlineSeconds (snd (updateSubscriptionPaths (minAckDeadlineSecs s) rs spre (sub_proto sub))) =
        (if ''ack_deadline_seconds'' \<in> set spre then sp_AckDeadlineSeconds rs
         else sp_AckDeadlineSeconds (sub_proto sub))"
    using f by simp
  show "sp_RetainAckedMessages (snd (updateSubscriptionPaths (minAckDeadlineSecs s) rs spre (sub_proto sub))) =
        (if ''retain_acked_messages'' \<in> set spre then sp_RetainAckedMessages rs
         else sp_RetainAckedMessages (sub_proto sub))"
    using f by simp
  show "sp_MessageRetentionDuration (snd (updateSubscriptionPaths (minAckDeadlineSecs s) rs spre (sub_proto sub))) =
        (if ''message_retention_duration'' \<in> set spre then sp_MessageRetentionDuration rs
         else sp_MessageRetentionDuration (sub_proto sub))"
    using f by simp
  show "sp_Labels (snd (updateSubscriptionPaths (minAckDeadlineSecs s) rs spre (sub_proto sub))) =
        (if ''labels'' \<in> set spre then sp_Labels rs else sp_Labels (sub_proto sub))"
    using f by simp
  show "sp_ExpirationPolicy (snd (updateSubscriptionPaths (minAckDeadlineSecs s) rs spre (sub_proto sub))) =
        (if ''expiration_policy'' \<in> set spre then sp_ExpirationPolicy rs
         else sp_ExpirationPolicy (sub_proto sub))"
    using f by simp
  show "sp_DeadLetterPolicy (snd (updateSubscriptionPaths (minAckDeadlineSecs s) rs spre (sub_proto sub))) =
        (if ''dead_letter_policy'' \<in> set spre then sp_DeadLetterPolicy rs
         else sp_DeadLetterPolicy (sub_proto sub))"
    using f by simp
  show "sp_RetryPolicy (snd (updateSubscriptionPaths (minAckDeadlineSecs s) rs spre (sub_proto sub))) =
        (if ''retry_policy'' \<in> set spre then sp_RetryPolicy rs else sp_RetryPolicy (sub_proto sub))"
    using f by simp
  show "sp_Filter (snd (updateSubscriptionPaths (minAckDeadlineSecs s) rs spre (sub_proto sub))) =
        (if ''filter'' \<in> set spre then sp_Filter rs else sp_Filter (sub_proto sub))"
    using f by simp
qed

theorem update_stops_at_first_invalid_path_witness:
  "UpdateTopic server_t updateTopic_labels_bogus =
     (Error (Status InvalidArgument ''unknown field name %q'' [''bogus'']),
      server_t\<lparr>topics := [''t'' \<mapsto> newTopic (topic_t\<lparr>tp_Labels := [(''k'', ''v'')]\<rparr>)]\<rparr>) \<and>
   UpdateSubscription server_ts updateSubscription_labels_deadline =
     (Error (Status Unknown ''bad ack_deadline_seconds: %d'' [''700'']),
      server_ts\<lparr>subs := [''s'' \<mapsto> newSubscription ''t''
                 (withDefaults subscription_s\<lparr>sp_Labels := [(''k'', ''v'')]\<rparr>)]\<rparr>)"
  using update_stops_at_first_invalid_path
    [of server_t updateTopic_labels_bogus "topic_t\<lparr>tp_Labels := [(''k'', ''v'')]\<rparr>"
        "newTopic topic_t" "[''labels'']" "''bogus''" "[]"
        updateSubscription_labels_deadline
        "subscription_s\<lparr>sp_Labels := [(''k'', ''v'')], sp_AckDeadlineSeconds := 700\<rparr>" 
        "newSubscription ''t'' (withDefaults subscription_s)" "[''labels'']" "''ack_deadline_seconds''" "[]"
        "Status Unknown ''bad ack_deadline_seconds: %d'' [''700'']"]
     update_stops_at_first_invalid_path
    [of server_ts updateTopic_labels_bogus "topic_t\<lparr>tp_Labels := [(''k'', ''v'')]\<rparr>"
        "newTopic topic_t" "[''labels'']" "''bogus''" "[]"
        updateSubscription_labels_deadline
        "subscription_s\<lparr>sp_Labels := [(''k'', ''v'')], sp_AckDeadlineSeconds := 700\<rparr>" 
        "newSubscription ''t'' (withDefaults subscription_s)" "[''labels'']" "''ack_deadline_seconds''" "[]"
        "Status Unknown ''bad ack_deadline_seconds: %d'' [''700'']"]
  by (simp add: unhandled_def server_t_def server_ts_def NewServer_def updateTopic_labels_bogus_def
      updateSubscription_labels_deadline_def topic_t_def subscription_s_def newTopic_def
      newSubscription_def withDefaults_def emptySubscription_pb_def updateTopicPath_def
      updateSubscriptionPath_def checkAckDeadline_def fmt_d_def digit_char_def char_of_def
      bit_Suc_0_iff)

text \<open>
  Claim C4, as stated, fails: the update of \<^verbatim>\<open>t\<close> with the mask \<^verbatim>\<open>labels\<close>,
  \<^verbatim>\<open>bogus\<close> returns \<open>InvalidArgument\<close>, and the labels of the stored topic have
  changed from none to those of the request.
\<close>

theorem update_partial_counterexample:
  "fst (UpdateTopic server_t updateTopic_labels_bogus) =
     Error (Status InvalidArgument ''unknown field name %q'' [''bogus'']) \<and>
   map_option (\<lambda>t. tp_Labels (t_proto t)) (topics server_t ''t'') = Some [] \<and>
   map_option (\<lambda>t. tp_Labels (t_proto t))
     (topics (snd (UpdateTopic server_t updateTopic_labels_bogus)) ''t'') = Some [(''k'', ''v'')]"
  by (simp add: UpdateTopic_def runReactor_def server_t_def NewServer_def
      updateTopic_labels_bogus_def topic_t_def newTopic_def updateTopicPath_def)

subsection \<open>Acknowledge and ModifyAckDeadline\<close>

lemma modifyAckDeadline_pending:
  assumes "sub_msgs sub mid = Some m"
  shows "sub_msgs (modifyAckDeadline sub mid d now) mid =
           Some (m\<lparr>m_ackDeadline := (if d = 0 then 0 else now + d)\<rparr>)"
  using assms by (simp add: modifyAckDeadline_def makeAvailable_def Add_def)

lemma modifyAckDeadline_other:
  "mid' \<noteq> mid \<Longrightarrow> sub_msgs (modifyAckDeadline sub mid' d now) mid = sub_msgs sub mid"
  by (simp add: modifyAckDeadline_def split: option.splits)

lemma modifyAckDeadlines_pending:
  assumes "sub_msgs sub mid = Some m"
  shows "(mid \<notin> set ids \<and> sub_msgs (modifyAckDeadlines d clock i ids sub) mid = Some m) \<or>
         (\<exists>j < length ids. ids ! j = mid \<and>
            sub_msgs (modifyAckDeadlines d clock i ids sub) mid =
              Some (m\<lparr>m_ackDeadline := (if d = 0 then 0 else clock (i + j) + d)\<rparr>))"
  using assms
proof (induction ids arbitrary: i sub m)
  case Nil
  then show ?case by simp
next
  case (Cons a ids)
  let ?sub1 = "modifyAckDeadline sub a d (clock i)"
  show ?case
  proof (cases "a = mid")
    case True
    let ?m1 = "m\<lparr>m_ackDeadline := (if d = 0 then 0 else clock i + d)\<rparr>"
    have m1: "sub_msgs ?sub1 mid = Some ?m1"
      using True Cons.prems by (simp add: modifyAckDeadline_pending)
    from Cons.IH[OF m1, of "i + 1"] show ?thesis
    proof
      assume "mid \<notin> set ids \<and>
        sub_msgs (modifyAckDeadlines d clock (i + 1) ids ?sub1) mid = Some ?m1"
      then have "(a # ids) ! 0 = mid \<and>
          sub_msgs (modifyAckDeadlines d clock i (a # ids) sub) mid =
            Some (m\<lparr>m_ackDeadline := (if d = 0 then 0 else clock (i + 0) + d)\<rparr>)"
        using True by simp
      then show ?thesis by blast
    next
      assume "\<exists>j<length ids. ids ! j = mid \<and>
        sub_msgs (modifyAckDeadlines d clock (i + 1) ids ?sub1) mid =
          Some (?m1\<lparr>m_ackDeadline := (if d = 0 then 0 else clock (i + 1 + j) + d)\<rparr>)"
      then obtain j where j: "j < length ids" "ids ! j = mid"
        "sub_msgs (modifyAckDeadlines d clock (i + 1) ids ?sub1) mid =
          Some (?m1\<lparr>m_ackDeadline := (if d = 0 then 0 else clock (i + 1 + j) + d)\<rparr>)"
        by blast
      then have "Suc j < length (a # ids) \<and> (a # ids) ! Suc j = mid \<and>
          sub_msgs (modifyAckDeadlines d clock i (a # ids) sub) mid =
            Some (m\<lparr>m_ackDeadline := (if d = 0 then 0 else clock (i + Suc j) + d)\<rparr>)"
        by simp
      then show ?thesis by blast
    qed
  next
    case False
    have m1: "sub_msgs ?sub1 mid = Some m"
      using False Cons.prems by (simp add: modifyAckDeadline_other)
    from Cons.IH[OF m1, of "i + 1"] show ?thesis
    proof
      assume "mid \<notin> set ids \<and>
        sub_msgs (modifyAckDeadlines d clock (i + 1) ids ?sub1) mid = Some m"
      then show ?thesis using False by simp
    next
      assume "\<exists>j<length ids. ids ! j = mid \<and>
        sub_msgs (modifyAckDeadlines d clock (i + 1) ids ?sub1) mid =
          Some (m\<lparr>m_ackDeadline := (if d = 0 then 0 else clock (i + 1 + j) + d)\<rparr>)"
      then obtain j where j: "j < length ids" "ids ! j = mid"
        "sub_msgs (modifyAckDeadlines d clock (i + 1) ids ?sub1) mid =
          Some (m\<lparr>m_ackDeadline := (if d = 0 then 0 else clock (i + 1 + j) + d)\<rparr>)"
        by blast
      then have "Suc j < length (a # ids) \<and> (a # ids) ! Suc j = mid \<and>
          sub_msgs (modifyAckDeadlines d clock i (a # ids) sub) mid =
            Some (m\<lparr>m_ackDeadline := (if d = 0 then 0 else clock (i + Suc j) + d)\<rparr>)"
        by simp
      then show ?thesis by blast
    qed
  qed
qed

lemma recordModacks_Some:
  "(\<forall>mid \<in> set ids. byID mid \<noteq> None) \<Longrightarrow> \<exists>h'. recordModacks now ads ids byID h = Some h'"
  by (induction ids arbitrary: h) auto

lemma recordModacks_None:
  "mid \<in> set ids \<Longrightarrow> byID mid = None \<Longrightarrow> recordModacks now ads ids byID h = None"
  by (induction ids arbitrary: h) (auto split: option.splits)

lemma ModifyAckDeadline_unhandled:
  assumes "unhandled s (ModifyAckDeadlineReq req) ''ModifyAckDeadline''"
    and "mr_Subscription req \<noteq> []" and "subs s (mr_Subscription req) = Some sub"
  shows "ModifyAckDeadline s req wall clock =
     (case recordModacks wall (mr_AckDeadlineSeconds req) (mr_AckIds req) (msgsByID s) (heap s) of
        None \<Rightarrow> (Panic, s)
      | Some h' \<Rightarrow>
          (OK Empty,
           s\<lparr>subs := (subs s)(mr_Subscription req \<mapsto>
                modifyAckDeadlines (secsToDur (mr_AckDeadlineSeconds req)) clock 0 (mr_AckIds req) sub),
             heap := h'\<rparr>))"
  using assms
  by (simp add: ModifyAckDeadline_def runReactor_unhandled findSubscription_def Let_def
      split: option.splits)

lemma fold_ack_unknown:
  "(\<forall>i \<in> set ids. sub_msgs sub i = None) \<Longrightarrow> fold ack ids (sub, h) = (sub, h)"
  by (induction ids) (auto simp: ack_def)

lemma modifyAckDeadlines_unknown:
  "(\<forall>i \<in> set ids. sub_msgs sub i = None) \<Longrightarrow> modifyAckDeadlines d clock k ids sub = sub"
  by (induction ids arbitrary: k) (auto simp: modifyAckDeadline_def)

lemma Acknowledge_unhandled:
  assumes "unhandled s (AcknowledgeReq req) ''Acknowledge''"
    and "ar_Subscription req \<noteq> []" and "subs s (ar_Subscription req) = Some sub"
    and "fold ack (ar_AckIds req) (sub, heap s) = (sub', h')"
  shows "Acknowledge s req =
     (OK Empty, s\<lparr>subs := (subs s)(ar_Subscription req \<mapsto> sub'), heap := h'\<rparr>)"
  using assms by (simp add: Acknowledge_def runReactor_unhandled findSubscription_def)

text \<open>
  Claim C2, on the code. An \<^verbatim>\<open>Acknowledge\<close> whose ids are all unknown to the
  subscription replies \<open>Empty\<close> and leaves the server as it was. A
  \<^verbatim>\<open>ModifyAckDeadline\<close> whose ids are unknown to the subscription but known to
  \<^verbatim>\<open>msgsByID\<close> replies \<open>Empty\<close> and changes nothing but the store of messages, where
  (for a request of one id) the modification is appended to the log of the message.
  But a \<^verbatim>\<open>ModifyAckDeadline\<close> that names an id which \<^verbatim>\<open>msgsByID\<close> does not hold
  (an id that no \<^verbatim>\<open>Publish\<close> has assigned) panics: the first loop reads
  \<^verbatim>\<open>s.msgsByID[id].modacks\<close> through a nil pointer.
\<close>

theorem ModifyAckDeadline_unpublished_id_panics:
  "(unhandled s (AcknowledgeReq areq) ''Acknowledge'' \<and>
    ar_Subscription areq \<noteq> [] \<and> subs s (ar_Subscription areq) = Some sub \<and>
    (\<forall>i \<in> set (ar_AckIds areq). sub_msgs sub i = None) \<longrightarrow>
      Acknowledge s areq = (OK Empty, s)) \<and>
   (unhandled s (ModifyAckDeadlineReq req) ''ModifyAckDeadline'' \<and>
    mr_Subscription req \<noteq> [] \<and> subs s (mr_Subscription req) = Some sub \<and>
    (\<forall>i \<in> set (mr_AckIds req). sub_msgs sub i = None) \<and>
    (\<forall>i \<in> set (mr_AckIds req). msgsByID s i \<noteq> None) \<longrightarrow>
      (\<exists>h'. ModifyAckDeadline s req wall clock = (OK Empty, s\<lparr>heap := h'\<rparr>)) \<and>
      (\<forall>i a. mr_AckIds req = [i] \<and> msgsByID s i = Some a \<longrightarrow>
         ModifyAckDeadline s req wall clock =
           (OK Empty,
            s\<lparr>heap := (heap s)(a := (heap s a)\<lparr>M_modacks := M_modacks (heap s a) @
               [\<lparr>ma_ReceivedAt = wall, ma_AckID = i,
                 ma_AckDeadline = mr_AckDeadlineSeconds req\<rparr>]\<rparr>)\<rparr>))) \<and>
   (unhandled s (ModifyAckDeadlineReq req) ''ModifyAckDeadline'' \<and>
    mr_Subscription req \<noteq> [] \<and> subs s (mr_Subscription req) = Some sub \<and>
    mid \<in> set (mr_AckIds req) \<and> msgsByID s mid = None \<longrightarrow>
      ModifyAckDeadline s req wall clock = (Panic, s))"
proof (intro conjI impI allI; (elim conjE)?)
  assume u: "unhandled s (AcknowledgeReq areq) ''Acknowledge''"
    and n: "ar_Subscription areq \<noteq> []" and sub: "subs s (ar_Subscription areq) = Some sub"
    and unk: "\<forall>i \<in> set (ar_AckIds areq). sub_msgs sub i = None"
  show "Acknowledge s areq = (OK Empty, s)"
    using sub by (simp add: Acknowledge_unhandled[OF u n sub fold_ack_unknown[OF unk]] map_upd_triv)
next
  assume u: "unhandled s (ModifyAckDeadlineReq req) ''ModifyAckDeadline''"
    and n: "mr_Subscription req \<noteq> []" and sub: "subs s (mr_Subscription req) = Some sub"
    and unk: "\<forall>i \<in> set (mr_AckIds req). sub_msgs sub i = None"
    and known: "\<forall>i \<in> set (mr_AckIds req). msgsByID s i \<noteq> None"
  from recordModacks_Some[OF known] obtain h' where
    h': "recordModacks wall (mr_AckDeadlineSeconds req) (mr_AckIds req) (msgsByID s) (heap s) = Some h'"
    by blast
  have "ModifyAckDeadline s req wall clock = (OK Empty, s\<lparr>heap := h'\<rparr>)"
    using sub
    by (simp add: ModifyAckDeadline_unhandled[OF u n sub] h' modifyAckDeadlines_unknown[OF unk]
        map_upd_triv)
  then show "\<exists>h'. ModifyAckDeadline s req wall clock = (OK Empty, s\<lparr>heap := h'\<rparr>)"
    by blast
  show "ModifyAckDeadline s req wall clock =
           (OK Empty,
            s\<lparr>heap := (heap s)(a := (heap s a)\<lparr>M_modacks := M_modacks (heap s a) @
               [\<lparr>ma_ReceivedAt = wall, ma_AckID = i,
                 ma_AckDeadline = mr_AckDeadlineSeconds req\<rparr>]\<rparr>)\<rparr>)"
    if "mr_AckIds req = [i]" "msgsByID s i = Some a" for i a
    using sub that unk
    by (simp add: ModifyAckDeadline_unhandled[OF u n sub] modifyAckDeadline_def map_upd_triv)
next
  assume u: "unhandled s (ModifyAckDeadlineReq req) ''ModifyAckDeadline''"
    and n: "mr_Subscription req \<noteq> []" and sub: "subs s (mr_Subscription req) = Some sub"
    and mid: "mid \<in> set (mr_AckIds req)" "msgsByID s mid = None"
  show "ModifyAckDeadline s req wall clock = (Panic, s)"
    by (simp add: ModifyAckDeadline_unhandled[OF u n sub]
        recordModacks_None[where byID="msgsByID s", OF mid])
qed

theorem ModifyAckDeadline_unpublished_id_panics_witness:
  "Acknowledge server_ts \<lparr>ar_Subscription = ''s'', ar_AckIds = [''m0'']\<rparr> = (OK Empty, server_ts) \<and>
   ModifyAckDeadline server_ts
     \<lparr>mr_Subscription = ''s'', mr_AckIds = [''m0''], mr_AckDeadlineSeconds = 0\<rparr> 6 (\<lambda>i. 7) =
       (Panic, server_ts) \<and>
   (\<exists>h'. ModifyAckDeadline ((server_m0 5)\<lparr>subs := subs server_ts\<rparr>)
     \<lparr>mr_Subscription = ''s'', mr_AckIds = [''m0''], mr_AckDeadlineSeconds = 0\<rparr> 6 (\<lambda>i. 7) =
       (OK Empty, (server_m0 5)\<lparr>subs := subs server_ts, heap := h'\<rparr>))"
  using ModifyAckDeadline_unpublished_id_panics[of server_ts
      "\<lparr>ar_Subscription = ''s'', ar_AckIds = [''m0'']\<rparr>"
      "newSubscription ''t'' (withDefaults subscription_s)"
      "\<lparr>mr_Subscription = ''s'', mr_AckIds = [''m0''], mr_AckDeadlineSeconds = 0\<rparr>" 6 "\<lambda>i. 7" "''m0''"]
    ModifyAckDeadline_unpublished_id_panics[of "(server_m0 5)\<lparr>subs := subs server_ts\<rparr>"
      "\<lparr>ar_Subscription = ''s'', ar_AckIds = [''m0'']\<rparr>"
      "newSubscription ''t'' (withDefaults subscription_s)"
      "\<lparr>mr_Subscription = ''s'', mr_AckIds = [''m0''], mr_AckDeadlineSeconds = 0\<rparr>" 6 "\<lambda>i. 7" "''m0''"]
  by (simp add: server_m0_def server_ts_def NewServer_def unhandled_def newSubscription_def)

subsection \<open>The maintenance sweep\<close>

lemma Sub_gt_retentionDuration:
  "Sub now t > retentionDuration \<longleftrightarrow> now - t > 10 * Minute"
  by (simp add: Sub_def retentionDuration_def Minute_def Second_def maxDuration_def minDuration_def)

lemma maintainMessages_step:
  assumes "ms mid = Some m" and "rm_Message (m_proto m) \<noteq> None"
  shows "maintainMessages now (mid # ids) ms = maintainMessages now ids (ms(mid := swept now m))"
  using assms
  by (auto simp: Sub_gt_retentionDuration swept_def purged_def expired_def protoPublishTime_def
      outstanding_def IsZero_def After_def makeAvailable_def Let_def)




lemma maintainMessages_nil_proto:
  "mid \<in> set ids \<Longrightarrow> ms mid = Some e \<Longrightarrow> rm_Message (m_proto e) = None \<Longrightarrow>
   maintainMessages now ids ms = None"
proof (induction ids arbitrary: ms)
  case Nil
  then show ?case by simp
next
  case (Cons a ids)
  show ?case
  proof (cases "a = mid")
    case True
    with Cons.prems show ?thesis
      by (simp add: makeAvailable_def Let_def)
  next
    case False
    with Cons.prems have "mid \<in> set ids" by simp
    show ?thesis
    proof (cases "ms a")
      case None
      with Cons.IH[of ms, OF \<open>mid \<in> set ids\<close> Cons.prems(2,3)] show ?thesis by simp
    next
      case (Some m)
      show ?thesis
      proof (cases "rm_Message (m_proto m)")
        case None
        with Some show ?thesis by (simp add: makeAvailable_def Let_def)
      next
        case (Some pm)
        then have pr: "rm_Message (m_proto m) \<noteq> None" by simp
        have "(ms(a := swept now m)) mid = Some e"
          using False Cons.prems by simp
        from Cons.IH[of "ms(a := swept now m)", OF \<open>mid \<in> set ids\<close> this Cons.prems(3)] show ?thesis
          by (subst maintainMessages_step[of ms a m, OF \<open>ms a = Some m\<close> pr])
      qed
    qed
  qed
qed






subsection \<open>Seek\<close>


lemma seekDrop_heap_fields:
  "M_ID (snd (seekDrop target ids (ms, h)) a) = M_ID (h a) \<and>
   M_PublishTime (snd (seekDrop target ids (ms, h)) a) = M_PublishTime (h a) \<and>
   M_modacks (snd (seekDrop target ids (ms, h)) a) = M_modacks (h a) \<and>
   M_deliveries (snd (seekDrop target ids (ms, h)) a) = M_deliveries (h a)"
  by (induction ids arbitrary: ms h a) (auto simp: incr_acks_def split: option.splits)


lemma seekRestore_other:
  "(\<forall>a \<in> set as. \<not> Before (M_PublishTime (h a)) target \<longrightarrow> M_ID (h a) \<noteq> mid) \<Longrightarrow>
   seekRestore target h as ms mid = ms mid"
  by (induction as arbitrary: ms) auto

lemma seekRestore_restored:
  "a \<in> set as \<Longrightarrow> \<not> Before (M_PublishTime (h a)) target \<Longrightarrow>
   \<exists>a' \<in> set as. M_ID (h a') = M_ID (h a) \<and> \<not> Before (M_PublishTime (h a')) target \<and>
      seekRestore target h as ms (M_ID (h a)) = Some (restoredMessage (h a') a')"
proof (induction as arbitrary: ms a)
  case Nil
  then show ?case by simp
next
  case (Cons x as)
  let ?ms1 = "if Before (M_PublishTime (h x)) target then ms
              else ms(M_ID (h x) \<mapsto> restoredMessage (h x) x)"
  have step: "seekRestore target h (x # as) ms = seekRestore target h as ?ms1"
    by simp
  show ?case
  proof (cases "\<exists>b \<in> set as. \<not> Before (M_PublishTime (h b)) target \<and> M_ID (h b) = M_ID (h a)")
    case True
    then obtain b where b: "b \<in> set as" "\<not> Before (M_PublishTime (h b)) target"
      "M_ID (h b) = M_ID (h a)" by blast
    from Cons.IH[OF b(1,2), of ?ms1] b(3) show ?thesis
      unfolding step by (metis list.set_intros(2))
  next
    case False
    then have "seekRestore target h as ?ms1 (M_ID (h a)) = ?ms1 (M_ID (h a))"
      by (intro seekRestore_other) auto
    moreover from False Cons.prems have "a = x" by auto
    ultimately show ?thesis
      unfolding step using Cons.prems by auto
  qed
qed

lemma Seek_unhandled:
  assumes "unhandled s (SeekReq req) ''Seek''" and "sk_Target req = SeekRequest_Time ts"
    and "sk_Subscription req \<noteq> []" and "subs s (sk_Subscription req) = Some sub"
  shows "Seek s req ids =
     (OK SeekResponse,
      s\<lparr>subs := (subs s)(sk_Subscription req \<mapsto>
           sub\<lparr>sub_msgs := seekRestore (AsTime ts) (snd (seekDrop (AsTime ts) ids (sub_msgs sub, heap s)))
                              (msgs s) (fst (seekDrop (AsTime ts) ids (sub_msgs sub, heap s)))\<rparr>),
        heap := snd (seekDrop (AsTime ts) ids (sub_msgs sub, heap s))\<rparr>)"
  using assms
  by (cases "seekDrop (AsTime ts) ids (sub_msgs sub, heap s)")
     (simp add: Seek_def runReactor_unhandled findSubscription_def)




lemma pull_nil_proto:
  "mid \<in> set ord1 \<Longrightarrow> sub_msgs sub mid = Some e \<Longrightarrow> rm_Message (m_proto e) = None \<Longrightarrow>
   pull sub h mx (now, ord1, ord2) = None"
  by (simp add: pull_def maintainMessages_nil_proto[of mid ord1 "sub_msgs sub" e])

lemma Pull_unhandled:
  assumes "unhandled s (PullReq req) ''Pull''"
    and "pl_Subscription req \<noteq> []" and "subs s (pl_Subscription req) = Some sub"
    and "0 \<le> sint (pl_MaxMessages req)"
  shows "Pull s req env1 ctxErr env2 =
     (let mx = (if sint (pl_MaxMessages req) = 0 then 1000 else sint (pl_MaxMessages req)) in
      case pull sub (heap s) mx env1 of
        None \<Rightarrow> (Panic, s)
      | Some (sub1, h1, got1) \<Rightarrow>
         (let s1 = s\<lparr>subs := (subs s)(pl_Subscription req \<mapsto> sub1), heap := h1\<rparr> in
          if length got1 = 0 \<and> \<not> pl_ReturnImmediately req
          then (case ctxErr of
                  Some e \<Rightarrow> (Error e, s1)
                | None \<Rightarrow>
                   (case pull sub1 h1 mx env2 of
                      None \<Rightarrow> (Panic, s1)
                    | Some (sub2, h2, got2) \<Rightarrow>
                        (OK (PullResponse got2),
                         s1\<lparr>subs := (subs s1)(pl_Subscription req \<mapsto> sub2), heap := h2\<rparr>)))
          else (OK (PullResponse got1), s1)))"
  using assms
  by (simp add: Pull_def runReactor_unhandled findSubscription_def Let_def)

lemma restoredMessage_heap:
  "M_ID (h' a) = M_ID (h a) \<Longrightarrow> M_PublishTime (h' a) = M_PublishTime (h a) \<Longrightarrow>
   restoredMessage (h' a) a = restoredMessage (h a) a"
  by (simp add: restoredMessage_def)









lemma Seek_reactorOptions: "reactorOptions (snd (Seek s req ids)) = reactorOptions s"
  by (simp add: Seek_def Let_def split: SeekTarget.splits prod.splits sum.splits)

lemma reactorOptions_server_m0: "reactorOptions (server_m0 dl) = (\<lambda>f. [])"
  by (simp add: server_m0_def server_ts_def NewServer_def)


subsection \<open>Entries without a message proto\<close>

lemma topic_publish_entry:
  "n \<in> t_subs t \<Longrightarrow> ss n = Some sub \<Longrightarrow>
   \<exists>sub'. topic_publish t pm m a ss n = Some sub' \<and>
          sub_msgs sub' (pm_MessageId pm) = Some (publishedMessage pm m a)"
  by (simp add: topic_publish_def)

lemma topic_publish_nonnil:
  assumes "ss n = Some sub" "sub_msgs sub mid = Some e" "rm_Message (m_proto e) \<noteq> None"
  shows "\<exists>sub' e'. topic_publish t pm m a ss n = Some sub' \<and> sub_msgs sub' mid = Some e' \<and>
           rm_Message (m_proto e') \<noteq> None"
  using assms by (auto simp: topic_publish_def publishedMessage_def)

lemma publishOne_fst: "fst (publishOne t pubTime pm s) = msgID (sint (nextID s))"
  by (simp add: publishOne_def Let_def)

lemma publishOne_nonnil:
  assumes "subs s n = Some sub" "sub_msgs sub mid = Some e" "rm_Message (m_proto e) \<noteq> None"
  shows "\<exists>sub' e'. subs (snd (publishOne t pubTime pm s)) n = Some sub' \<and>
           sub_msgs sub' mid = Some e' \<and> rm_Message (m_proto e') \<noteq> None"
  using assms
  by (auto simp: publishOne_def Let_def topic_publish_def publishedMessage_def)

lemma publishOne_entry:
  assumes "n \<in> t_subs t" "subs s n = Some sub"
  shows "\<exists>sub' e'. subs (snd (publishOne t pubTime pm s)) n = Some sub' \<and>
           sub_msgs sub' (msgID (sint (nextID s))) = Some e' \<and> rm_Message (m_proto e') \<noteq> None"
  using assms
  by (simp add: publishOne_def Let_def topic_publish_def publishedMessage_def)

lemma publishMessages_Cons:
  "publishMessages t clock i (pm # pms) s =
     (fst (publishOne t (clock i) pm s) #
        fst (publishMessages t clock (i + 1) pms (snd (publishOne t (clock i) pm s))),
      snd (publishMessages t clock (i + 1) pms (snd (publishOne t (clock i) pm s))))"
  by (simp split: prod.splits)

lemma publishMessages_preserves_nonnil:
  assumes "subs s n = Some sub" "sub_msgs sub mid = Some e" "rm_Message (m_proto e) \<noteq> None"
  shows "\<exists>sub' e'. subs (snd (publishMessages t clock i pms s)) n = Some sub' \<and>
           sub_msgs sub' mid = Some e' \<and> rm_Message (m_proto e') \<noteq> None"
  using assms
proof (induction pms arbitrary: s i sub e)
  case Nil
  then show ?case by simp
next
  case (Cons pm pms)
  from publishOne_nonnil[OF Cons.prems, of t "clock i" pm]
  obtain sub1 e1 where "subs (snd (publishOne t (clock i) pm s)) n = Some sub1"
    "sub_msgs sub1 mid = Some e1" "rm_Message (m_proto e1) \<noteq> None"
    by blast
  from Cons.IH[OF this, of "i + 1"] show ?case
    unfolding publishMessages_Cons by simp
qed

lemma publishMessages_entries:
  assumes "mid \<in> set (fst (publishMessages t clock i pms s))"
    and "n \<in> t_subs t" and "subs s n = Some sub"
  shows "\<exists>sub' e. subs (snd (publishMessages t clock i pms s)) n = Some sub' \<and>
           sub_msgs sub' mid = Some e \<and> rm_Message (m_proto e) \<noteq> None"
  using assms
proof (induction pms arbitrary: s i sub)
  case Nil
  then show ?case by simp
next
  case (Cons pm pms)
  let ?s1 = "snd (publishOne t (clock i) pm s)"
  from publishOne_entry[OF Cons.prems(2,3), of "clock i" pm]
  obtain sub1 e1 where sub1: "subs ?s1 n = Some sub1"
    "sub_msgs sub1 (msgID (sint (nextID s))) = Some e1" "rm_Message (m_proto e1) \<noteq> None"
    by blast
  show ?case
  proof (cases "mid \<in> set (fst (publishMessages t clock (i + 1) pms ?s1))")
    case True
    from Cons.IH[OF True Cons.prems(2) sub1(1)] show ?thesis
      unfolding publishMessages_Cons by simp
  next
    case False
    with Cons.prems(1) have "mid = msgID (sint (nextID s))"
      unfolding publishMessages_Cons by (simp add: publishOne_fst)
    with sub1 have "sub_msgs sub1 mid = Some e1" by simp
    from publishMessages_preserves_nonnil[OF sub1(1) this sub1(3), of t clock "i + 1" pms]
    show ?thesis unfolding publishMessages_Cons by simp
  qed
qed

lemma deliver_nil_proto:
  "mid \<in> set ord1 \<Longrightarrow> sub_msgs sub mid = Some e \<Longrightarrow> rm_Message (m_proto e) = None \<Longrightarrow>
   deliver sub h (now, ord1, ord2) accept = None"
  by (simp add: deliver_def maintainMessages_nil_proto[of mid ord1 "sub_msgs sub" e])

text \<open>
  Claim C10. Every pending entry that \<^verbatim>\<open>Publish\<close> creates carries a message proto:
  the entry that \<^verbatim>\<open>topic.publish\<close> stores under the identifier holds the published
  message, and after the loop of \<^verbatim>\<open>Publish\<close> every attached subscription holds,
  under each identifier the call returned, an entry with a message proto. An entry that
  the second loop of \<^verbatim>\<open>Seek\<close> stores carries none. The maintenance sweep reads the
  publish time through the message proto, so it panics as soon as it visits an entry
  without one. Hence after a \<^verbatim>\<open>Seek\<close> that reinserts a recorded message, a \<^verbatim>\<open>Pull\<close>
  on the subscription, and a turn of its background task, panic when their sweep visits
  the reinserted key.
\<close>

theorem sweep_panics_on_entry_reinserted_by_Seek:
  "(n \<in> t_subs t \<and> ss n = Some sub0 \<longrightarrow>
      (\<exists>sub'. topic_publish t pm m a ss n = Some sub' \<and>
         sub_msgs sub' (pm_MessageId pm) = Some (publishedMessage pm m a) \<and>
         rm_Message (m_proto (publishedMessage pm m a)) = Some pm)) \<and>
   (mid \<in> set (fst (publishMessages t clock i pms s)) \<and> n \<in> t_subs t \<and> subs s n = Some sub0 \<longrightarrow>
      (\<exists>sub' e. subs (snd (publishMessages t clock i pms s)) n = Some sub' \<and>
         sub_msgs sub' mid = Some e \<and> rm_Message (m_proto e) \<noteq> None)) \<and>
   (x \<in> set as \<and> \<not> Before (M_PublishTime (h x)) target \<longrightarrow>
      (\<exists>e. seekRestore target h as ms (M_ID (h x)) = Some e \<and> rm_Message (m_proto e) = None)) \<and>
   (k \<in> set ids \<and> ms k = Some e \<and> rm_Message (m_proto e) = None \<longrightarrow>
      maintainMessages now ids ms = None) \<and>
   (unhandled s (SeekReq req) ''Seek'' \<and> sk_Target req = SeekRequest_Time ts \<and>
    sk_Subscription req \<noteq> [] \<and> subs s (sk_Subscription req) = Some sub \<and>
    x \<in> set (msgs s) \<and> \<not> Before (M_PublishTime (heap s x)) (AsTime ts) \<and>
    unhandled s (PullReq preq) ''Pull'' \<and> pl_Subscription preq = sk_Subscription req \<and>
    0 \<le> sint (pl_MaxMessages preq) \<and> M_ID (heap s x) \<in> set ord1 \<longrightarrow>
      fst (Seek s req ids) = OK SeekResponse \<and>
      fst (Pull (snd (Seek s req ids)) preq (now, ord1, ord2) ctxErr env2) = Panic \<and>
      fst (Deliver (snd (Seek s req ids)) (sk_Subscription req) (now, ord1, ord2) accept) = Panic)"
proof (intro conjI impI; (elim conjE)?)
  show "\<exists>sub'. topic_publish t pm m a ss n = Some sub' \<and>
         sub_msgs sub' (pm_MessageId pm) = Some (publishedMessage pm m a) \<and>
         rm_Message (m_proto (publishedMessage pm m a)) = Some pm"
    if "n \<in> t_subs t" "ss n = Some sub0"
    using topic_publish_entry[where ss=ss and n=n and t=t and pm=pm and m=m and a=a, OF that]
    by (simp add: publishedMessage_def)
  show "\<exists>sub' e. subs (snd (publishMessages t clock i pms s)) n = Some sub' \<and>
         sub_msgs sub' mid = Some e \<and> rm_Message (m_proto e) \<noteq> None"
    if "mid \<in> set (fst (publishMessages t clock i pms s))" "n \<in> t_subs t" "subs s n = Some sub0"
    using that by (rule publishMessages_entries)
  show "\<exists>e. seekRestore target h as ms (M_ID (h x)) = Some e \<and> rm_Message (m_proto e) = None"
    if "x \<in> set as" "\<not> Before (M_PublishTime (h x)) target"
    using seekRestore_restored[of x as h target ms, OF that]
    by (auto simp: restoredMessage_def)
  show "maintainMessages now ids ms = None"
    if "k \<in> set ids" "ms k = Some e" "rm_Message (m_proto e) = None"
    using that by (rule maintainMessages_nil_proto)
next
  assume u: "unhandled s (SeekReq req) ''Seek''" and t: "sk_Target req = SeekRequest_Time ts"
    and n: "sk_Subscription req \<noteq> []" and sub: "subs s (sk_Subscription req) = Some sub"
    and x: "x \<in> set (msgs s)" "\<not> Before (M_PublishTime (heap s x)) (AsTime ts)"
    and pu: "unhandled s (PullReq preq) ''Pull''"
    and pn: "pl_Subscription preq = sk_Subscription req"
    and pm: "0 \<le> sint (pl_MaxMessages preq)" and o: "M_ID (heap s x) \<in> set ord1"
  let ?T = "AsTime ts"
  let ?ms1 = "fst (seekDrop ?T ids (sub_msgs sub, heap s))"
  let ?h1 = "snd (seekDrop ?T ids (sub_msgs sub, heap s))"
  let ?sub' = "sub\<lparr>sub_msgs := seekRestore ?T ?h1 (msgs s) ?ms1\<rparr>"
  let ?s' = "snd (Seek s req ids)"
  note eq = Seek_unhandled[OF u t n sub, of ids]
  show "fst (Seek s req ids) = OK SeekResponse"
    by (simp add: eq)
  have hf: "M_ID (?h1 a) = M_ID (heap s a)" "M_PublishTime (?h1 a) = M_PublishTime (heap s a)" for a
    using seekDrop_heap_fields[of ?T ids "sub_msgs sub" "heap s" a] by simp_all
  from x have "\<not> Before (M_PublishTime (?h1 x)) ?T" by (simp add: hf)
  from seekRestore_restored[of x "msgs s" ?h1 ?T ?ms1, OF x(1) this]
  obtain e where e: "sub_msgs ?sub' (M_ID (heap s x)) = Some e" "rm_Message (m_proto e) = None"
    by (auto simp: hf restoredMessage_def)
  have s': "subs ?s' (sk_Subscription req) = Some ?sub'"
    by (simp add: eq)
  have pu': "unhandled ?s' (PullReq preq) ''Pull''"
    using pu by (simp add: unhandled_def Seek_reactorOptions)
  from n pn have pn': "pl_Subscription preq \<noteq> []" by simp
  from s' pn have ps: "subs ?s' (pl_Subscription preq) = Some ?sub'" by simp
  show "fst (Pull ?s' preq (now, ord1, ord2) ctxErr env2) = Panic"
    unfolding Pull_unhandled[OF pu' pn' ps pm]
    by (simp add: pull_nil_proto[OF o e] Let_def)
  show "fst (Deliver ?s' (sk_Subscription req) (now, ord1, ord2) accept) = Panic"
    by (simp add: Deliver_def s' deliver_nil_proto[OF o e])
qed

lemma msgID_0: "msgID 0 = ''m0''"
  by (simp add: msgID_def fmt_d_def digit_char_def char_of_def bit_Suc_0_iff)

lemma run_server_ts:
  "snd (run (NewServer []) [OpCreateTopic topic_t, OpCreateSubscription subscription_s]) = server_ts"
  by (simp add: CreateTopic_def CreateSubscription_def runReactor_def NewServer_def server_ts_def
      topic_t_def subscription_s_def emptySubscription_pb_def withDefaults_def newTopic_def
      checkAckDeadline_def checkMRD_def defaultMessageRetentionDuration_def AsDuration_def
      minMessageRetentionDuration_def maxMessageRetentionDuration_def Hour_def Minute_def
      Second_def Let_def)

lemma Publish_server_ts:
  "Publish server_ts publish_hello (\<lambda>i. 1000) = (OK (PublishResponse [''m0'']), server_m0 0)"
  by (simp add: Publish_def publishOne_def runReactor_def server_ts_def server_m0_def
      NewServer_def publish_hello_def topic_publish_def publishedMessage_def sub_pending_m0_def
      pending_m0_def message_m0_def Message_m0_def newTopic_def newSubscription_def msgID_0
      Let_def fun_eq_iff)

lemma unhandled_server_m0: "unhandled (server_m0 dl) req f"
  by (simp add: unhandled_def reactorOptions_server_m0)

theorem sweep_panics_on_entry_reinserted_by_Seek_witness:
  "snd (run (NewServer []) [OpCreateTopic topic_t, OpCreateSubscription subscription_s,
                            OpPublish publish_hello (\<lambda>i. 1000)]) = server_m0 0 \<and>
   fst (Seek (server_m0 0) \<lparr>sk_Subscription = ''s'', sk_Target = SeekRequest_Time (Some 500)\<rparr> [''m0'']) =
     OK SeekResponse \<and>
   fst (Pull (snd (Seek (server_m0 0)
                \<lparr>sk_Subscription = ''s'', sk_Target = SeekRequest_Time (Some 500)\<rparr> [''m0'']))
          \<lparr>pl_Subscription = ''s'', pl_ReturnImmediately = True, pl_MaxMessages = 10\<rparr>
          (2000, [''m0''], [''m0'']) None (2500, [''m0''], [''m0''])) = Panic"
proof -
  let ?req = "\<lparr>sk_Subscription = ''s'', sk_Target = SeekRequest_Time (Some 500)\<rparr>"
  let ?preq = "\<lparr>pl_Subscription = ''s'', pl_ReturnImmediately = True, pl_MaxMessages = 10\<rparr>"
  have r: "snd (run (NewServer []) [OpCreateTopic topic_t, OpCreateSubscription subscription_s,
                            OpPublish publish_hello (\<lambda>i. 1000)]) = server_m0 0"
  proof -
    have "run (NewServer []) ([OpCreateTopic topic_t, OpCreateSubscription subscription_s] @
             [OpPublish publish_hello (\<lambda>i. 1000)]) =
          (fst (run (NewServer []) [OpCreateTopic topic_t, OpCreateSubscription subscription_s]) @
             [(OpPublish publish_hello (\<lambda>i. 1000), OK (PublishResponse [''m0'']))], server_m0 0)"
      using run_server_ts Publish_server_ts
      by (simp add: CreateTopic_def CreateSubscription_def runReactor_def NewServer_def
          topic_t_def subscription_s_def emptySubscription_pb_def
          checkAckDeadline_def checkMRD_def defaultMessageRetentionDuration_def AsDuration_def
          minMessageRetentionDuration_def maxMessageRetentionDuration_def Hour_def Minute_def
          Second_def Let_def split: prod.splits)
    then show ?thesis by simp
  qed
  have A: "unhandled (server_m0 0) (SeekReq ?req) ''Seek'' \<and>
      sk_Target ?req = SeekRequest_Time (Some 500) \<and> sk_Subscription ?req \<noteq> [] \<and>
      subs (server_m0 0) (sk_Subscription ?req) = Some (sub_pending_m0 0) \<and>
      0 \<in> set (msgs (server_m0 0)) \<and>
      \<not> Before (M_PublishTime (heap (server_m0 0) 0)) (AsTime (Some 500)) \<and>
      unhandled (server_m0 0) (PullReq ?preq) ''Pull'' \<and>
      pl_Subscription ?preq = sk_Subscription ?req \<and> 0 \<le> sint (pl_MaxMessages ?preq) \<and>
      M_ID (heap (server_m0 0) 0) \<in> set [''m0'']"
    by (simp add: unhandled_server_m0)
       (simp add: server_m0_def Message_m0_def Before_def AsTime_def)
  from r sweep_panics_on_entry_reinserted_by_Seek
         [THEN conjunct2, THEN conjunct2, THEN conjunct2, THEN conjunct2, THEN mp, OF A]
  show ?thesis by blast
qed

subsection \<open>Identifiers and pending entries along a run\<close>

lemma of_char_digit_char: "a < 10 \<Longrightarrow> of_char (digit_char a) = 48 + a"
  by (simp add: digit_char_def take_bit_eq_mod)

lemma digit_char_inj: "a < 10 \<Longrightarrow> b < 10 \<Longrightarrow> digit_char a = digit_char b \<Longrightarrow> a = b"
proof -
  assume a: "a < 10" and b: "b < 10" and e: "digit_char a = digit_char b"
  have "48 + a = (of_char (digit_char a) :: nat)" using a by (simp only: of_char_digit_char)
  also have "\<dots> = of_char (digit_char b)" by (simp only: e)
  also have "\<dots> = 48 + b" using b by (simp only: of_char_digit_char)
  finally show "a = b" by simp
qed

lemma digit_char_not_minus: "a < 10 \<Longrightarrow> digit_char a \<noteq> CHR ''-''"
proof
  assume a: "a < 10" and e: "digit_char a = CHR ''-''"
  have "(of_char (CHR ''-'') :: nat) = 45" by simp
  then have "(of_char (digit_char a) :: nat) = 45" by (simp only: e)
  then have "48 + a = 45" by (simp only: of_char_digit_char[OF a])
  then show False by simp
qed

lemma digits_nonempty: "digits n \<noteq> []"
  by (subst digits.simps) (simp del: digits.simps)

lemma digits_last: "last (digits n) = digit_char (n mod 10)"
  by (subst digits.simps) (simp del: digits.simps)

lemma digits_butlast: "butlast (digits n) = (if n < 10 then [] else digits (n div 10))"
  by (subst digits.simps) (simp add: butlast_append del: digits.simps)

lemma digits_inj: "digits a = digits b \<Longrightarrow> a = b"
proof (induction a arbitrary: b rule: digits.induct)
  case (1 n)
  from "1.prems" have l: "digit_char (n mod 10) = digit_char (b mod 10)"
    using digits_last[of n] digits_last[of b] by (simp del: digits.simps)
  then have m: "n mod 10 = b mod 10"
    by (intro digit_char_inj) simp_all
  from "1.prems" have bl: "butlast (digits n) = butlast (digits b)" by (simp del: digits.simps)
  show ?case
  proof (cases "n < 10")
    case True
    with bl have "b < 10"
      using digits_nonempty[of "b div 10"] by (auto simp: digits_butlast simp del: digits.simps split: if_splits)
    with True m show ?thesis by simp
  next
    case False
    with bl have b: "\<not> b < 10" and "digits (n div 10) = digits (b div 10)"
      using digits_nonempty[of "n div 10"] by (auto simp: digits_butlast simp del: digits.simps split: if_splits)
    with "1.IH"[OF False] have d: "n div 10 = b div 10" by (simp del: digits.simps)
    have "n = 10 * (n div 10) + n mod 10" by simp
    also have "\<dots> = 10 * (b div 10) + b mod 10" using d m by simp
    also have "\<dots> = b" by simp
    finally show ?thesis .
  qed
qed

lemma digits_hd_not_minus: "hd (digits n) \<noteq> CHR ''-''"
proof (induction n rule: digits.induct)
  case (1 n)
  show ?case
  proof (cases "n < 10")
    case True
    then show ?thesis by (subst digits.simps) (simp add: digit_char_not_minus del: digits.simps)
  next
    case False
    with 1 digits_nonempty[of "n div 10"] show ?thesis
      by (subst digits.simps) (simp del: digits.simps)
  qed
qed

lemma fmt_d_inj: "fmt_d a = fmt_d b \<Longrightarrow> a = b"
proof -
  assume e: "fmt_d a = fmt_d b"
  have neg: "hd (fmt_d i) = CHR ''-'' \<longleftrightarrow> i < 0" for i
    using digits_hd_not_minus[of "nat i"] by (simp add: fmt_d_def del: digits.simps)
  from e have s: "a < 0 \<longleftrightarrow> b < 0"
    using neg[of a] neg[of b] by simp
  show "a = b"
  proof (cases "a < 0")
    case True
    with s e have "digits (nat (- a)) = digits (nat (- b))" by (simp add: fmt_d_def del: digits.simps)
    then have "nat (- a) = nat (- b)" by (rule digits_inj)
    with True s show ?thesis by simp
  next
    case False
    with s e have "digits (nat a) = digits (nat b)" by (simp add: fmt_d_def del: digits.simps)
    then have "nat a = nat b" by (rule digits_inj)
    with False s show ?thesis by simp
  qed
qed

lemma msgID_inj: "msgID a = msgID b \<longleftrightarrow> a = b"
  by (auto simp: msgID_def dest: fmt_d_inj)

lemma derived_refl: "derived ms ms"
  by (simp add: derived_def)

lemma derived_trans: "derived ms2 ms1 \<Longrightarrow> derived ms1 ms \<Longrightarrow> derived ms2 ms"
  unfolding derived_def by (metis (no_types))

lemma derived_empty: "derived Map.empty ms"
  by (simp add: derived_def)

lemma derived_del: "derived ms1 ms \<Longrightarrow> derived (ms1(mid := None)) ms"
  by (simp add: derived_def)

lemma derived_upd:
  "derived ms1 ms \<Longrightarrow> ms1 mid = Some e \<Longrightarrow> m_proto e' = m_proto e \<Longrightarrow> derived (ms1(mid \<mapsto> e')) ms"
  by (simp add: derived_def)

lemma maintainMessages_derived:
  "maintainMessages now ids ms = Some ms' \<Longrightarrow> derived ms ms0 \<Longrightarrow> derived ms' ms0"
proof (induction ids arbitrary: ms)
  case Nil
  then show ?case by simp
next
  case (Cons mid ids)
  show ?case
  proof (cases "ms mid")
    case None
    with Cons show ?thesis by simp
  next
    case (Some m)
    define m1 where "m1 = (if outstanding m \<and> After now (m_ackDeadline m) then makeAvailable m else m)"
    have p: "m_proto m1 = m_proto m" by (simp add: m1_def makeAvailable_def)
    from Cons.prems(1) Some obtain pm where pm: "rm_Message (m_proto m1) = Some pm"
      by (cases "rm_Message (m_proto m1)") (simp_all add: m1_def Let_def)
    have d1: "derived (ms(mid := None)) ms0" using Cons.prems(2) by (rule derived_del)
    have d2: "derived (ms(mid \<mapsto> m1)) ms0" using Cons.prems(2) Some p by (rule derived_upd)
    show ?thesis
    proof (cases "\<not> outstanding m1 \<and> Sub now (AsTime (pm_PublishTime pm)) > retentionDuration")
      case True
      with Cons.prems(1) Some pm have "maintainMessages now ids (ms(mid := None)) = Some ms'"
        by (simp add: m1_def[symmetric] Let_def)
      then show ?thesis using d1 by (rule Cons.IH)
    next
      case False
      with Cons.prems(1) Some pm have "maintainMessages now ids (ms(mid \<mapsto> m1)) = Some ms'"
        by (simp add: m1_def[symmetric] Let_def)
      then show ?thesis using d2 by (rule Cons.IH)
    qed
  qed
qed


lemma ack_msgs: "sub_msgs (fst (ack mid (sub, h))) = (sub_msgs sub)(mid := None)"
  by (cases "sub_msgs sub mid") (auto simp: ack_def fun_eq_iff)

lemma fold_ack_msgs:
  "sub_msgs (fst (fold ack ids (sub, h))) = (\<lambda>k. if k \<in> set ids then None else sub_msgs sub k)"
proof (induction ids arbitrary: sub h)
  case Nil
  show ?case by simp
next
  case (Cons mid ids)
  obtain sub1 h1 where a: "ack mid (sub, h) = (sub1, h1)" by (cases "ack mid (sub, h)")
  then have m: "sub_msgs sub1 = (sub_msgs sub)(mid := None)"
    using ack_msgs[of mid sub h] by simp
  have "sub_msgs (fst (fold ack (mid # ids) (sub, h))) = sub_msgs (fst (fold ack ids (sub1, h1)))"
    by (simp only: fold_simps a)
  also have "\<dots> = (\<lambda>k. if k \<in> set ids then None else sub_msgs sub1 k)"
    by (rule Cons.IH)
  also have "\<dots> = (\<lambda>k. if k \<in> set (mid # ids) then None else sub_msgs sub k)"
    by (auto simp: m fun_eq_iff)
  finally show ?case .
qed

lemma fold_ack_derived: "derived (sub_msgs (fst (fold ack ids (sub, h)))) (sub_msgs sub)"
  by (simp add: fold_ack_msgs derived_def)

lemma modifyAckDeadline_derived:
  "derived (sub_msgs sub) ms0 \<Longrightarrow> derived (sub_msgs (modifyAckDeadline sub mid d now)) ms0"
  by (auto simp: modifyAckDeadline_def makeAvailable_def derived_def split: option.splits)

lemma modifyAckDeadlines_derived:
  "derived (sub_msgs sub) ms0 \<Longrightarrow> derived (sub_msgs (modifyAckDeadlines d clock i ids sub)) ms0"
  by (induction ids arbitrary: i sub) (simp_all add: modifyAckDeadline_derived)

lemma modifyDeadlines_derived:
  "modifyDeadlines clock i ids secs sub = Some sub' \<Longrightarrow> derived (sub_msgs sub) ms0 \<Longrightarrow>
   derived (sub_msgs sub') ms0"
  by (induction ids arbitrary: i sub) (auto simp: modifyAckDeadline_derived split: if_splits)

lemma pullMessages_derived:
  "derived ms ms0 \<Longrightarrow> derived (fst (pullMessages now at mx ids ms h acc)) ms0"
proof (induction ids arbitrary: ms h acc)
  case Nil
  then show ?case by simp
next
  case (Cons mid ids)
  show ?case
  proof (cases "ms mid")
    case None
    with Cons show ?thesis by simp
  next
    case (Some m)
    have d: "derived (ms(mid \<mapsto> m\<lparr>m_ackDeadline := Add now at\<rparr>)) ms0"
      using Cons.prems Some by (rule derived_upd) simp
    show ?thesis
    proof (cases "outstanding m")
      case True
      with Some Cons show ?thesis by simp
    next
      case False
      note no = this
      show ?thesis
      proof (cases "int (length (acc @ [m_proto m])) \<ge> mx")
        case True
        with Some no d show ?thesis by (simp add: Let_def del: fun_upd_apply)
      next
        case False
        have "derived (fst (pullMessages now at mx ids (ms(mid \<mapsto> m\<lparr>m_ackDeadline := Add now at\<rparr>))
                 (incr_deliveries (m_deliveries m) h) (acc @ [m_proto m]))) ms0"
          using d by (rule Cons.IH)
        with Some no False show ?thesis by (simp add: Let_def del: fun_upd_apply)
      qed
    qed
  qed
qed


lemma tryDeliverMessage_proto:
  "tryDeliverMessage accept now start k i streams m h = (k', streams', m', h', delIndex, ok) \<Longrightarrow>
   m_proto m' = m_proto m"
proof (induction accept now start k i streams m h rule: tryDeliverMessage.induct)
  case (1 accept now start k i streams m h)
  show ?case
  proof (cases "i < length streams")
    case False
    with "1.prems" show ?thesis by (subst (asm) tryDeliverMessage.simps) auto
  next
    case True
    note lt = this
    define idx where "idx = nat ((int i + start) mod int (length streams))"
    show ?thesis
    proof (cases "accept k")
      case True
      with "1.prems" lt show ?thesis
        by (subst (asm) tryDeliverMessage.simps) (auto simp: Let_def)
    next
      case False
      note na = this
      show ?thesis
      proof (cases "st_done (streams ! idx)")
        case True
        with "1.prems" lt na
        have "tryDeliverMessage accept now start (k + 1) i (deleteStreamAt streams idx) m h =
                (k', streams', m', h', delIndex, ok)"
          by (subst (asm) tryDeliverMessage.simps) (simp add: Let_def idx_def)
        with "1.IH"(1)[OF lt idx_def na True] show ?thesis by simp
      next
        case False
        with "1.prems" lt na
        have "tryDeliverMessage accept now start (k + 1) (i + 1) streams m h =
                (k', streams', m', h', delIndex, ok)"
          by (subst (asm) tryDeliverMessage.simps) (simp add: Let_def idx_def)
        with "1.IH"(2)[OF lt idx_def na False] show ?thesis by simp
      qed
    qed
  qed
qed

lemma deliverMessages_derived:
  assumes "derived ms ms0"
    and "deliverMessages accept now ids k cur streams ms h sent = (streams', ms', h', sent')"
  shows "derived ms' ms0 \<and>
         (\<forall>r \<in> set sent'. r \<in> set sent \<or> (\<exists>mid e. ms0 mid = Some e \<and> m_proto e = r))"
  using assms
proof (induction ids arbitrary: k cur streams ms h sent)
  case Nil
  then show ?case by simp
next
  case (Cons mid ids)
  show ?case
  proof (cases "ms mid")
    case None
    with Cons.prems have "deliverMessages accept now ids k cur streams ms h sent = (streams', ms', h', sent')"
      by simp
    with Cons.prems(1) show ?thesis by (rule Cons.IH)
  next
    case (Some m)
    from Cons.prems(1) Some obtain e where e: "ms0 mid = Some e" "m_proto m = m_proto e"
      unfolding derived_def by blast
    show ?thesis
    proof (cases "outstanding m")
      case True
      with Cons.prems Some
      have "deliverMessages accept now ids k cur streams ms h sent = (streams', ms', h', sent')"
        by simp
      with Cons.prems(1) show ?thesis by (rule Cons.IH)
    next
      case False
      note no = this
      define st where "st = (if m_streamIndex m < 0 then cur else m_streamIndex m)"
      obtain k1 streams1 m1 h1 delIndex ok
        where t: "tryDeliverMessage accept now st k 0 streams m h = (k1, streams1, m1, h1, delIndex, ok)"
        by (cases "tryDeliverMessage accept now st k 0 streams m h") auto
      then have p: "m_proto m1 = m_proto m" by (rule tryDeliverMessage_proto)
      have d1: "derived (ms(mid \<mapsto> m1)) ms0"
        using Cons.prems(1) Some p by (rule derived_upd)
      have d2: "derived (ms(mid \<mapsto> m1\<lparr>m_streamIndex := x\<rparr>)) ms0" for x
        using Cons.prems(1) Some by (rule derived_upd) (simp add: p)
      show ?thesis
      proof (cases ok)
        case False
        with Cons.prems(2) Some no t have eq: "ms' = ms(mid \<mapsto> m1)" "sent' = sent"
          by (auto simp: st_def split: if_splits)
        show ?thesis unfolding eq using d1 by blast
      next
        case True
        with Cons.prems(2) Some no t obtain k2 cur2 x where
          "deliverMessages accept now ids k2 cur2 streams1 (ms(mid \<mapsto> m1\<lparr>m_streamIndex := x\<rparr>)) h1
             (sent @ [m_proto m1]) = (streams', ms', h', sent')"
          by (auto simp: st_def split: if_splits)
        with d2 have "derived ms' ms0 \<and>
           (\<forall>r \<in> set sent'. r \<in> set (sent @ [m_proto m1]) \<or> (\<exists>mid e. ms0 mid = Some e \<and> m_proto e = r))"
          by (rule Cons.IH)
        with e p show ?thesis by (metis (no_types) Un_iff empty_iff insert_iff list.set(1) list.set(2) set_append)
      qed
    qed
  qed
qed

lemma seekDrop_derived:
  "derived ms ms0 \<Longrightarrow> derived (fst (seekDrop target ids (ms, h))) ms0"
proof (induction ids arbitrary: ms h)
  case Nil
  then show ?case by simp
next
  case (Cons mid ids)
  show ?case
  proof (cases "ms mid")
    case None
    with Cons show ?thesis by simp
  next
    case (Some m)
    have d: "derived (ms(mid := None)) ms0" using Cons.prems by (rule derived_del)
    have "derived (fst (seekDrop target ids (ms(mid := None), incr_acks (m_acks m) h))) ms0"
      using d by (rule Cons.IH)
    moreover have "derived (fst (seekDrop target ids (ms, h))) ms0"
      using Cons.prems by (rule Cons.IH)
    ultimately show ?thesis using Some by (simp del: fun_upd_apply)
  qed
qed

lemma seekRestore_entry:
  "seekRestore target h as ms mid = Some e' \<Longrightarrow>
   ms mid = Some e' \<or> (rm_AckId (m_proto e') = mid \<and> rm_Message (m_proto e') = None)"
proof (induction as arbitrary: ms)
  case Nil
  then show ?case by simp
next
  case (Cons a as)
  show ?case
  proof (cases "Before (M_PublishTime (h a)) target")
    case True
    with Cons.prems have "seekRestore target h as ms mid = Some e'" by simp
    then show ?thesis by (rule Cons.IH)
  next
    case False
    with Cons.prems
    have "seekRestore target h as (ms(M_ID (h a) \<mapsto> restoredMessage (h a) a)) mid = Some e'"
      by simp
    then have "(ms(M_ID (h a) \<mapsto> restoredMessage (h a) a)) mid = Some e' \<or>
               (rm_AckId (m_proto e') = mid \<and> rm_Message (m_proto e') = None)"
      by (rule Cons.IH)
    then show ?thesis by (auto simp: restoredMessage_def split: if_splits)
  qed
qed

lemma quiet_refl: "quiet s s"
  by (simp add: quiet_def derived_refl)

lemma quiet_same_subs:
  "subs s' = subs s \<Longrightarrow> nextID s' = nextID s \<Longrightarrow> reactorOptions s' = reactorOptions s \<Longrightarrow>
   quiet s s'"
  by (simp add: quiet_def pendingOf_def derived_refl)

lemma quiet_subs_upd:
  assumes "subs s' = (subs s)(name \<mapsto> sub')" "nextID s' = nextID s"
    and "reactorOptions s' = reactorOptions s"
    and "derived (sub_msgs sub') (pendingOf s name)"
  shows "quiet s s'"
  unfolding quiet_def
proof (intro conjI allI)
  fix n
  show "derived (pendingOf s' n) (pendingOf s n)"
  proof (cases "n = name")
    case True
    with assms(1,4) show ?thesis by (simp add: pendingOf_def)
  next
    case False
    with assms(1) have "pendingOf s' n = pendingOf s n" by (simp add: pendingOf_def)
    then show ?thesis by (simp add: derived_refl)
  qed
qed (rule assms(2), rule assms(3))

lemma quiet_evolves: "quiet s s' \<Longrightarrow> evolves 0 s s'"
  unfolding quiet_def evolves_def derived_def by auto

lemma pendingOf_Some: "subs s name = Some sub \<Longrightarrow> pendingOf s name = sub_msgs sub"
  by (simp add: pendingOf_def)

lemma findSubscription_Inr: "findSubscription s name = Inr sub \<Longrightarrow> subs s name = Some sub"
  by (auto simp: findSubscription_def split: if_splits option.splits)

lemma CreateTopic_quiet: "quiet s (snd (CreateTopic s t))"
  by (auto simp: CreateTopic_def intro!: quiet_refl quiet_same_subs split: prod.splits)

lemma GetTopic_quiet: "quiet s (snd (GetTopic s name))"
  by (auto simp: GetTopic_def intro!: quiet_refl split: prod.splits option.splits)

lemma UpdateTopic_quiet: "quiet s (snd (UpdateTopic s req))"
  by (auto simp: UpdateTopic_def intro!: quiet_refl quiet_same_subs split: prod.splits option.splits)

lemma pendingOf_topic_stop: "pendingOf (s\<lparr>subs := topic_stop t (subs s), topics := ts\<rparr>) n = pendingOf s n"
  by (cases "subs s n") (simp_all add: pendingOf_def topic_stop_def)

lemma DeleteTopic_quiet: "quiet s (snd (DeleteTopic s name))"
  by (auto simp: DeleteTopic_def quiet_def pendingOf_topic_stop derived_refl
      split: prod.splits option.splits)

lemma GetSubscription_quiet: "quiet s (snd (GetSubscription s name))"
  by (auto simp: GetSubscription_def intro!: quiet_refl split: prod.splits sum.splits)

lemma DetachSubscription_quiet: "quiet s (snd (DetachSubscription s name))"
  by (auto simp: DetachSubscription_def intro!: quiet_refl quiet_same_subs split: prod.splits sum.splits)

lemma DeleteSubscription_quiet: "quiet s (snd (DeleteSubscription s name))"
  by (auto simp: DeleteSubscription_def quiet_def pendingOf_def derived_refl derived_empty
      split: prod.splits sum.splits)

lemma CreateSubscription_quiet: "quiet s (snd (CreateSubscription s ps))"
proof -
  have new: "quiet s (s\<lparr>topics := ts, subs := (subs s)(sp_Name ps \<mapsto> newSubscription t p)\<rparr>)" for ts t p
    by (rule quiet_subs_upd[where name = "sp_Name ps" and sub' = "newSubscription t p"])
       (simp_all add: newSubscription_def Let_def derived_empty)
  obtain handled ret err where r: "runReactor s (CreateSubscriptionReq ps) ''CreateSubscription''
       (SubscriptionResponse emptySubscription_pb) = (handled, ret, err)"
    by (cases "runReactor s (CreateSubscriptionReq ps) ''CreateSubscription''
       (SubscriptionResponse emptySubscription_pb)") auto
  show ?thesis
    unfolding CreateSubscription_def r
    by (simp add: quiet_refl new Let_def split: option.splits)
qed

lemma UpdateSubscription_quiet: "quiet s (snd (UpdateSubscription s req))"
proof -
  have upd: "quiet s (s\<lparr>subs := (subs s)(name \<mapsto> sub\<lparr>sub_proto := p\<rparr>)\<rparr>)"
    if "findSubscription s name = Inr sub" for name sub p
    by (rule quiet_subs_upd[where name = name and sub' = "sub\<lparr>sub_proto := p\<rparr>"])
       (simp_all add: pendingOf_Some[OF findSubscription_Inr[OF that]] derived_refl)
  show ?thesis
    by (auto simp: UpdateSubscription_def quiet_refl upd split: option.splits prod.splits sum.splits)
qed

lemma Acknowledge_quiet: "quiet s (snd (Acknowledge s req))"
proof -
  have a: "quiet s (s\<lparr>subs := (subs s)(name \<mapsto> sub'), heap := h'\<rparr>)"
    if "findSubscription s name = Inr sub" "fold ack ids (sub, heap s) = (sub', h')"
    for name sub sub' h' ids
  proof (rule quiet_subs_upd[where name = name and sub' = sub'])
    have "derived (sub_msgs (fst (fold ack ids (sub, heap s)))) (sub_msgs sub)"
      by (rule fold_ack_derived)
    then show "derived (sub_msgs sub') (pendingOf s name)"
      by (simp add: that(2) pendingOf_Some[OF findSubscription_Inr[OF that(1)]])
  qed simp_all
  show ?thesis
    by (auto simp: Acknowledge_def quiet_refl a split: prod.splits sum.splits)
qed

lemma ModifyAckDeadline_quiet: "quiet s (snd (ModifyAckDeadline s req wall clock))"
proof -
  have a: "quiet s (s\<lparr>subs := (subs s)(name \<mapsto> modifyAckDeadlines d clock 0 ids sub), heap := h'\<rparr>)"
    if "findSubscription s name = Inr sub" for name sub h' ids d
  proof (rule quiet_subs_upd[where name = name and sub' = "modifyAckDeadlines d clock 0 ids sub"])
    show "derived (sub_msgs (modifyAckDeadlines d clock 0 ids sub)) (pendingOf s name)"
      unfolding pendingOf_Some[OF findSubscription_Inr[OF that]]
      by (rule modifyAckDeadlines_derived) (rule derived_refl)
  qed simp_all
  show ?thesis
    by (auto simp: ModifyAckDeadline_def quiet_refl a Let_def split: prod.splits sum.splits option.splits)
qed

lemma pull_derived:
  assumes "pull sub h mx env = Some (sub', h', got)" "derived (sub_msgs sub) ms0"
  shows "derived (sub_msgs sub') ms0"
proof -
  obtain now ord1 ord2 where env: "env = (now, ord1, ord2)" by (cases env) auto
  from assms(1) obtain ms where m: "maintainMessages now ord1 (sub_msgs sub) = Some ms"
    by (auto simp: pull_def env split: option.splits)
  then have d: "derived ms ms0" using assms(2) by (rule maintainMessages_derived)
  from assms(1) m have "sub_msgs sub' = fst (pullMessages now (sub_ackTimeout sub) mx ord2 ms h [])"
    by (auto simp: pull_def env split: prod.splits)
  with pullMessages_derived[OF d] show ?thesis by simp
qed

lemma Pull_quiet: "quiet s (snd (Pull s req env1 ctxErr env2))"
proof -
  have one: "quiet s (s\<lparr>subs := (subs s)(name \<mapsto> sub1), heap := h1\<rparr>)"
    if "findSubscription s name = Inr sub" "pull sub (heap s) mx env1 = Some (sub1, h1, got1)"
    for name sub sub1 h1 got1 mx
  proof (rule quiet_subs_upd[where name = name and sub' = sub1])
    show "derived (sub_msgs sub1) (pendingOf s name)"
      unfolding pendingOf_Some[OF findSubscription_Inr[OF that(1)]]
      using that(2) derived_refl by (rule pull_derived)
  qed simp_all
  have two: "quiet s (s\<lparr>subs := (subs s)(name \<mapsto> sub2), heap := h2\<rparr>)"
    if "findSubscription s name = Inr sub" "pull sub (heap s) mx env1 = Some (sub1, h1, got1)"
      "pull sub1 h1 mx env2 = Some (sub2, h2, got2)"
    for name sub sub1 h1 got1 mx sub2 h2 got2
  proof (rule quiet_subs_upd[where name = name and sub' = sub2])
    have "derived (sub_msgs sub1) (sub_msgs sub)"
      using that(2) derived_refl by (rule pull_derived)
    with that(3) show "derived (sub_msgs sub2) (pendingOf s name)"
      unfolding pendingOf_Some[OF findSubscription_Inr[OF that(1)]]
      by (rule pull_derived)
  qed simp_all
  obtain handled ret err where r: "runReactor s (PullReq req) ''Pull'' (PullResponse []) = (handled, ret, err)"
    by (cases "runReactor s (PullReq req) ''Pull'' (PullResponse [])") auto
  show ?thesis
  proof (cases "handled \<or> err \<noteq> None")
    case True
    with r show ?thesis by (auto simp: Pull_def quiet_refl)
  next
    case False
    note nh = this
    show ?thesis
    proof (cases "findSubscription s (pl_Subscription req)")
      case (Inl e)
      with r nh show ?thesis by (simp add: Pull_def quiet_refl)
    next
      case (Inr sub)
      define mx where "mx = (if sint (pl_MaxMessages req) = 0 then 1000 else sint (pl_MaxMessages req))"
      show ?thesis
      proof (cases "sint (pl_MaxMessages req) < 0")
        case True
        with r nh Inr show ?thesis by (simp add: Pull_def quiet_refl Let_def)
      next
        case False
        note nn = this
        show ?thesis
        proof (cases "pull sub (heap s) mx env1")
          case None
          with r nh Inr nn show ?thesis by (simp add: Pull_def quiet_refl Let_def mx_def)
        next
          case (Some p1)
          obtain sub1 h1 got1 where p1: "p1 = (sub1, h1, got1)" by (cases p1) auto
          note q1 = one[OF Inr Some[unfolded p1]]
          show ?thesis
          proof (cases "length got1 = 0 \<and> \<not> pl_ReturnImmediately req")
            case False
            with r nh Inr nn Some p1 q1 show ?thesis
              by (auto simp: Pull_def Let_def mx_def)
          next
            case True
            note again = this
            show ?thesis
            proof (cases ctxErr)
              case (Some e)
              with r nh Inr nn \<open>pull sub (heap s) mx env1 = Some p1\<close> p1 q1 again show ?thesis
                by (auto simp: Pull_def Let_def mx_def)
            next
              case None
              note nc = this
              show ?thesis
              proof (cases "pull sub1 h1 mx env2")
                case None
                with r nh Inr nn \<open>pull sub (heap s) mx env1 = Some p1\<close> p1 q1 again nc show ?thesis
                  by (auto simp: Pull_def Let_def mx_def)
              next
                case (Some p2)
                obtain sub2 h2 got2 where p2: "p2 = (sub2, h2, got2)" by (cases p2) auto
                note q2 = two[OF Inr \<open>pull sub (heap s) mx env1 = Some p1\<close>[unfolded p1] Some[unfolded p2]]
                with r nh Inr nn \<open>pull sub (heap s) mx env1 = Some p1\<close> p1 again nc Some p2 show ?thesis
                  by (auto simp: Pull_def Let_def mx_def)
              qed
            qed
          qed
        qed
      qed
    qed
  qed
qed

lemma StreamOpen_quiet: "quiet s (snd (StreamOpen s name))"
proof -
  have a: "quiet s (s\<lparr>subs := (subs s)(name \<mapsto> newStream sub a t), nextAddr := b\<rparr>)"
    if "findSubscription s name = Inr sub" for sub a t b
    by (rule quiet_subs_upd[where name = name and sub' = "newStream sub a t"])
       (simp_all add: pendingOf_Some[OF findSubscription_Inr[OF that]] derived_refl newStream_def)
  show ?thesis
    by (auto simp: StreamOpen_def quiet_refl a split: sum.splits)
qed

lemma onSubscription_quiet:
  "(\<And>sub. sub_msgs (f sub) = sub_msgs sub) \<Longrightarrow> quiet s (snd (onSubscription s name f))"
proof -
  assume f: "\<And>sub. sub_msgs (f sub) = sub_msgs sub"
  have a: "quiet s (s\<lparr>subs := (subs s)(name \<mapsto> f sub)\<rparr>)" if "subs s name = Some sub" for sub
    by (rule quiet_subs_upd[where name = name and sub' = "f sub"])
       (simp_all add: pendingOf_Some[OF that] derived_refl f)
  show ?thesis
    by (auto simp: onSubscription_def quiet_refl a split: option.splits)
qed

lemma handleStreamingPullRequest_derived:
  assumes "handleStreamingPullRequest sub h a req clock = Some (sub', h')"
  shows "derived (sub_msgs sub') (sub_msgs sub)"
proof -
  obtain sub1 h1 where f: "fold ack (sr_AckIds req) (sub, h) = (sub1, h1)"
    by (cases "fold ack (sr_AckIds req) (sub, h)") auto
  have d1: "derived (sub_msgs sub1) (sub_msgs sub)"
    using fold_ack_derived[of "sr_AckIds req" sub h] by (simp add: f)
  from assms f obtain sub2 where
    m: "modifyDeadlines clock 0 (sr_ModifyDeadlineAckIds req) (sr_ModifyDeadlineSeconds req) sub1 = Some sub2"
    and e: "sub_msgs sub' = sub_msgs sub2"
    by (auto simp: handleStreamingPullRequest_def split: option.splits if_splits)
  from m d1 have "derived (sub_msgs sub2) (sub_msgs sub)" by (rule modifyDeadlines_derived)
  with e show ?thesis by simp
qed

lemma StreamRecv_quiet: "quiet s (snd (StreamRecv s name a req clock))"
proof -
  have q: "quiet s (s\<lparr>subs := (subs s)(name \<mapsto> sub'), heap := h'\<rparr>)"
    if "subs s name = Some sub" "handleStreamingPullRequest sub (heap s) a req clock = Some (sub', h')"
    for sub sub' h'
  proof (rule quiet_subs_upd[where name = name and sub' = sub'])
    show "derived (sub_msgs sub') (pendingOf s name)"
      unfolding pendingOf_Some[OF that(1)] using that(2) by (rule handleStreamingPullRequest_derived)
  qed simp_all
  show ?thesis
    by (auto simp: StreamRecv_def quiet_refl q split: option.splits)
qed

lemma deliver_derived:
  assumes "deliver sub h env accept = Some (sub', h', sent)"
  shows "derived (sub_msgs sub') (sub_msgs sub)"
proof -
  obtain now ord1 ord2 where env: "env = (now, ord1, ord2)" by (cases env) auto
  from assms obtain ms where m: "maintainMessages now ord1 (sub_msgs sub) = Some ms"
    by (auto simp: deliver_def env split: option.splits)
  then have d: "derived ms (sub_msgs sub)" using derived_refl by (rule maintainMessages_derived)
  from assms m obtain streams' where
    "deliverMessages accept now ord2 0 0 (sub_streams sub) ms h [] = (streams', sub_msgs sub', h', sent)"
    by (auto simp: deliver_def env split: prod.splits)
  with d show ?thesis by (rule deliverMessages_derived[THEN conjunct1])
qed

lemma Deliver_quiet: "quiet s (snd (Deliver s name env accept))"
proof -
  have q: "quiet s (s\<lparr>subs := (subs s)(name \<mapsto> sub'), heap := h'\<rparr>)"
    if "subs s name = Some sub" "deliver sub (heap s) env accept = Some (sub', h', sent)"
    for sub sub' h' sent
  proof (rule quiet_subs_upd[where name = name and sub' = sub'])
    show "derived (sub_msgs sub') (pendingOf s name)"
      unfolding pendingOf_Some[OF that(1)] using that(2) by (rule deliver_derived)
  qed simp_all
  show ?thesis
    by (auto simp: Deliver_def quiet_refl q split: option.splits)
qed

lemma SetMinAckDeadline_quiet: "quiet s (snd (SetMinAckDeadline s n))"
  by (auto simp: SetMinAckDeadline_def intro!: quiet_refl quiet_same_subs)

lemma sint_eq_iff64: "sint (a :: 64 word) = sint b \<longleftrightarrow> a = b"
  by (auto intro: signed_word_eqI)

lemma of_nat_eq_iff64:
  "a < 2 ^ 64 \<Longrightarrow> b < 2 ^ 64 \<Longrightarrow> (of_nat a :: 64 word) = of_nat b \<longleftrightarrow> a = b"
  by (simp add: word_of_nat_eq_iff take_bit_nat_eq_self)

lemma sint_add_of_nat:
  "sint (n :: 64 word) + int k < 2 ^ 63 \<Longrightarrow> sint (n + of_nat k) = sint n + int k"
proof -
  assume a: "sint n + int k < 2 ^ 63"
  have l: "- (2 ^ 63) \<le> sint n" using sint_ge[of n] by simp
  have "n + of_nat k = word_of_int (sint n + int k)"
    by simp
  then have "sint (n + of_nat k) = signed_take_bit 63 (sint n + int k)"
    by (simp only: sint_sbintrunc') simp
  also have "\<dots> = sint n + int k"
    using a l by (intro signed_take_bit_int_eq_self) simp_all
  finally show ?thesis .
qed

lemma msgID_sint_inj: "msgID (sint (a :: 64 word)) = msgID (sint b) \<longleftrightarrow> a = b"
  by (simp add: msgID_inj sint_eq_iff64)

lemma evolves_nil:
  assumes "nextID s' = nextID s" "reactorOptions s' = reactorOptions s"
    and "\<And>n mid e'. pendingOf s' n mid = Some e' \<Longrightarrow>
           (\<exists>e. pendingOf s n mid = Some e \<and> m_proto e' = m_proto e) \<or>
           (rm_AckId (m_proto e') = mid \<and> rm_Message (m_proto e') = None)"
  shows "evolves 0 s s'"
  unfolding evolves_def using assms by auto

lemma Seek_evolves: "evolves 0 s (snd (Seek s req ids))"
proof -
  have e: "evolves 0 s (s\<lparr>subs := (subs s)(name \<mapsto> sub\<lparr>sub_msgs := seekRestore target h1 (msgs s) ms1\<rparr>),
                        heap := h1\<rparr>)"
    if "findSubscription s name = Inr sub" "seekDrop target ids (sub_msgs sub, heap s) = (ms1, h1)"
    for name sub target ms1 h1
  proof (rule evolves_nil)
    fix n mid e'
    note p = pendingOf_Some[OF findSubscription_Inr[OF that(1)]]
    have d: "derived ms1 (sub_msgs sub)"
      using seekDrop_derived[OF derived_refl, of target ids "sub_msgs sub" "heap s"] by (simp add: that(2))
    assume a: "pendingOf (s\<lparr>subs := (subs s)(name \<mapsto> sub\<lparr>sub_msgs := seekRestore target h1 (msgs s) ms1\<rparr>),
                        heap := h1\<rparr>) n mid = Some e'"
    show "(\<exists>e. pendingOf s n mid = Some e \<and> m_proto e' = m_proto e) \<or>
            rm_AckId (m_proto e') = mid \<and> rm_Message (m_proto e') = None"
    proof (cases "n = name")
      case False
      with a have "pendingOf s n mid = Some e'" by (simp add: pendingOf_def)
      then show ?thesis by simp
    next
      case True
      with a have "seekRestore target h1 (msgs s) ms1 mid = Some e'" by (simp add: pendingOf_def)
      then have "ms1 mid = Some e' \<or> (rm_AckId (m_proto e') = mid \<and> rm_Message (m_proto e') = None)"
        by (rule seekRestore_entry)
      then show ?thesis
      proof
        assume "ms1 mid = Some e'"
        with d obtain e where "sub_msgs sub mid = Some e" "m_proto e' = m_proto e"
          unfolding derived_def by blast
        then show ?thesis by (simp add: True p)
      next
        assume "rm_AckId (m_proto e') = mid \<and> rm_Message (m_proto e') = None"
        then show ?thesis by simp
      qed
    qed
  qed simp_all
  show ?thesis
    by (auto simp: Seek_def quiet_refl quiet_evolves e Let_def split: SeekTarget.splits prod.splits sum.splits)
qed

lemma idsFrom_0: "idsFrom n 0 = []"
  by (simp add: idsFrom_def)

lemma idsFrom_Suc: "idsFrom n (Suc c) = msgID (sint n) # idsFrom (n + 1) c"
proof -
  have "[0..<Suc c] = 0 # map Suc [0..<c]"
    by (simp add: upt_conv_Cons map_Suc_upt del: upt_Suc)
  then show ?thesis
    by (simp add: idsFrom_def comp_def add.assoc del: upt_Suc)
qed

lemma idsFrom_add: "idsFrom n (a + b) = idsFrom n a @ idsFrom (n + of_nat a) b"
proof (induction a arbitrary: n)
  case 0
  show ?case by (simp add: idsFrom_0)
next
  case (Suc a)
  have "idsFrom n (Suc a + b) = msgID (sint n) # idsFrom (n + 1) (a + b)"
    by (simp add: idsFrom_Suc)
  also have "\<dots> = msgID (sint n) # (idsFrom (n + 1) a @ idsFrom (n + 1 + of_nat a) b)"
    by (simp only: Suc.IH)
  also have "\<dots> = idsFrom n (Suc a) @ idsFrom (n + of_nat (Suc a)) b"
    by (simp add: idsFrom_Suc add.commute add.left_commute)
  finally show ?case .
qed

lemma length_idsFrom: "length (idsFrom n c) = c"
  by (simp add: idsFrom_def)

lemma nth_idsFrom: "k < c \<Longrightarrow> idsFrom n c ! k = msgID (sint (n + of_nat k))"
  by (simp add: idsFrom_def)

lemma distinct_idsFrom: "c \<le> 2 ^ 64 \<Longrightarrow> distinct (idsFrom n c)"
proof -
  assume c: "c \<le> 2 ^ 64"
  have "inj_on (\<lambda>k. msgID (sint (n + of_nat k))) (set [0..<c])"
  proof (rule inj_onI)
    fix x y
    assume x: "x \<in> set [0..<c]" and y: "y \<in> set [0..<c]"
      and e: "msgID (sint (n + of_nat x)) = msgID (sint (n + of_nat y))"
    from e have "(of_nat x :: 64 word) = of_nat y" by (simp add: msgID_sint_inj)
    moreover from x y c have "x < 2 ^ 64" "y < 2 ^ 64" by simp_all
    ultimately show "x = y" by (simp add: of_nat_eq_iff64)
  qed
  then show ?thesis by (simp add: idsFrom_def distinct_map)
qed

lemma idsFrom_no_wrap:
  assumes "sint n + int c \<le> 2 ^ 63"
  shows "idsFrom n c = map (\<lambda>k. msgID (sint n + int k)) [0..<c]"
  unfolding idsFrom_def
proof (rule map_cong)
  fix k
  assume "k \<in> set [0..<c]"
  with assms have "sint n + int k < 2 ^ 63" by simp
  then show "msgID (sint (n + of_nat k)) = msgID (sint n + int k)"
    by (simp only: sint_add_of_nat)
qed simp

lemma publishOne_counters:
  "nextID (snd (publishOne t pubTime pm s)) = nextID s + 1 \<and>
   reactorOptions (snd (publishOne t pubTime pm s)) = reactorOptions s \<and>
   nextAddr (snd (publishOne t pubTime pm s)) = nextAddr s + 1"
  by (simp add: publishOne_def Let_def)

lemma publishMessages_ids:
  "fst (publishMessages t clock i pms s) = idsFrom (nextID s) (length pms) \<and>
   nextID (snd (publishMessages t clock i pms s)) = nextID s + of_nat (length pms) \<and>
   reactorOptions (snd (publishMessages t clock i pms s)) = reactorOptions s"
proof (induction pms arbitrary: i s)
  case Nil
  show ?case by (simp add: idsFrom_0)
next
  case (Cons pm pms)
  note c = publishOne_counters[of t "clock i" pm s]
  note ih = Cons.IH[of "Suc i" "snd (publishOne t (clock i) pm s)"]
  show ?case
    using ih c
    by (simp add: publishMessages_Cons publishOne_fst idsFrom_Suc del: publishMessages.simps)
qed

lemma publishOne_pending:
  assumes "pendingOf (snd (publishOne t pubTime pm s)) n mid = Some e'"
  shows "pendingOf s n mid = Some e' \<or>
         (mid = msgID (sint (nextID s)) \<and> rm_AckId (m_proto e') = mid)"
proof (cases "subs s n")
  case None
  with assms show ?thesis
    by (auto simp: pendingOf_def publishOne_def Let_def topic_publish_def split: if_splits)
next
  case (Some sub)
  with assms show ?thesis
    by (auto simp: pendingOf_def publishOne_def Let_def topic_publish_def publishedMessage_def
        split: if_splits)
qed

lemma publishMessages_pending:
  assumes "pendingOf (snd (publishMessages t clock i pms s)) n mid = Some e'"
  shows "pendingOf s n mid = Some e' \<or>
         (rm_AckId (m_proto e') = mid \<and>
          (\<exists>k < length pms. mid = msgID (sint (nextID s + of_nat k))))"
  using assms
proof (induction pms arbitrary: i s)
  case Nil
  then show ?case by simp
next
  case (Cons pm pms)
  define s1 where "s1 = snd (publishOne t (clock i) pm s)"
  have n1: "nextID s1 = nextID s + 1"
    using publishOne_counters[of t "clock i" pm s] by (simp add: s1_def)
  from Cons.prems have "pendingOf (snd (publishMessages t clock (i + 1) pms s1)) n mid = Some e'"
    by (simp only: publishMessages_Cons snd_conv s1_def)
  then have "pendingOf s1 n mid = Some e' \<or>
         (rm_AckId (m_proto e') = mid \<and>
          (\<exists>k < length pms. mid = msgID (sint (nextID s1 + of_nat k))))"
    by (rule Cons.IH)
  then show ?case
  proof
    assume "pendingOf s1 n mid = Some e'"
    then have "pendingOf s n mid = Some e' \<or>
               (mid = msgID (sint (nextID s)) \<and> rm_AckId (m_proto e') = mid)"
      unfolding s1_def by (rule publishOne_pending)
    then show ?thesis
    proof
      assume "pendingOf s n mid = Some e'"
      then show ?thesis by simp
    next
      assume a: "mid = msgID (sint (nextID s)) \<and> rm_AckId (m_proto e') = mid"
      have "0 < length (pm # pms) \<and> msgID (sint (nextID s)) = msgID (sint (nextID s + of_nat 0))"
        by simp
      with a show ?thesis by blast
    qed
  next
    assume "rm_AckId (m_proto e') = mid \<and>
          (\<exists>k < length pms. mid = msgID (sint (nextID s1 + of_nat k)))"
    then obtain k where k: "rm_AckId (m_proto e') = mid" "k < length pms"
        "mid = msgID (sint (nextID s1 + of_nat k))"
      by blast
    have "nextID s1 + of_nat k = nextID s + of_nat (Suc k)" by (simp add: n1)
    with k(2,3) have "Suc k < length (pm # pms) \<and> mid = msgID (sint (nextID s + of_nat (Suc k)))"
      by simp
    with k(1) show ?thesis by blast
  qed
qed

lemma publishMessages_evolves:
  "evolves (length pms) s (snd (publishMessages t clock i pms s))"
  unfolding evolves_def
proof (intro conjI allI impI)
  show "nextID (snd (publishMessages t clock i pms s)) = nextID s + of_nat (length pms)"
    by (simp add: publishMessages_ids)
  show "reactorOptions (snd (publishMessages t clock i pms s)) = reactorOptions s"
    by (simp add: publishMessages_ids)
next
  fix n mid e'
  assume "pendingOf (snd (publishMessages t clock i pms s)) n mid = Some e'"
  then have "pendingOf s n mid = Some e' \<or>
         (rm_AckId (m_proto e') = mid \<and>
          (\<exists>k < length pms. mid = msgID (sint (nextID s + of_nat k))))"
    by (rule publishMessages_pending)
  then show "(\<exists>e. pendingOf s n mid = Some e \<and> m_proto e' = m_proto e) \<or>
       rm_AckId (m_proto e') = mid \<and>
       (rm_Message (m_proto e') = None \<or>
        (\<exists>k < length pms. mid = msgID (sint (nextID s + of_nat k))))"
    by auto
qed

lemma Publish_evolves:
  "\<exists>d \<le> length (pr_Messages req). evolves d s (snd (Publish s req clock))"
proof -
  have same: "\<exists>d \<le> length (pr_Messages req). evolves d s s"
    using quiet_evolves[OF quiet_refl, of s] by blast
  have e': "\<exists>d \<le> length (pr_Messages req). evolves d s s'"
    if "publishMessages t clock 0 (pr_Messages req) s = (ids, s')" for t ids s'
    using publishMessages_evolves[of "pr_Messages req" s t clock 0] that by auto
  show ?thesis
    using same e' by (auto simp: Publish_def split: prod.splits option.splits)
qed

lemma Seek_nextID: "nextID (snd (Seek s req ids)) = nextID s"
  by (auto simp: Seek_def Let_def split: SeekTarget.splits prod.splits sum.splits)

lemma step_quiet:
  assumes "\<And>req ids. x \<noteq> OpSeek req ids" "\<And>req clock. x \<noteq> OpPublish req clock"
  shows "quiet s (snd (step s x))"
proof (cases x)
  case (OpCreateTopic t)
  then show ?thesis by (simp add: CreateTopic_quiet)
next
  case (OpGetTopic name)
  then show ?thesis by (simp add: GetTopic_quiet)
next
  case (OpUpdateTopic req)
  then show ?thesis by (simp add: UpdateTopic_quiet)
next
  case (OpDeleteTopic name)
  then show ?thesis by (simp add: DeleteTopic_quiet)
next
  case (OpCreateSubscription ps)
  then show ?thesis by (simp add: CreateSubscription_quiet)
next
  case (OpGetSubscription name)
  then show ?thesis by (simp add: GetSubscription_quiet)
next
  case (OpUpdateSubscription req)
  then show ?thesis by (simp add: UpdateSubscription_quiet)
next
  case (OpDeleteSubscription name)
  then show ?thesis by (simp add: DeleteSubscription_quiet)
next
  case (OpDetachSubscription name)
  then show ?thesis by (simp add: DetachSubscription_quiet)
next
  case (OpPublish req clock)
  with assms(2)[of req clock] show ?thesis by simp
next
  case (OpAcknowledge req)
  then show ?thesis by (simp add: Acknowledge_quiet)
next
  case (OpModifyAckDeadline req wall clock)
  then show ?thesis by (simp add: ModifyAckDeadline_quiet)
next
  case (OpPull req env1 ctxErr env2)
  then show ?thesis by (simp add: Pull_quiet)
next
  case (OpSeek req ids)
  with assms(1)[of req ids] show ?thesis by simp
next
  case (OpStreamOpen name)
  then show ?thesis by (simp add: StreamOpen_quiet)
next
  case (OpStreamRecv name a req clock)
  then show ?thesis by (simp add: StreamRecv_quiet)
next
  case (OpStreamClose name a)
  then show ?thesis by (simp add: onSubscription_quiet closeStream_def)
next
  case (OpStreamDelete name a)
  then show ?thesis by (simp add: onSubscription_quiet deleteStream_def Let_def)
next
  case (OpDeliver name env accept)
  then show ?thesis by (simp add: Deliver_quiet)
next
  case OpClearMessages
  then show ?thesis by (simp add: ClearMessages_def quiet_same_subs)
next
  case (OpSetStreamTimeout d)
  then show ?thesis by (simp add: quiet_same_subs)
next
  case (OpSetMinAckDeadline n)
  then show ?thesis by (simp add: SetMinAckDeadline_quiet)
next
  case OpResetMinAckDeadline
  then show ?thesis by (simp add: ResetMinAckDeadline_def quiet_same_subs)
qed

lemma step_evolves: "\<exists>d \<le> opPublishes x. evolves d s (snd (step s x))"
proof (cases "(\<exists>req ids. x = OpSeek req ids) \<or> (\<exists>req clock. x = OpPublish req clock)")
  case True
  then show ?thesis
  proof
    assume "\<exists>req ids. x = OpSeek req ids"
    then obtain req ids where "x = OpSeek req ids" by blast
    then show ?thesis using Seek_evolves[of s req ids] by auto
  next
    assume "\<exists>req clock. x = OpPublish req clock"
    then obtain req clock where "x = OpPublish req clock" by blast
    then show ?thesis using Publish_evolves[of req s clock] by (simp add: opPublishes_def)
  qed
next
  case False
  then have "quiet s (snd (step s x))" by (intro step_quiet) auto
  then have "evolves 0 s (snd (step s x))" by (rule quiet_evolves)
  then show ?thesis by auto
qed

lemma step_reactorOptions: "reactorOptions (snd (step s x)) = reactorOptions s"
  using step_evolves[of x s] by (auto simp: evolves_def)

lemma step_unhandled: "unhandled (snd (step s x)) req f = unhandled s req f"
  by (simp add: unhandled_def step_reactorOptions)

lemma Publish_ids:
  assumes "unhandled s (PublishReq req) ''Publish''"
    and "Publish s req clock = (r, s')"
  shows "issuedBy (OpPublish req clock) r = idsFrom (nextID s) (length (issuedBy (OpPublish req clock) r)) \<and>
         nextID s' = nextID s + of_nat (length (issuedBy (OpPublish req clock) r))"
proof -
  note rr = runReactor_unhandled[OF assms(1), of "PublishResponse []"]
  show ?thesis
  proof (cases "pr_Topic req = []")
    case True
    with assms(2) rr show ?thesis by (auto simp: Publish_def issuedBy_def idsFrom_0)
  next
    case False
    note nt = this
    show ?thesis
    proof (cases "topics s (pr_Topic req)")
      case None
      with assms(2) rr nt show ?thesis by (auto simp: Publish_def issuedBy_def idsFrom_0)
    next
      case (Some t)
      with assms(2) rr nt
      have "r = OK (PublishResponse (fst (publishMessages t clock 0 (pr_Messages req) s)))"
        and "s' = snd (publishMessages t clock 0 (pr_Messages req) s)"
        by (auto simp: Publish_def split: prod.splits)
      then show ?thesis
        by (simp add: issuedBy_def publishMessages_ids length_idsFrom)
    qed
  qed
qed

lemma step_issued:
  assumes "\<forall>req. unhandled s (PublishReq req) ''Publish''"
    and "step s x = (r, s')"
  shows "issuedBy x r = idsFrom (nextID s) (length (issuedBy x r)) \<and>
         nextID s' = nextID s + of_nat (length (issuedBy x r)) \<and>
         (\<forall>req. unhandled s' (PublishReq req) ''Publish'')"
proof -
  have u: "\<forall>req. unhandled s' (PublishReq req) ''Publish''"
    using assms(1) step_unhandled[of s x] assms(2) by simp
  show ?thesis
  proof (cases "\<exists>req clock. x = OpPublish req clock")
    case True
    then obtain req clock where x: "x = OpPublish req clock" by blast
    with assms(2) have "Publish s req clock = (r, s')" by simp
    with assms(1) have "issuedBy (OpPublish req clock) r = idsFrom (nextID s) (length (issuedBy (OpPublish req clock) r)) \<and>
         nextID s' = nextID s + of_nat (length (issuedBy (OpPublish req clock) r))"
      by (intro Publish_ids) simp_all
    with u x show ?thesis by simp
  next
    case False
    then have i: "issuedBy x r = []" by (cases x) (simp_all add: issuedBy_def)
    have "nextID s' = nextID s"
    proof (cases "\<exists>req ids. x = OpSeek req ids")
      case True
      with assms(2) Seek_nextID show ?thesis by (metis snd_conv step.simps(14))
    next
      case False
      with \<open>\<not> (\<exists>req clock. x = OpPublish req clock)\<close> have "quiet s (snd (step s x))"
        by (intro step_quiet) auto
      with assms(2) show ?thesis by (simp add: quiet_def)
    qed
    with i u show ?thesis by (simp add: idsFrom_0)
  qed
qed

lemma run_issued:
  assumes "\<forall>req. unhandled s (PublishReq req) ''Publish''"
  shows "publishedIDs (fst (run s ops)) = idsFrom (nextID s) (length (publishedIDs (fst (run s ops)))) \<and>
         nextID (snd (run s ops)) = nextID s + of_nat (length (publishedIDs (fst (run s ops))))"
  using assms
proof (induction ops arbitrary: s)
  case Nil
  show ?case by (simp add: publishedIDs_def idsFrom_0)
next
  case (Cons x xs)
  obtain r s' where st: "step s x = (r, s')" by (cases "step s x") auto
  note i = step_issued[OF Cons.prems st]
  define a where "a = length (issuedBy x r)"
  show ?case
  proof (cases "r = Panic")
    case True
    with st i show ?thesis by (simp add: publishedIDs_def)
  next
    case False
    obtain rs s'' where rn: "run s' xs = (rs, s'')" by (cases "run s' xs") auto
    define b where "b = length (publishedIDs rs)"
    from i have u: "\<forall>req. unhandled s' (PublishReq req) ''Publish''" by simp
    from Cons.IH[OF u] rn
    have ih: "publishedIDs rs = idsFrom (nextID s') b" "nextID s'' = nextID s' + of_nat b"
      by (simp_all add: b_def)
    from i have i1: "issuedBy x r = idsFrom (nextID s) a" and i2: "nextID s' = nextID s + of_nat a"
      by (simp_all add: a_def)
    have p: "publishedIDs ((x, r) # rs) = issuedBy x r @ publishedIDs rs"
      by (simp add: publishedIDs_def)
    have l: "length (publishedIDs ((x, r) # rs)) = a + b"
      by (simp add: p a_def b_def)
    have "publishedIDs ((x, r) # rs) = idsFrom (nextID s) a @ idsFrom (nextID s + of_nat a) b"
      unfolding p using i1 ih(1) i2 by simp
    also have "\<dots> = idsFrom (nextID s) (a + b)" by (simp only: idsFrom_add)
    finally have e: "publishedIDs ((x, r) # rs) = idsFrom (nextID s) (a + b)" .
    have "run s (x # xs) = ((x, r) # rs, s'')" using st False rn by simp
    then show ?thesis using e l ih(2) i2 by simp
  qed
qed

lemma publishMessages_frame:
  "(\<forall>k < length pms. mid \<noteq> msgID (sint (nextID s + of_nat k))) \<Longrightarrow> a < nextAddr s \<Longrightarrow>
   msgsByID (snd (publishMessages t clock i pms s)) mid = msgsByID s mid \<and>
   heap (snd (publishMessages t clock i pms s)) a = heap s a"
proof (induction pms arbitrary: i s)
  case Nil
  show ?case by simp
next
  case (Cons pm pms)
  define s1 where "s1 = snd (publishOne t (clock i) pm s)"
  have c: "nextID s1 = nextID s + 1" "nextAddr s1 = nextAddr s + 1"
    using publishOne_counters[of t "clock i" pm s] by (simp_all add: s1_def)
  from Cons.prems(1) have "mid \<noteq> msgID (sint (nextID s + of_nat 0))" by blast
  then have f: "msgsByID s1 mid = msgsByID s mid" "heap s1 a = heap s a"
    using Cons.prems(2) by (simp_all add: s1_def publishOne_def Let_def)
  have "\<forall>k < length pms. mid \<noteq> msgID (sint (nextID s1 + of_nat k))"
  proof (intro allI impI)
    fix k
    assume "k < length pms"
    then have "Suc k < length (pm # pms)" by simp
    with Cons.prems(1) have "mid \<noteq> msgID (sint (nextID s + of_nat (Suc k)))" by blast
    then show "mid \<noteq> msgID (sint (nextID s1 + of_nat k))" by (simp add: c add.assoc)
  qed
  then have "msgsByID (snd (publishMessages t clock (i + 1) pms s1)) mid = msgsByID s1 mid \<and>
        heap (snd (publishMessages t clock (i + 1) pms s1)) a = heap s1 a"
    using Cons.prems(2) c by (intro Cons.IH) simp_all
  with f show ?case
    by (simp only: publishMessages_Cons snd_conv s1_def[symmetric])
qed

lemma publishMessages_records:
  "k < length pms \<Longrightarrow> length pms \<le> 2 ^ 64 \<Longrightarrow>
   msgsByID (snd (publishMessages t clock i pms s)) (msgID (sint (nextID s + of_nat k))) =
     Some (nextAddr s + k) \<and>
   M_ID (heap (snd (publishMessages t clock i pms s)) (nextAddr s + k)) =
     msgID (sint (nextID s + of_nat k)) \<and>
   M_Data (heap (snd (publishMessages t clock i pms s)) (nextAddr s + k)) = pm_Data (pms ! k)"
proof (induction pms arbitrary: i s k)
  case Nil
  then show ?case by simp
next
  case (Cons pm pms)
  define s1 where "s1 = snd (publishOne t (clock i) pm s)"
  have c: "nextID s1 = nextID s + 1" "nextAddr s1 = nextAddr s + 1"
    using publishOne_counters[of t "clock i" pm s] by (simp_all add: s1_def)
  have e: "snd (publishMessages t clock i (pm # pms) s) = snd (publishMessages t clock (i + 1) pms s1)"
    by (simp only: publishMessages_Cons snd_conv s1_def[symmetric])
  show ?case
  proof (cases k)
    case 0
    have f: "msgsByID s1 (msgID (sint (nextID s))) = Some (nextAddr s)"
      "M_ID (heap s1 (nextAddr s)) = msgID (sint (nextID s))"
      "M_Data (heap s1 (nextAddr s)) = pm_Data pm"
      by (simp_all add: s1_def publishOne_def Let_def)
    have "\<forall>j < length pms. msgID (sint (nextID s)) \<noteq> msgID (sint (nextID s1 + of_nat j))"
    proof (intro allI impI)
      fix j
      assume j: "j < length pms"
      with Cons.prems(2) have "Suc j < 2 ^ 64" by simp
      then have "(of_nat (Suc j) :: 64 word) \<noteq> of_nat 0"
        by (subst of_nat_eq_iff64) simp_all
      then have "nextID s \<noteq> nextID s + of_nat (Suc j)" by simp
      then show "msgID (sint (nextID s)) \<noteq> msgID (sint (nextID s1 + of_nat j))"
        by (simp add: msgID_sint_inj c add.assoc)
    qed
    then have "msgsByID (snd (publishMessages t clock (i + 1) pms s1)) (msgID (sint (nextID s))) =
          msgsByID s1 (msgID (sint (nextID s))) \<and>
        heap (snd (publishMessages t clock (i + 1) pms s1)) (nextAddr s) = heap s1 (nextAddr s)"
      using c by (intro publishMessages_frame) simp_all
    with f 0 show ?thesis unfolding e by simp
  next
    case (Suc k')
    with Cons.prems have "k' < length pms" "length pms \<le> 2 ^ 64" by simp_all
    from Cons.IH[OF this, of "i + 1" s1] c Suc show ?thesis
      unfolding e by (simp add: add.assoc add.commute add.left_commute)
  qed
qed

lemma run_create_publish:
  "run (NewServer []) [OpCreateTopic topic_t, OpCreateSubscription subscription_s,
                       OpPublish publish_hello (\<lambda>i. 1000)] =
     ([(OpCreateTopic topic_t, OK (TopicResponse topic_t)),
       (OpCreateSubscription subscription_s, OK (SubscriptionResponse (withDefaults subscription_s))),
       (OpPublish publish_hello (\<lambda>i. 1000), OK (PublishResponse [''m0'']))], server_m0 0)"
proof -
  have a: "step (NewServer []) (OpCreateTopic topic_t) = (OK (TopicResponse topic_t), server_t)"
    by (simp add: CreateTopic_def runReactor_def NewServer_def server_t_def topic_t_def)
  have b: "step server_t (OpCreateSubscription subscription_s) =
             (OK (SubscriptionResponse (withDefaults subscription_s)), server_ts)"
    by (simp add: CreateSubscription_def runReactor_def NewServer_def server_t_def server_ts_def
          topic_t_def subscription_s_def emptySubscription_pb_def withDefaults_def newTopic_def
          checkAckDeadline_def checkMRD_def defaultMessageRetentionDuration_def AsDuration_def
          minMessageRetentionDuration_def maxMessageRetentionDuration_def Hour_def Minute_def
          Second_def Let_def)
  have c: "step server_ts (OpPublish publish_hello (\<lambda>i. 1000)) = (OK (PublishResponse [''m0'']), server_m0 0)"
    by (simp add: Publish_server_ts)
  show ?thesis
    by (simp only: run.simps a b c split_conv reply.distinct if_False)
qed

text \<open>
  Claim C1, as amended. A \<^verbatim>\<open>Publish\<close> that names an existing topic by a non-empty
  name (and that no reactor takes) answers with one identifier for each message of the
  request, in the order of the messages: the identifiers of the counter values
  \<open>nextID\<close>, \<open>nextID + 1\<close>, \<open>\<dots>\<close> in 64-bit arithmetic, and leaves the counter after the
  last of them. While the counter does not pass \<open>2\<^sup>6\<^sup>3 - 1\<close>, these are the identifiers of
  the integers \<open>nextID\<close>, \<open>nextID + 1\<close>, \<open>\<dots>\<close>, which grow strictly, and the message at
  index \<open>k\<close> of the request is recorded under the identifier of \<open>nextID + k\<close> with its
  payload. A \<^verbatim>\<open>Publish\<close> with an empty topic name fails with \<open>InvalidArgument\<close> and
  issues nothing, whether or not a topic of that name exists. On a server where no
  reactor takes a \<^verbatim>\<open>Publish\<close>, the identifiers given out along any run, by all its
  \<^verbatim>\<open>Publish\<close> calls in order, are those of consecutive counter values from the
  counter at the start; they are pairwise distinct while no more than \<open>2\<^sup>6\<^sup>4\<close> are
  issued, and they are the identifiers of strictly growing integers while the counter
  does not pass \<open>2\<^sup>6\<^sup>3 - 1\<close>. A new server starts its counter at 0, and distinct
  integers are formatted to distinct identifiers.
\<close>

theorem Publish_identifiers_increase_until_the_counter_wraps:
  "(unhandled s (PublishReq req) ''Publish'' \<and> pr_Topic req \<noteq> [] \<and>
    topics s (pr_Topic req) = Some t \<longrightarrow>
      fst (Publish s req clock) =
        OK (PublishResponse (idsFrom (nextID s) (length (pr_Messages req)))) \<and>
      nextID (snd (Publish s req clock)) = nextID s + of_nat (length (pr_Messages req)) \<and>
      (sint (nextID s) + int (length (pr_Messages req)) \<le> 2 ^ 63 \<longrightarrow>
         fst (Publish s req clock) =
           OK (PublishResponse (map (\<lambda>k. msgID (sint (nextID s) + int k))
                                  [0..<length (pr_Messages req)])) \<and>
         (\<forall>k < length (pr_Messages req).
            \<exists>a. msgsByID (snd (Publish s req clock)) (msgID (sint (nextID s) + int k)) = Some a \<and>
                M_ID (heap (snd (Publish s req clock)) a) = msgID (sint (nextID s) + int k) \<and>
                M_Data (heap (snd (Publish s req clock)) a) = pm_Data (pr_Messages req ! k)))) \<and>
   (unhandled s (PublishReq req) ''Publish'' \<and> pr_Topic req = [] \<longrightarrow>
      Publish s req clock = (Error (Status InvalidArgument ''missing topic'' []), s)) \<and>
   ((\<forall>req. unhandled s (PublishReq req) ''Publish'') \<longrightarrow>
      publishedIDs (fst (run s ops)) =
        idsFrom (nextID s) (length (publishedIDs (fst (run s ops)))) \<and>
      nextID (snd (run s ops)) = nextID s + of_nat (length (publishedIDs (fst (run s ops)))) \<and>
      (length (publishedIDs (fst (run s ops))) \<le> 2 ^ 64 \<longrightarrow>
         distinct (publishedIDs (fst (run s ops)))) \<and>
      (sint (nextID s) + int (length (publishedIDs (fst (run s ops)))) \<le> 2 ^ 63 \<longrightarrow>
         publishedIDs (fst (run s ops)) =
           map (\<lambda>k. msgID (sint (nextID s) + int k))
             [0..<length (publishedIDs (fst (run s ops)))])) \<and>
   sint (nextID (NewServer opts)) = 0 \<and>
   (\<forall>i j. msgID i = msgID j \<longrightarrow> i = j)"
proof (intro conjI impI allI)
  assume a: "unhandled s (PublishReq req) ''Publish'' \<and> pr_Topic req \<noteq> [] \<and>
    topics s (pr_Topic req) = Some t"
  then have rr: "runReactor s (PublishReq req) ''Publish'' (PublishResponse []) = (False, None, None)"
    by (simp add: runReactor_unhandled)
  have p: "Publish s req clock =
      (OK (PublishResponse (fst (publishMessages t clock 0 (pr_Messages req) s))),
       snd (publishMessages t clock 0 (pr_Messages req) s))"
    using a by (simp add: Publish_def rr split: prod.splits)
  show r: "fst (Publish s req clock) =
        OK (PublishResponse (idsFrom (nextID s) (length (pr_Messages req))))"
    by (simp add: p publishMessages_ids)
  show "nextID (snd (Publish s req clock)) = nextID s + of_nat (length (pr_Messages req))"
    by (simp add: p publishMessages_ids)
  assume b: "sint (nextID s) + int (length (pr_Messages req)) \<le> 2 ^ 63"
  show "fst (Publish s req clock) =
           OK (PublishResponse (map (\<lambda>k. msgID (sint (nextID s) + int k))
                                  [0..<length (pr_Messages req)]))"
    unfolding r using b by (simp only: idsFrom_no_wrap)
  fix k
  assume k: "k < length (pr_Messages req)"
  have "- (2 ^ 63) \<le> sint (nextID s)" using sint_ge[of "nextID s"] by simp
  with b have l: "length (pr_Messages req) \<le> 2 ^ 64" by simp
  from b k have "sint (nextID s) + int k < 2 ^ 63" by simp
  then have e: "sint (nextID s + of_nat k) = sint (nextID s) + int k"
    by (rule sint_add_of_nat)
  from publishMessages_records[OF k l, of t clock 0 s]
  show "\<exists>a. msgsByID (snd (Publish s req clock)) (msgID (sint (nextID s) + int k)) = Some a \<and>
             M_ID (heap (snd (Publish s req clock)) a) = msgID (sint (nextID s) + int k) \<and>
             M_Data (heap (snd (Publish s req clock)) a) = pm_Data (pr_Messages req ! k)"
    unfolding p snd_conv e by blast
next
  assume "unhandled s (PublishReq req) ''Publish'' \<and> pr_Topic req = []"
  then show "Publish s req clock = (Error (Status InvalidArgument ''missing topic'' []), s)"
    by (simp add: Publish_def runReactor_unhandled)
next
  assume u: "\<forall>req. unhandled s (PublishReq req) ''Publish''"
  note r = run_issued[OF u, of ops]
  from r show i: "publishedIDs (fst (run s ops)) =
        idsFrom (nextID s) (length (publishedIDs (fst (run s ops))))"
    by (rule conjunct1)
  from r show "nextID (snd (run s ops)) = nextID s + of_nat (length (publishedIDs (fst (run s ops))))"
    by (rule conjunct2)
  show "distinct (publishedIDs (fst (run s ops)))"
    if "length (publishedIDs (fst (run s ops))) \<le> 2 ^ 64"
    using distinct_idsFrom[OF that, of "nextID s"] i by simp
  show "publishedIDs (fst (run s ops)) =
           map (\<lambda>k. msgID (sint (nextID s) + int k))
             [0..<length (publishedIDs (fst (run s ops)))]"
    if "sint (nextID s) + int (length (publishedIDs (fst (run s ops)))) \<le> 2 ^ 63"
    using idsFrom_no_wrap[OF that] i by simp
next
  show "sint (nextID (NewServer opts)) = 0" by (simp add: NewServer_def)
next
  fix i j
  assume "msgID i = msgID j"
  then show "i = j" by (simp add: msgID_inj)
qed

theorem Publish_identifiers_increase_until_the_counter_wraps_witness:
  "unhandled server_ts (PublishReq publish_hello) ''Publish'' \<and>
   topics server_ts ''t'' = Some ((newTopic topic_t)\<lparr>t_subs := {''s''}\<rparr>) \<and>
   fst (Publish server_ts publish_hello (\<lambda>i. 1000)) = OK (PublishResponse [''m0'']) \<and>
   nextID (snd (Publish server_ts publish_hello (\<lambda>i. 1000))) = 1 \<and>
   (\<forall>req. unhandled (NewServer []) (PublishReq req) ''Publish'') \<and>
   publishedIDs (fst (run (NewServer []) [OpCreateTopic topic_t, OpCreateSubscription subscription_s,
                       OpPublish publish_hello (\<lambda>i. 1000)])) = [''m0''] \<and>
   nextID (snd (run (NewServer []) [OpCreateTopic topic_t, OpCreateSubscription subscription_s,
                       OpPublish publish_hello (\<lambda>i. 1000)])) = 1"
proof -
  let ?ops = "[OpCreateTopic topic_t, OpCreateSubscription subscription_s,
               OpPublish publish_hello (\<lambda>i. 1000)]"
  have u: "\<forall>req. unhandled (NewServer []) (PublishReq req) ''Publish''"
    by (simp add: unhandled_def NewServer_def)
  have A: "unhandled server_ts (PublishReq publish_hello) ''Publish'' \<and> pr_Topic publish_hello \<noteq> [] \<and>
           topics server_ts (pr_Topic publish_hello) = Some ((newTopic topic_t)\<lparr>t_subs := {''s''}\<rparr>)"
    by (simp add: unhandled_def NewServer_def server_ts_def publish_hello_def)
  have l: "length (publishedIDs (fst (run (NewServer []) ?ops))) = 1"
    by (simp only: run_create_publish fst_conv) (simp add: publishedIDs_def issuedBy_def)
  have n: "nextID server_ts = 0" "nextID (NewServer []) = 0" "length (pr_Messages publish_hello) = 1"
    by (simp_all add: server_ts_def NewServer_def publish_hello_def)
  have i: "idsFrom 0 1 = [''m0'']"
    by (simp add: idsFrom_def msgID_0)
  from Publish_identifiers_increase_until_the_counter_wraps
         [of server_ts publish_hello "(newTopic topic_t)\<lparr>t_subs := {''s''}\<rparr>" "\<lambda>i. 1000"
             ?ops, THEN conjunct1, THEN mp, OF A]
       Publish_identifiers_increase_until_the_counter_wraps
         [of "NewServer []" publish_hello "(newTopic topic_t)\<lparr>t_subs := {''s''}\<rparr>" "\<lambda>i. 1000"
             ?ops, THEN conjunct2, THEN conjunct2, THEN conjunct1, THEN mp, OF u]
       u A
  show ?thesis
    unfolding l n i by (simp add: publish_hello_def)
qed

text \<open>
  Claim C1, as stated, fails in two places. A topic may have the empty name
  (\<^verbatim>\<open>CreateTopic\<close> does not look at the name), and a \<^verbatim>\<open>Publish\<close> to it is refused
  with \<open>InvalidArgument\<close>: the topic exists and no identifier is assigned. And at
  the counter value \<open>2\<^sup>6\<^sup>3 - 1\<close> a \<^verbatim>\<open>Publish\<close> of two messages gives the identifier of
  \<open>2\<^sup>6\<^sup>3 - 1\<close> and then the identifier of \<open>- 2\<^sup>6\<^sup>3\<close>: the counter has wrapped and the
  identifiers do not grow.
\<close>

theorem Publish_empty_topic_name_and_wrap_counterexample:
  "fst (run (NewServer [])
          [OpCreateTopic (topic_t\<lparr>tp_Name := []\<rparr>),
           OpPublish (publish_hello\<lparr>pr_Topic := []\<rparr>) (\<lambda>i. 1000)]) =
     [(OpCreateTopic (topic_t\<lparr>tp_Name := []\<rparr>), OK (TopicResponse (topic_t\<lparr>tp_Name := []\<rparr>))),
      (OpPublish (publish_hello\<lparr>pr_Topic := []\<rparr>) (\<lambda>i. 1000),
       Error (Status InvalidArgument ''missing topic'' []))] \<and>
   topics (snd (run (NewServer [])
          [OpCreateTopic (topic_t\<lparr>tp_Name := []\<rparr>),
           OpPublish (publish_hello\<lparr>pr_Topic := []\<rparr>) (\<lambda>i. 1000)])) [] \<noteq> None \<and>
   fst (Publish (server_ts\<lparr>nextID := 9223372036854775807\<rparr>)
          (publish_hello\<lparr>pr_Messages := pr_Messages publish_hello @ pr_Messages publish_hello\<rparr>)
          (\<lambda>i. 1000)) =
     OK (PublishResponse [''m9223372036854775807'', ''m-9223372036854775808''])"
proof (intro conjI)
  have a: "step (NewServer []) (OpCreateTopic (topic_t\<lparr>tp_Name := []\<rparr>)) =
      (OK (TopicResponse (topic_t\<lparr>tp_Name := []\<rparr>)),
       (NewServer [])\<lparr>topics := [[] \<mapsto> newTopic (topic_t\<lparr>tp_Name := []\<rparr>)]\<rparr>)"
    by (simp add: CreateTopic_def runReactor_def NewServer_def topic_t_def)
  have b: "step ((NewServer [])\<lparr>topics := [[] \<mapsto> newTopic (topic_t\<lparr>tp_Name := []\<rparr>)]\<rparr>)
             (OpPublish (publish_hello\<lparr>pr_Topic := []\<rparr>) (\<lambda>i. 1000)) =
      (Error (Status InvalidArgument ''missing topic'' []),
       (NewServer [])\<lparr>topics := [[] \<mapsto> newTopic (topic_t\<lparr>tp_Name := []\<rparr>)]\<rparr>)"
    by (simp add: Publish_def runReactor_def NewServer_def)
  have r: "run (NewServer [])
          [OpCreateTopic (topic_t\<lparr>tp_Name := []\<rparr>),
           OpPublish (publish_hello\<lparr>pr_Topic := []\<rparr>) (\<lambda>i. 1000)] =
     ([(OpCreateTopic (topic_t\<lparr>tp_Name := []\<rparr>), OK (TopicResponse (topic_t\<lparr>tp_Name := []\<rparr>))),
       (OpPublish (publish_hello\<lparr>pr_Topic := []\<rparr>) (\<lambda>i. 1000),
        Error (Status InvalidArgument ''missing topic'' []))],
      (NewServer [])\<lparr>topics := [[] \<mapsto> newTopic (topic_t\<lparr>tp_Name := []\<rparr>)]\<rparr>)"
    by (simp only: run.simps a b split_conv reply.distinct if_False)
  show "fst (run (NewServer [])
          [OpCreateTopic (topic_t\<lparr>tp_Name := []\<rparr>),
           OpPublish (publish_hello\<lparr>pr_Topic := []\<rparr>) (\<lambda>i. 1000)]) =
     [(OpCreateTopic (topic_t\<lparr>tp_Name := []\<rparr>), OK (TopicResponse (topic_t\<lparr>tp_Name := []\<rparr>))),
      (OpPublish (publish_hello\<lparr>pr_Topic := []\<rparr>) (\<lambda>i. 1000),
       Error (Status InvalidArgument ''missing topic'' []))]"
    by (simp only: r fst_conv)
  show "topics (snd (run (NewServer [])
          [OpCreateTopic (topic_t\<lparr>tp_Name := []\<rparr>),
           OpPublish (publish_hello\<lparr>pr_Topic := []\<rparr>) (\<lambda>i. 1000)])) [] \<noteq> None"
    by (simp only: r snd_conv) simp
  have m1: "msgID 9223372036854775807 = ''m9223372036854775807''"
    by (simp add: msgID_def fmt_d_def digit_char_def char_of_def bit_Suc_0_iff)
  have m2: "msgID (- 9223372036854775808) = ''m-9223372036854775808''"
    by (simp add: msgID_def fmt_d_def digit_char_def char_of_def bit_Suc_0_iff)
  show "fst (Publish (server_ts\<lparr>nextID := 9223372036854775807\<rparr>)
          (publish_hello\<lparr>pr_Messages := pr_Messages publish_hello @ pr_Messages publish_hello\<rparr>)
          (\<lambda>i. 1000)) =
     OK (PublishResponse [''m9223372036854775807'', ''m-9223372036854775808''])"
    by (simp add: Publish_def runReactor_def server_ts_def NewServer_def publish_hello_def
        publishOne_def Let_def m1 m2 del: digits.simps)
qed

















lemma step_pull_m0:
  "step (server_m0 0) (OpPull pull_s (1500, [''m0''], [''m0'']) None (1500, [''m0''], [''m0''])) =
     (OK (PullResponse [\<lparr>rm_AckId = ''m0'', rm_Message = Some message_m0\<rparr>]),
      (server_m0 (1500 + 10 * Second))
        \<lparr>heap := (\<lambda>a. emptyMessage)(0 := Message_m0\<lparr>M_deliveries := 1\<rparr>)\<rparr>)"
proof -
  have u: "unhandled (server_m0 0) (PullReq pull_s) ''Pull''" by (rule unhandled_server_m0)
  have s: "subs (server_m0 0) (pl_Subscription pull_s) = Some (sub_pending_m0 0)"
    by (simp add: server_m0_def pull_s_def)
  have p: "pull (sub_pending_m0 0) (heap (server_m0 0)) 10 (1500, [''m0''], [''m0'']) =
      Some (sub_pending_m0 (1500 + 10 * Second),
            (\<lambda>a. emptyMessage)(0 := Message_m0\<lparr>M_deliveries := 1\<rparr>),
            [\<lparr>rm_AckId = ''m0'', rm_Message = Some message_m0\<rparr>])"
    by (simp add: pull_def sub_pending_m0_def pending_m0_def server_m0_def outstanding_def
        IsZero_def message_m0_def AsTime_def Sub_def retentionDuration_def Minute_def Second_def
        newSubscription_def withDefaults_def subscription_s_def emptySubscription_pb_def
        incr_deliveries_def Message_m0_def Add_def Let_def fun_eq_iff
        maxDuration_def minDuration_def unixEpoch_def)
  have m: "sint (pl_MaxMessages pull_s) = 10" "pl_ReturnImmediately pull_s"
    "pl_Subscription pull_s = ''s''"
    by (simp_all add: pull_s_def)
  have q: "Pull (server_m0 0) pull_s (1500, [''m0''], [''m0'']) None (1500, [''m0''], [''m0'']) =
     (OK (PullResponse [\<lparr>rm_AckId = ''m0'', rm_Message = Some message_m0\<rparr>]),
      (server_m0 0)\<lparr>subs := (subs (server_m0 0))(''s'' \<mapsto> sub_pending_m0 (1500 + 10 * Second)),
                     heap := (\<lambda>a. emptyMessage)(0 := Message_m0\<lparr>M_deliveries := 1\<rparr>)\<rparr>)"
    by (subst Pull_unhandled[OF u _ s]) (simp_all add: m p)
  have e: "(server_m0 0)\<lparr>subs := (subs (server_m0 0))(''s'' \<mapsto> sub_pending_m0 (1500 + 10 * Second)),
                     heap := (\<lambda>a. emptyMessage)(0 := Message_m0\<lparr>M_deliveries := 1\<rparr>)\<rparr> =
           (server_m0 (1500 + 10 * Second))
             \<lparr>heap := (\<lambda>a. emptyMessage)(0 := Message_m0\<lparr>M_deliveries := 1\<rparr>)\<rparr>"
    by (simp add: server_m0_def)
  show ?thesis
    by (simp only: step.simps q e)
qed

lemma run_append:
  "run s xs = (tr, s') \<Longrightarrow> Panic \<notin> snd ` set tr \<Longrightarrow>
   run s (xs @ ys) = (tr @ fst (run s' ys), snd (run s' ys))"
proof (induction xs arbitrary: s tr)
  case Nil
  then show ?case by simp
next
  case (Cons x xs)
  obtain r s1 where st: "step s x = (r, s1)" by (cases "step s x") auto
  obtain rs s2 where rn: "run s1 xs = (rs, s2)" by (cases "run s1 xs") auto
  from Cons.prems st rn have np: "r \<noteq> Panic" by (auto split: if_splits)
  with Cons.prems st rn have e: "tr = (x, r) # rs" "s' = s2" by simp_all
  with Cons.prems(2) have "Panic \<notin> snd ` set rs" by simp
  with rn e(2) have "run s1 (xs @ ys) = (rs @ fst (run s' ys), snd (run s' ys))"
    by (intro Cons.IH) simp_all
  with st np e show ?case by simp
qed





subsection \<open>ModifyAckDeadline on a pending message\<close>

text \<open>
  Claim C7, on the code. \<^verbatim>\<open>subscription.modifyAckDeadline\<close> on a pending message: with
  a deadline of 0 seconds the lease expiry of the message is cleared, so the message is
  available; with a deadline of \<open>d > 0\<close> seconds the lease expiry becomes the clock
  reading of the call plus \<open>d\<close> seconds. Nothing else of the message changes. The RPC
  \<^verbatim>\<open>ModifyAckDeadline\<close> that no reactor takes does the same for every pending message
  it names, and replies \<open>Empty\<close>, when \<^verbatim>\<open>msgsByID\<close> knows every id of the request;
  the clock reading is the one taken while an occurrence of the id in the request is
  handled. But when \<^verbatim>\<open>msgsByID\<close> does not know some id of the request (the id of the
  pending message itself after \<^verbatim>\<open>ClearMessages\<close>, or another id of the same
  request), the call panics in its first loop, at \<^verbatim>\<open>s.msgsByID[id].modacks\<close>, and the
  pending message keeps the lease it had: it becomes neither available nor leased for
  \<open>d\<close> seconds more.
\<close>

theorem ModifyAckDeadline_pending_message_lease:
  "(sub_msgs sub mid = Some m \<longrightarrow>
      (sint secs = 0 \<longrightarrow>
         sub_msgs (modifyAckDeadline sub mid (secsToDur secs) now) mid =
           Some (m\<lparr>m_ackDeadline := 0\<rparr>) \<and>
         \<not> outstanding (m\<lparr>m_ackDeadline := 0\<rparr>)) \<and>
      (0 < sint secs \<longrightarrow>
         sub_msgs (modifyAckDeadline sub mid (secsToDur secs) now) mid =
           Some (m\<lparr>m_ackDeadline := now + sint secs * Second\<rparr>))) \<and>
   (unhandled s (ModifyAckDeadlineReq req) ''ModifyAckDeadline'' \<and>
    mr_Subscription req \<noteq> [] \<and> subs s (mr_Subscription req) = Some sub \<and>
    (\<forall>i \<in> set (mr_AckIds req). msgsByID s i \<noteq> None) \<and>
    mid \<in> set (mr_AckIds req) \<and> sub_msgs sub mid = Some m \<longrightarrow>
      (\<exists>s' sub'. ModifyAckDeadline s req wall clock = (OK Empty, s') \<and>
         subs s' (mr_Subscription req) = Some sub' \<and>
         (sint (mr_AckDeadlineSeconds req) = 0 \<longrightarrow>
            sub_msgs sub' mid = Some (m\<lparr>m_ackDeadline := 0\<rparr>)) \<and>
         (0 < sint (mr_AckDeadlineSeconds req) \<longrightarrow>
            (\<exists>j < length (mr_AckIds req). mr_AckIds req ! j = mid \<and>
               sub_msgs sub' mid =
                 Some (m\<lparr>m_ackDeadline := clock j + sint (mr_AckDeadlineSeconds req) * Second\<rparr>))))) \<and>
   (unhandled s (ModifyAckDeadlineReq req) ''ModifyAckDeadline'' \<and>
    mr_Subscription req \<noteq> [] \<and> subs s (mr_Subscription req) = Some sub \<and>
    mid \<in> set (mr_AckIds req) \<and> sub_msgs sub mid = Some m \<and>
    (\<exists>i \<in> set (mr_AckIds req). msgsByID s i = None) \<longrightarrow>
      ModifyAckDeadline s req wall clock = (Panic, s) \<and>
      pendingOf (snd (ModifyAckDeadline s req wall clock)) (mr_Subscription req) mid = Some m)"
proof (intro conjI impI; (elim conjE)?)
  assume m: "sub_msgs sub mid = Some m"
  show "sub_msgs (modifyAckDeadline sub mid (secsToDur secs) now) mid =
           Some (m\<lparr>m_ackDeadline := 0\<rparr>)" if "sint secs = 0"
    using that by (simp add: modifyAckDeadline_pending[OF m] secsToDur_def)
  show "\<not> outstanding (m\<lparr>m_ackDeadline := 0\<rparr>)"
    by (simp add: outstanding_def IsZero_def)
  show "sub_msgs (modifyAckDeadline sub mid (secsToDur secs) now) mid =
           Some (m\<lparr>m_ackDeadline := now + sint secs * Second\<rparr>)" if "0 < sint secs"
    using that by (simp add: modifyAckDeadline_pending[OF m] secsToDur_def Second_def)
next
  assume u: "unhandled s (ModifyAckDeadlineReq req) ''ModifyAckDeadline''"
    and n: "mr_Subscription req \<noteq> []" and sub: "subs s (mr_Subscription req) = Some sub"
    and known: "\<forall>i \<in> set (mr_AckIds req). msgsByID s i \<noteq> None"
    and mid: "mid \<in> set (mr_AckIds req)" and m: "sub_msgs sub mid = Some m"
  let ?d = "secsToDur (mr_AckDeadlineSeconds req)"
  let ?sub' = "modifyAckDeadlines ?d clock 0 (mr_AckIds req) sub"
  from recordModacks_Some[OF known] obtain h' where
    h': "recordModacks wall (mr_AckDeadlineSeconds req) (mr_AckIds req) (msgsByID s) (heap s) = Some h'"
    by blast
  have eq: "ModifyAckDeadline s req wall clock =
      (OK Empty, s\<lparr>subs := (subs s)(mr_Subscription req \<mapsto> ?sub'), heap := h'\<rparr>)"
    by (simp add: ModifyAckDeadline_unhandled[OF u n sub] h')
  from modifyAckDeadlines_pending[OF m, of "mr_AckIds req" ?d clock 0] mid
  obtain j where j: "j < length (mr_AckIds req)" "mr_AckIds req ! j = mid"
    "sub_msgs ?sub' mid = Some (m\<lparr>m_ackDeadline := (if ?d = 0 then 0 else clock j + ?d)\<rparr>)"
    by auto
  have z: "?d = 0 \<longleftrightarrow> sint (mr_AckDeadlineSeconds req) = 0"
    by (simp add: secsToDur_def Second_def)
  have "(sint (mr_AckDeadlineSeconds req) = 0 \<longrightarrow>
            sub_msgs ?sub' mid = Some (m\<lparr>m_ackDeadline := 0\<rparr>)) \<and>
         (0 < sint (mr_AckDeadlineSeconds req) \<longrightarrow>
            (\<exists>j < length (mr_AckIds req). mr_AckIds req ! j = mid \<and>
               sub_msgs ?sub' mid =
                 Some (m\<lparr>m_ackDeadline := clock j + sint (mr_AckDeadlineSeconds req) * Second\<rparr>)))"
    using j z by (auto simp: secsToDur_def)
  with eq show "\<exists>s' sub'. ModifyAckDeadline s req wall clock = (OK Empty, s') \<and>
         subs s' (mr_Subscription req) = Some sub' \<and>
         (sint (mr_AckDeadlineSeconds req) = 0 \<longrightarrow>
            sub_msgs sub' mid = Some (m\<lparr>m_ackDeadline := 0\<rparr>)) \<and>
         (0 < sint (mr_AckDeadlineSeconds req) \<longrightarrow>
            (\<exists>j < length (mr_AckIds req). mr_AckIds req ! j = mid \<and>
               sub_msgs sub' mid =
                 Some (m\<lparr>m_ackDeadline := clock j + sint (mr_AckDeadlineSeconds req) * Second\<rparr>)))"
    by simp
next
  assume u: "unhandled s (ModifyAckDeadlineReq req) ''ModifyAckDeadline''"
    and n: "mr_Subscription req \<noteq> []" and sub: "subs s (mr_Subscription req) = Some sub"
    and m: "sub_msgs sub mid = Some m"
    and unk: "\<exists>i \<in> set (mr_AckIds req). msgsByID s i = None"
  from unk obtain i where i: "i \<in> set (mr_AckIds req)" "msgsByID s i = None" by blast
  show p: "ModifyAckDeadline s req wall clock = (Panic, s)"
    by (simp add: ModifyAckDeadline_unhandled[OF u n sub]
        recordModacks_None[where byID="msgsByID s", OF i])
  show "pendingOf (snd (ModifyAckDeadline s req wall clock)) (mr_Subscription req) mid = Some m"
    by (simp add: p pendingOf_Some[OF sub] m)
qed

theorem ModifyAckDeadline_pending_message_lease_witness:
  "fst (run (NewServer [])
          [OpCreateTopic topic_t, OpCreateSubscription subscription_s,
           OpPublish publish_hello (\<lambda>i. 1000),
           OpPull pull_s (1500, [''m0''], [''m0'']) None (1500, [''m0''], [''m0'']),
           OpClearMessages,
           OpModifyAckDeadline
             \<lparr>mr_Subscription = ''s'', mr_AckIds = [''m0''], mr_AckDeadlineSeconds = 0\<rparr> 6 (\<lambda>i. 7)]) =
     [(OpCreateTopic topic_t, OK (TopicResponse topic_t)),
      (OpCreateSubscription subscription_s, OK (SubscriptionResponse (withDefaults subscription_s))),
      (OpPublish publish_hello (\<lambda>i. 1000), OK (PublishResponse [''m0''])),
      (OpPull pull_s (1500, [''m0''], [''m0'']) None (1500, [''m0''], [''m0'']),
       OK (PullResponse [\<lparr>rm_AckId = ''m0'', rm_Message = Some message_m0\<rparr>])),
      (OpClearMessages, OK Empty),
      (OpModifyAckDeadline
         \<lparr>mr_Subscription = ''s'', mr_AckIds = [''m0''], mr_AckDeadlineSeconds = 0\<rparr> 6 (\<lambda>i. 7),
       Panic)] \<and>
   pendingOf (snd (run (NewServer [])
          [OpCreateTopic topic_t, OpCreateSubscription subscription_s,
           OpPublish publish_hello (\<lambda>i. 1000),
           OpPull pull_s (1500, [''m0''], [''m0'']) None (1500, [''m0''], [''m0'']),
           OpClearMessages,
           OpModifyAckDeadline
             \<lparr>mr_Subscription = ''s'', mr_AckIds = [''m0''], mr_AckDeadlineSeconds = 0\<rparr> 6 (\<lambda>i. 7)]))
       ''s'' ''m0'' = Some (pending_m0 (1500 + 10 * Second)) \<and>
   ModifyAckDeadline (server_m0 5)
     \<lparr>mr_Subscription = ''s'', mr_AckIds = [''m0'', ''m7''], mr_AckDeadlineSeconds = 0\<rparr> 6 (\<lambda>i. 7) =
       (Panic, server_m0 5) \<and>
   (\<exists>s' sub'. ModifyAckDeadline (server_m0 5)
       \<lparr>mr_Subscription = ''s'', mr_AckIds = [''m0''], mr_AckDeadlineSeconds = 30\<rparr> 6 (\<lambda>i. 7) =
         (OK Empty, s') \<and>
       subs s' ''s'' = Some sub' \<and>
       sub_msgs sub' ''m0'' = Some ((pending_m0 5)\<lparr>m_ackDeadline := 7 + 30 * Second\<rparr>))"
proof -
  let ?ops3 = "[OpCreateTopic topic_t, OpCreateSubscription subscription_s,
      OpPublish publish_hello (\<lambda>i. 1000)]"
  let ?tr3 = "[(OpCreateTopic topic_t, OK (TopicResponse topic_t)),
      (OpCreateSubscription subscription_s, OK (SubscriptionResponse (withDefaults subscription_s))),
      (OpPublish publish_hello (\<lambda>i. 1000), OK (PublishResponse [''m0'']))]"
  let ?pull1 = "OpPull pull_s (1500, [''m0''], [''m0'']) None (1500, [''m0''], [''m0''])"
  let ?rm = "\<lparr>rm_AckId = ''m0'', rm_Message = Some message_m0\<rparr>"
  let ?req = "\<lparr>mr_Subscription = ''s'', mr_AckIds = [''m0''], mr_AckDeadlineSeconds = 0\<rparr>"
  let ?req2 = "\<lparr>mr_Subscription = ''s'', mr_AckIds = [''m0'', ''m7''], mr_AckDeadlineSeconds = 0\<rparr>"
  let ?req3 = "\<lparr>mr_Subscription = ''s'', mr_AckIds = [''m0''], mr_AckDeadlineSeconds = 30\<rparr>"
  let ?dl = "1500 + 10 * Second"
  let ?s4 = "(server_m0 ?dl)\<lparr>heap := (\<lambda>a. emptyMessage)(0 := Message_m0\<lparr>M_deliveries := 1\<rparr>)\<rparr>"
  let ?s5 = "?s4\<lparr>msgs := [], msgsByID := Map.empty\<rparr>"
  have st5: "step ?s4 OpClearMessages = (OK Empty, ?s5)"
    by (simp add: ClearMessages_def)
  have A: "unhandled ?s5 (ModifyAckDeadlineReq ?req) ''ModifyAckDeadline'' \<and>
      mr_Subscription ?req \<noteq> [] \<and> subs ?s5 (mr_Subscription ?req) = Some (sub_pending_m0 ?dl) \<and>
      ''m0'' \<in> set (mr_AckIds ?req) \<and> sub_msgs (sub_pending_m0 ?dl) ''m0'' = Some (pending_m0 ?dl) \<and>
      (\<exists>i \<in> set (mr_AckIds ?req). msgsByID ?s5 i = None)"
    by (simp add: unhandled_def reactorOptions_server_m0)
       (simp add: server_m0_def sub_pending_m0_def)
  note P = ModifyAckDeadline_pending_message_lease
             [THEN conjunct2, THEN conjunct2, THEN mp, OF A, of 6 "\<lambda>i. 7"]
  from P have st6: "step ?s5 (OpModifyAckDeadline ?req 6 (\<lambda>i. 7)) = (Panic, ?s5)"
    by simp
  have np: "Panic \<notin> snd ` set ?tr3" by simp
  have r3: "run (server_m0 0) [?pull1, OpClearMessages, OpModifyAckDeadline ?req 6 (\<lambda>i. 7)] =
      ([(?pull1, OK (PullResponse [?rm])), (OpClearMessages, OK Empty),
        (OpModifyAckDeadline ?req 6 (\<lambda>i. 7), Panic)], ?s5)"
    by (simp only: run.simps step_pull_m0 st5 st6 split_conv reply.distinct if_False if_True
          refl)
  have r: "run (NewServer []) (?ops3 @ [?pull1, OpClearMessages, OpModifyAckDeadline ?req 6 (\<lambda>i. 7)]) =
      (?tr3 @ [(?pull1, OK (PullResponse [?rm])), (OpClearMessages, OK Empty),
        (OpModifyAckDeadline ?req 6 (\<lambda>i. 7), Panic)], ?s5)"
    unfolding run_append[OF run_create_publish np] r3 by simp
  have p5: "pendingOf ?s5 ''s'' ''m0'' = Some (pending_m0 ?dl)"
    by (simp add: pendingOf_def server_m0_def sub_pending_m0_def)
  have B: "unhandled (server_m0 5) (ModifyAckDeadlineReq ?req2) ''ModifyAckDeadline'' \<and>
      mr_Subscription ?req2 \<noteq> [] \<and> subs (server_m0 5) (mr_Subscription ?req2) = Some (sub_pending_m0 5) \<and>
      ''m0'' \<in> set (mr_AckIds ?req2) \<and> sub_msgs (sub_pending_m0 5) ''m0'' = Some (pending_m0 5) \<and>
      (\<exists>i \<in> set (mr_AckIds ?req2). msgsByID (server_m0 5) i = None)"
    by (simp add: unhandled_def reactorOptions_server_m0)
       (simp add: server_m0_def sub_pending_m0_def)
  note Q = ModifyAckDeadline_pending_message_lease
             [THEN conjunct2, THEN conjunct2, THEN mp, OF B, of 6 "\<lambda>i. 7", THEN conjunct1]
  have C: "unhandled (server_m0 5) (ModifyAckDeadlineReq ?req3) ''ModifyAckDeadline'' \<and>
      mr_Subscription ?req3 \<noteq> [] \<and> subs (server_m0 5) (mr_Subscription ?req3) = Some (sub_pending_m0 5) \<and>
      (\<forall>i \<in> set (mr_AckIds ?req3). msgsByID (server_m0 5) i \<noteq> None) \<and>
      ''m0'' \<in> set (mr_AckIds ?req3) \<and> sub_msgs (sub_pending_m0 5) ''m0'' = Some (pending_m0 5)"
    by (simp add: unhandled_def reactorOptions_server_m0)
       (simp add: server_m0_def sub_pending_m0_def)
  note R = ModifyAckDeadline_pending_message_lease
             [THEN conjunct2, THEN conjunct1, THEN mp, OF C, of 6 "\<lambda>i. 7"]
  from R have R': "\<exists>s' sub'. ModifyAckDeadline (server_m0 5) ?req3 6 (\<lambda>i. 7) = (OK Empty, s') \<and>
       subs s' ''s'' = Some sub' \<and>
       sub_msgs sub' ''m0'' = Some ((pending_m0 5)\<lparr>m_ackDeadline := 7 + 30 * Second\<rparr>)"
    by simp
  from r p5 Q R' show ?thesis
    by (simp del: run.simps)
qed

subsection \<open>Seek on a message that is still pending\<close>


end
